(* ===== verification/Prelude.thy ===== *)
theory Prelude
  imports Main "HOL-Library.Word"
begin

text \<open>
  Shared vocabulary of the development: the Go types that every component uses, Go's
  run-time conventions (panics, wrapped errors, slices, 64-bit arithmetic), the lemma
  collections of the development, and the generic lemmas on lists, maps and words that
  several components rely on.

  Conventions:
  \<^item> \<open>uint64\<close> counters and sizes are 64-bit words, so \<open>+\<close> and \<open>-\<close> wrap as in Go;
  \<^item> \<open>int64\<close> chain epochs and times are unbounded integers where the code only compares and
    shifts them by small constants; a component that multiplies \<open>int64\<close> values writes the
    wrap-around out with \<open>wrap64\<close>;
  \<^item> an \<open>error\<close> value is its text (\<open>gerr\<close>); \<open>Inl\<close> of a sum is the error return;
  \<^item> a run-time panic (nil dereference, index out of range) is a value of its own, never
    an unspecified HOL term.
\<close>

section \<open>Go types\<close>

type_synonym u64 = "64 word"
type_synonym bytes = "8 word list"
type_synonym cid = string
type_synonym address = string
type_synonym epoch = int
type_synonym gerr = string

text \<open>\<^verbatim>\<open>xerrors.Errorf("msg: %w", err)\<close>: the wrapped text, without other format arguments.\<close>

definition Errorf :: "string \<Rightarrow> gerr \<Rightarrow> gerr" where
  "Errorf msg e = msg @ '': '' @ e"

text \<open>A two's-complement \<open>int64\<close> result of an unbounded computation.\<close>

definition wrap64 :: "int \<Rightarrow> int" where
  "wrap64 x = (x + 2 ^ 63) mod 2 ^ 64 - 2 ^ 63"

definition in_int64 :: "int \<Rightarrow> bool" where
  "in_int64 x \<longleftrightarrow> - (2 ^ 63) \<le> x \<and> x < 2 ^ 63"

lemma wrap64_id [simp]: "in_int64 x \<Longrightarrow> wrap64 x = x"
  by (simp add: wrap64_def in_int64_def)

lemma wrap64_in_int64: "in_int64 (wrap64 x)"
  by (simp add: wrap64_def in_int64_def)

text \<open>Go's integer division truncates towards zero.\<close>

definition go_div :: "int \<Rightarrow> int \<Rightarrow> int" where
  "go_div a b = sgn a * sgn b * (\<bar>a\<bar> div \<bar>b\<bar>)"

lemma go_div_nonneg: "0 \<le> a \<Longrightarrow> 0 < b \<Longrightarrow> go_div a b = a div b"
  by (cases "a = 0") (simp_all add: go_div_def)

section \<open>Lemma collections\<close>

named_theorems planner_simps \<open>unfolding of the sector planners\<close>
named_theorems handler_simps \<open>unfolding of the sector handlers\<close>

section \<open>Lists and finite maps\<close>

lemma card_dom_upd_image:
  fixes m :: "'k \<rightharpoonup> 'v"
  assumes "finite (dom m)"
  shows "card {k. (m(i \<mapsto> v)) k = Some w} =
    (if v = w then Suc (card {k. k \<noteq> i \<and> m k = Some w}) else card {k. k \<noteq> i \<and> m k = Some w})"
proof -
  have fin: "finite {k. k \<noteq> i \<and> m k = Some w}"
    by (rule finite_subset [OF _ assms]) auto
  have "{k. (m(i \<mapsto> v)) k = Some w} =
      (if v = w then insert i {k. k \<noteq> i \<and> m k = Some w} else {k. k \<noteq> i \<and> m k = Some w})"
    by auto
  with fin show ?thesis by simp
qed

lemma card_preimage_split:
  fixes m :: "'k \<rightharpoonup> 'v"
  assumes "finite (dom m)"
  shows "card {k. m k = Some w} =
    (if m i = Some w then Suc (card {k. k \<noteq> i \<and> m k = Some w}) else card {k. k \<noteq> i \<and> m k = Some w})"
proof -
  have fin: "finite {k. k \<noteq> i \<and> m k = Some w}"
    by (rule finite_subset [OF _ assms]) auto
  have "{k. m k = Some w} =
      (if m i = Some w then insert i {k. k \<noteq> i \<and> m k = Some w} else {k. k \<noteq> i \<and> m k = Some w})"
    by auto
  with fin show ?thesis by simp
qed

lemma unat_lt_64: "unat (w :: u64) < 2 ^ 64"
  using unsigned_less [of w] by simp

lemma unat_of_nat_64: "n < 2 ^ 64 \<Longrightarrow> unat (of_nat n :: u64) = n"
  by (simp add: unsigned_of_nat take_bit_nat_eq_self)

section \<open>Event-driven machines\<close>

text \<open>
  A component that reacts to events: some events come from outside (\<open>external\<close>), others are sent
  by the component itself in a state (\<open>sends\<close>), and \<open>plans e s s'\<close> holds when handling \<open>e\<close> in
  \<open>s\<close> leads to \<open>s'\<close>.
\<close>

inductive machine_reach ::
  "'s \<Rightarrow> ('e \<Rightarrow> bool) \<Rightarrow> ('s \<Rightarrow> 'e \<Rightarrow> bool) \<Rightarrow> ('e \<Rightarrow> 's \<Rightarrow> 's \<Rightarrow> bool) \<Rightarrow> 's \<Rightarrow> bool"
  for init external sends plans where
  start: "machine_reach init external sends plans init"
| outside: "machine_reach init external sends plans s \<Longrightarrow> external e \<Longrightarrow> plans e s s' \<Longrightarrow>
    machine_reach init external sends plans s'"
| own: "machine_reach init external sends plans s \<Longrightarrow> sends s e \<Longrightarrow> plans e s s' \<Longrightarrow>
    machine_reach init external sends plans s'"

text \<open>
  The contract between the two halves of such a component: whatever the senders emit in a state
  that satisfies the invariant is \<open>ok\<close> there, and handling an \<open>ok\<close> event keeps the invariant.
\<close>

locale event_machine =
  fixes init :: 's
    and external :: "'e \<Rightarrow> bool"
    and sends :: "'s \<Rightarrow> 'e \<Rightarrow> bool"
    and plans :: "'e \<Rightarrow> 's \<Rightarrow> 's \<Rightarrow> bool"
    and inv :: "'s \<Rightarrow> bool"
    and ok :: "'s \<Rightarrow> 'e \<Rightarrow> bool"
  assumes init_inv: "inv init"
    and external_ok: "external e \<Longrightarrow> inv s \<Longrightarrow> ok s e"
    and sends_ok: "inv s \<Longrightarrow> sends s e \<Longrightarrow> ok s e"
    and plans_inv: "inv s \<Longrightarrow> ok s e \<Longrightarrow> plans e s s' \<Longrightarrow> inv s'"
begin

lemma reach_inv: "machine_reach init external sends plans s \<Longrightarrow> inv s"
  by (induction rule: machine_reach.induct)
    (blast intro: init_inv external_ok sends_ok plans_inv)+

end

section \<open>Simulation\<close>

text \<open>Running a list of operations, collecting their answers; \<open>None\<close> is a panic.\<close>

fun run_ops :: "('o \<Rightarrow> 's \<Rightarrow> ('a \<times> 's) option) \<Rightarrow> 'o list \<Rightarrow> 's \<Rightarrow> ('a list \<times> 's) option" where
  "run_ops step [] s = Some ([], s)"
| "run_ops step (op # ops) s =
    (case step op s of
       None \<Rightarrow> None
     | Some (a, s') \<Rightarrow> map_option (\<lambda>(as, s''). (a # as, s'')) (run_ops step ops s'))"

text \<open>
  The contract of an implementation with its specification: every admissible operation answers as the
  specification does on the abstraction of the state, and keeps the invariant.
\<close>

locale simulation =
  fixes step :: "'o \<Rightarrow> 's \<Rightarrow> ('a \<times> 's) option"
    and spec :: "'o \<Rightarrow> 't \<Rightarrow> ('a \<times> 't) option"
    and abs :: "'s \<Rightarrow> 't"
    and inv :: "'s \<Rightarrow> bool"
    and ok :: "'o \<Rightarrow> bool"
  assumes sim: "inv s \<Longrightarrow> ok op \<Longrightarrow> map_option (apsnd abs) (step op s) = spec op (abs s)"
    and keeps: "inv s \<Longrightarrow> ok op \<Longrightarrow> step op s = Some (a, s') \<Longrightarrow> inv s'"
begin

lemma run_sim:
  assumes "inv s" "\<forall>op \<in> set ops. ok op"
  shows "map_option (apsnd abs) (run_ops step ops s) = run_ops spec ops (abs s)"
  using assms
proof (induction ops arbitrary: s)
  case (Cons op ops)
  have s: "map_option (apsnd abs) (step op s) = spec op (abs s)" using sim Cons.prems by simp
  show ?case
  proof (cases "step op s")
    case None
    then show ?thesis using s by simp
  next
    case (Some r)
    obtain a s' where r: "r = (a, s')" by fastforce
    have i: "inv s'" using keeps [of s op a s'] Cons.prems Some r by simp
    have "run_ops spec ops (abs s') = map_option (apsnd abs) (run_ops step ops s')"
      by (rule Cons.IH [OF i, symmetric]) (use Cons.prems(2) in simp)
    moreover have "spec op (abs s) = Some (a, abs s')" using s Some r by simp
    ultimately show ?thesis using Some r by (cases "run_ops step ops s'") auto
  qed
qed simp

lemma run_inv:
  assumes "inv s" "\<forall>op \<in> set ops. ok op" "run_ops step ops s = Some (as, s')"
  shows "inv s'"
  using assms
proof (induction ops arbitrary: s as)
  case (Cons op ops)
  then obtain a s1 bs where s1: "step op s = Some (a, s1)" "run_ops step ops s1 = Some (bs, s')"
    by (auto split: option.splits)
  then show ?case using Cons.IH [of s1 bs] Cons.prems(1,2) keeps [OF _ _ s1(1)] by simp
qed simp

end

end
