(* ===== verification/Sealing_Types.thy ===== *)
theory Sealing_Types
  imports Prelude
begin

text \<open>
  The data of the sealing pipeline, \<^verbatim>\<open>extern/storage-sealing\<close>: the sector states
  (\<^verbatim>\<open>sector_state.go\<close>), the sector record with its pieces and deals and the accessors over it
  (\<^verbatim>\<open>types.go\<close>), and the filler computation (\<^verbatim>\<open>utils.go\<close>).

  A Go \<open>SectorState\<close> is a string, and an operator can force any string on a sector, so the
  datatype has one constructor per named constant and \<open>OtherState\<close> for every other string;
  the empty string is \<open>UndefinedSectorState\<close>. A \<open>ReturnState\<close> is converted to and from a
  \<open>SectorState\<close> without change. Pointer fields are options.
\<close>

section \<open>Sector states\<close>

datatype (plugins only: code) SectorState =
    UndefinedSectorState
  | Empty | WaitDeals | AddPiece | Packing | GetTicket | PreCommit1 | PreCommit2
  | PreCommitting | PreCommitWait | WaitSeed | Committing | SubmitCommit | CommitWait
  | FinalizeSector | Proving
  | FailedUnrecoverable | AddPieceFailed | SealPreCommit1Failed | SealPreCommit2Failed
  | PreCommitFailed | ComputeProofFailed | CommitFailed | PackingFailed | FinalizeFailed
  | DealsExpired | RecoverDealIDs
  | Faulty | FaultReported | FaultedFinal
  | Terminating | TerminateWait | TerminateFinality | TerminateFailed
  | Removing | RemoveFailed | Removed
  | OtherState string

type_synonym ReturnState = SectorState

definition RetPreCommit1 :: ReturnState where "RetPreCommit1 = PreCommit1"
definition RetPreCommitting :: ReturnState where "RetPreCommitting = PreCommitting"
definition RetPreCommitFailed :: ReturnState where "RetPreCommitFailed = PreCommitFailed"
definition RetCommitFailed :: ReturnState where "RetCommitFailed = CommitFailed"

lemmas Ret_defs =
  RetPreCommit1_def RetPreCommitting_def RetPreCommitFailed_def RetCommitFailed_def

text \<open>The set \<^verbatim>\<open>ExistSectorStateList\<close>: the states an operator may name.\<close>

definition ExistSectorStateList :: "SectorState list" where
  "ExistSectorStateList =
    [Empty, WaitDeals, Packing, AddPiece, AddPieceFailed, GetTicket, PreCommit1, PreCommit2,
     PreCommitting, PreCommitWait, WaitSeed, Committing, SubmitCommit, CommitWait,
     FinalizeSector, Proving, FailedUnrecoverable, SealPreCommit1Failed, SealPreCommit2Failed,
     PreCommitFailed, ComputeProofFailed, CommitFailed, PackingFailed, FinalizeFailed,
     DealsExpired, RecoverDealIDs, Faulty, FaultReported, FaultedFinal, Terminating,
     TerminateWait, TerminateFinality, TerminateFailed, Removing, RemoveFailed, Removed]"

datatype statSectorState = sstStaging | sstSealing | sstFailed | sstProving

definition toStatState :: "SectorState \<Rightarrow> statSectorState" where
  "toStatState st =
    (if st \<in> {UndefinedSectorState, Empty, WaitDeals, AddPiece} then sstStaging
     else if st \<in> {Packing, GetTicket, PreCommit1, PreCommit2, PreCommitting, PreCommitWait,
                   WaitSeed, Committing, SubmitCommit, CommitWait, FinalizeSector} then sstSealing
     else if st \<in> {Proving, Removed, Removing, Terminating, TerminateWait, TerminateFinality,
                   TerminateFailed} then sstProving
     else sstFailed)"

section \<open>Sectors, pieces and deals\<close>

text \<open>
  \<open>abi.PieceInfo\<close>, \<open>market.DealProposal\<close> and \<open>miner.SectorPreCommitInfo\<close> are structs of
  other packages; the records hold the fields this program reads or writes.
\<close>

record PieceInfo =
  Size :: u64
  PieceCID :: cid

record DealProposal =
  dp_PieceCID :: cid
  dp_PieceSize :: u64
  dp_Client :: address
  dp_Provider :: address
  dp_Label :: string
  dp_StartEpoch :: epoch

record DealSchedule =
  StartEpoch :: epoch

record DealInfo =
  PublishCid :: "cid option"
  DealID :: u64
  di_DealProposal :: "DealProposal option"
  di_DealSchedule :: DealSchedule
  KeepUnsealed :: bool

record Piece =
  p_Piece :: PieceInfo
  p_DealInfo :: "DealInfo option"

record Log =
  Timestamp :: u64
  Trace :: string
  Message :: string
  Kind :: string

record SectorPreCommitInfo =
  pc_SealProof :: int
  pc_SectorNumber :: u64
  pc_SealedCID :: cid
  pc_SealRandEpoch :: epoch
  pc_DealIDs :: "u64 list"

record SectorInfo =
  State :: SectorState
  SectorNumber :: u64
  SectorType :: int
  CreationTime :: int
  Pieces :: "Piece list"
  TicketValue :: bytes
  TicketEpoch :: epoch
  PreCommit1Out :: bytes
  CommD :: "cid option"
  CommR :: "cid option"
  Proof :: bytes
  PreCommitInfo :: "SectorPreCommitInfo option"
  PreCommitMessage :: "cid option"
  PreCommitTipSet :: bytes
  PreCommit2Fails :: u64
  SeedValue :: bytes
  SeedEpoch :: epoch
  CommitMessage :: "cid option"
  InvalidProofs :: u64
  FaultReportMsg :: "cid option"
  Return :: ReturnState
  TerminateMessage :: "cid option"
  TerminatedAt :: epoch
  LastErr :: string
  Logs :: "Log list"

text \<open>The zero value of the struct, from which the state machine starts a new sector.\<close>

definition zero_SectorInfo :: SectorInfo where
  "zero_SectorInfo =
    \<lparr>State = UndefinedSectorState, SectorNumber = 0, SectorType = 0, CreationTime = 0, Pieces = [],
     TicketValue = [], TicketEpoch = 0, PreCommit1Out = [], CommD = None, CommR = None, Proof = [],
     PreCommitInfo = None, PreCommitMessage = None, PreCommitTipSet = [], PreCommit2Fails = 0,
     SeedValue = [], SeedEpoch = 0, CommitMessage = None, InvalidProofs = 0,
     FaultReportMsg = None, Return = UndefinedSectorState, TerminateMessage = None,
     TerminatedAt = 0, LastErr = '''', Logs = []\<rparr>"

record MessageReceipt =
  ExitCode :: int
  mr_Return :: bytes
  GasUsed :: int

record MsgLookup =
  Receipt :: MessageReceipt
  TipSetTok :: bytes
  Height :: epoch

definition MessageReceipt_Equals :: "MessageReceipt \<Rightarrow> MessageReceipt \<Rightarrow> bool" where
  "MessageReceipt_Equals mr o' \<longleftrightarrow>
    ExitCode mr = ExitCode o' \<and> mr_Return mr = mr_Return o' \<and> GasUsed mr = GasUsed o'"

section \<open>Accessors of a sector\<close>

text \<open>
  \<open>abi.PaddedPieceSize.Unpadded\<close> belongs to another package: the functions that convert piece
  sizes take it as the argument \<open>unpadded\<close>.
\<close>

definition pieceInfos :: "SectorInfo \<Rightarrow> PieceInfo list" where
  "pieceInfos t = map p_Piece (Pieces t)"

fun dealIDs_of :: "Piece list \<Rightarrow> u64 list" where
  "dealIDs_of [] = []"
| "dealIDs_of (p # ps) =
    (case p_DealInfo p of None \<Rightarrow> dealIDs_of ps | Some d \<Rightarrow> DealID d # dealIDs_of ps)"

definition dealIDs :: "SectorInfo \<Rightarrow> u64 list" where
  "dealIDs t = dealIDs_of (Pieces t)"

definition existingPieceSizes :: "(u64 \<Rightarrow> u64) \<Rightarrow> SectorInfo \<Rightarrow> u64 list" where
  "existingPieceSizes unpadded t = map (\<lambda>p. unpadded (Size (p_Piece p))) (Pieces t)"

fun hasDeals_in :: "Piece list \<Rightarrow> bool" where
  "hasDeals_in [] = False"
| "hasDeals_in (p # ps) = (if p_DealInfo p \<noteq> None then True else hasDeals_in ps)"

definition hasDeals :: "SectorInfo \<Rightarrow> bool" where
  "hasDeals t = hasDeals_in (Pieces t)"

definition DealSectorPriority :: int where
  "DealSectorPriority = 1024"

text \<open>\<open>sealingCtx\<close>: the priority the context carries, if one is set on it.\<close>

definition sealingCtx :: "SectorInfo \<Rightarrow> int option \<Rightarrow> int option" where
  "sealingCtx t ctx = (if hasDeals t then Some DealSectorPriority else ctx)"

record Range =
  Offset :: u64
  r_Size :: u64

text \<open>The loop of \<open>keepUnsealedRanges\<close>, with its running position \<open>at\<close>.\<close>

fun keepUnsealed_loop ::
  "(u64 \<Rightarrow> u64) \<Rightarrow> bool \<Rightarrow> bool \<Rightarrow> u64 \<Rightarrow> Piece list \<Rightarrow> Range list" where
  "keepUnsealed_loop unpadded invert always at [] = []"
| "keepUnsealed_loop unpadded invert always at (p # ps) =
    (let psize = unpadded (Size (p_Piece p)); at' = at + psize in
     case p_DealInfo p of
       None \<Rightarrow> keepUnsealed_loop unpadded invert always at' ps
     | Some d \<Rightarrow>
         if (KeepUnsealed d \<or> always) = invert then keepUnsealed_loop unpadded invert always at' ps
         else \<lparr>Offset = at' - psize, r_Size = psize\<rparr>
                # keepUnsealed_loop unpadded invert always at' ps)"

definition keepUnsealedRanges :: "(u64 \<Rightarrow> u64) \<Rightarrow> bool \<Rightarrow> bool \<Rightarrow> SectorInfo \<Rightarrow> Range list" where
  "keepUnsealedRanges unpadded invert always t = keepUnsealed_loop unpadded invert always 0 (Pieces t)"

end
