(* ===== verification/Sealing_Events.thy ===== *)
theory Sealing_Events
  imports Sealing_Types
begin

text \<open>
  \<^verbatim>\<open>extern/storage-sealing/fsm_events.go\<close>: the events of the sector state machine and what each
  does to a sector. Go tells the three kinds of events apart by the interfaces they implement:
  \<open>globalMutator\<close> (\<open>is_globalMutator\<close>), \<open>mutator\<close> (\<open>is_mutator\<close>) and \<open>Ignorable\<close>
  (\<open>is_Ignorable\<close>); \<open>SectorFaultedFinal\<close> implements none of them.

  The clock that \<open>SectorAddPiece\<close> reads is the argument \<open>now\<close>. The map of
  \<open>SectorUpdateDealIDs\<close> is an association list with distinct keys. An \<open>apply\<close> that
  dereferences nil or indexes out of range panics: the result \<open>None\<close>.
\<close>

section \<open>Events\<close>

datatype (plugins only: code) event =
    SectorRestart
  | SectorFatalError gerr
  | SectorForceState SectorState
  | SectorStart u64 int
  | SectorStartCC u64 int
  | SectorAddPiece
  | SectorPieceAdded "Piece list"
  | SectorAddPieceFailed gerr
  | SectorStartPacking
  | SectorPacked "PieceInfo list"
  | SectorTicket bytes epoch
  | SectorOldTicket
  | SectorPreCommit1 bytes
  | SectorPreCommit2 cid cid
  | SectorPreCommitLanded bytes
  | SectorSealPreCommit1Failed gerr
  | SectorSealPreCommit2Failed gerr
  | SectorChainPreCommitFailed gerr
  | SectorPreCommitted cid SectorPreCommitInfo
  | SectorSeedReady bytes epoch
  | SectorComputeProofFailed gerr
  | SectorCommitFailed gerr
  | SectorRetrySubmitCommit
  | SectorDealsExpired gerr
  | SectorTicketExpired gerr
  | SectorCommitted bytes
  | SectorCommitSubmitted cid
  | SectorProving
  | SectorFinalized
  | SectorRetryFinalize
  | SectorFinalizeFailed gerr
  | SectorRetrySealPreCommit1
  | SectorRetrySealPreCommit2
  | SectorRetryPreCommit
  | SectorRetryWaitSeed
  | SectorRetryPreCommitWait
  | SectorRetryComputeProof
  | SectorRetryInvalidProof
  | SectorRetryCommitWait
  | SectorInvalidDealIDs ReturnState
  | SectorUpdateDealIDs "(nat \<times> u64) list"
  | SectorFaulty
  | SectorFaultReported cid
  | SectorFaultedFinal
  | SectorTerminate
  | SectorTerminating "cid option"
  | SectorTerminated epoch
  | SectorTerminateFailed gerr
  | SectorRemove
  | SectorRemoved
  | SectorRemoveFailed gerr

text \<open>\<open>reflect.TypeOf\<close>: the dynamic type of an event, numbered in the order of the declarations.\<close>

definition TypeOf :: "event \<Rightarrow> nat" where
  "TypeOf e = (case e of
      SectorRestart \<Rightarrow> 0
    | SectorFatalError _ \<Rightarrow> 1
    | SectorForceState _ \<Rightarrow> 2
    | SectorStart _ _ \<Rightarrow> 3
    | SectorStartCC _ _ \<Rightarrow> 4
    | SectorAddPiece \<Rightarrow> 5
    | SectorPieceAdded _ \<Rightarrow> 6
    | SectorAddPieceFailed _ \<Rightarrow> 7
    | SectorStartPacking \<Rightarrow> 8
    | SectorPacked _ \<Rightarrow> 9
    | SectorTicket _ _ \<Rightarrow> 10
    | SectorOldTicket \<Rightarrow> 11
    | SectorPreCommit1 _ \<Rightarrow> 12
    | SectorPreCommit2 _ _ \<Rightarrow> 13
    | SectorPreCommitLanded _ \<Rightarrow> 14
    | SectorSealPreCommit1Failed _ \<Rightarrow> 15
    | SectorSealPreCommit2Failed _ \<Rightarrow> 16
    | SectorChainPreCommitFailed _ \<Rightarrow> 17
    | SectorPreCommitted _ _ \<Rightarrow> 18
    | SectorSeedReady _ _ \<Rightarrow> 19
    | SectorComputeProofFailed _ \<Rightarrow> 20
    | SectorCommitFailed _ \<Rightarrow> 21
    | SectorRetrySubmitCommit \<Rightarrow> 22
    | SectorDealsExpired _ \<Rightarrow> 23
    | SectorTicketExpired _ \<Rightarrow> 24
    | SectorCommitted _ \<Rightarrow> 25
    | SectorCommitSubmitted _ \<Rightarrow> 26
    | SectorProving \<Rightarrow> 27
    | SectorFinalized \<Rightarrow> 28
    | SectorRetryFinalize \<Rightarrow> 29
    | SectorFinalizeFailed _ \<Rightarrow> 30
    | SectorRetrySealPreCommit1 \<Rightarrow> 31
    | SectorRetrySealPreCommit2 \<Rightarrow> 32
    | SectorRetryPreCommit \<Rightarrow> 33
    | SectorRetryWaitSeed \<Rightarrow> 34
    | SectorRetryPreCommitWait \<Rightarrow> 35
    | SectorRetryComputeProof \<Rightarrow> 36
    | SectorRetryInvalidProof \<Rightarrow> 37
    | SectorRetryCommitWait \<Rightarrow> 38
    | SectorInvalidDealIDs _ \<Rightarrow> 39
    | SectorUpdateDealIDs _ \<Rightarrow> 40
    | SectorFaulty \<Rightarrow> 41
    | SectorFaultReported _ \<Rightarrow> 42
    | SectorFaultedFinal \<Rightarrow> 43
    | SectorTerminate \<Rightarrow> 44
    | SectorTerminating _ \<Rightarrow> 45
    | SectorTerminated _ \<Rightarrow> 46
    | SectorTerminateFailed _ \<Rightarrow> 47
    | SectorRemove \<Rightarrow> 48
    | SectorRemoved \<Rightarrow> 49
    | SectorRemoveFailed _ \<Rightarrow> 50)"

section \<open>Global events\<close>

text \<open>\<open>applyGlobal\<close>: the new sector and whether event processing is interrupted.\<close>

definition applyGlobal :: "event \<Rightarrow> SectorInfo \<Rightarrow> (SectorInfo \<times> bool) option" where
  "applyGlobal e si = (case e of
      SectorRestart \<Rightarrow> Some (si, False)
    | SectorFatalError _ \<Rightarrow> Some (si, True)
    | SectorForceState st \<Rightarrow> Some (si\<lparr>State := st\<rparr>, True)
    | SectorTerminate \<Rightarrow> Some (si\<lparr>State := Terminating\<rparr>, True)
    | SectorRemove \<Rightarrow> Some (si\<lparr>State := Removing\<rparr>, True)
    | _ \<Rightarrow> None)"

definition is_globalMutator :: "event \<Rightarrow> bool" where
  "is_globalMutator e \<longleftrightarrow> (case e of
      SectorRestart \<Rightarrow> True | SectorFatalError _ \<Rightarrow> True | SectorForceState _ \<Rightarrow> True
    | SectorTerminate \<Rightarrow> True | SectorRemove \<Rightarrow> True | _ \<Rightarrow> False)"

definition is_Ignorable :: "event \<Rightarrow> bool" where
  "is_Ignorable e \<longleftrightarrow> (case e of SectorStartPacking \<Rightarrow> True | _ \<Rightarrow> False)"

definition is_mutator :: "event \<Rightarrow> bool" where
  "is_mutator e \<longleftrightarrow>
    (case e of SectorFaultedFinal \<Rightarrow> False | _ \<Rightarrow> \<not> is_globalMutator e)"

section \<open>The \<open>apply\<close> methods that change the sector\<close>

definition SectorStart_apply :: "u64 \<Rightarrow> int \<Rightarrow> SectorInfo \<Rightarrow> SectorInfo" where
  "SectorStart_apply ID ty state = state\<lparr>SectorNumber := ID, SectorType := ty\<rparr>"

definition SectorStartCC_apply :: "u64 \<Rightarrow> int \<Rightarrow> SectorInfo \<Rightarrow> SectorInfo" where
  "SectorStartCC_apply ID ty state = state\<lparr>SectorNumber := ID, SectorType := ty\<rparr>"

definition SectorAddPiece_apply :: "int \<Rightarrow> SectorInfo \<Rightarrow> SectorInfo" where
  "SectorAddPiece_apply now state =
    (if CreationTime state = 0 then state\<lparr>CreationTime := now\<rparr> else state)"

definition SectorPieceAdded_apply :: "Piece list \<Rightarrow> SectorInfo \<Rightarrow> SectorInfo" where
  "SectorPieceAdded_apply NewPieces state = state\<lparr>Pieces := Pieces state @ NewPieces\<rparr>"

definition SectorPacked_apply :: "PieceInfo list \<Rightarrow> SectorInfo \<Rightarrow> SectorInfo" where
  "SectorPacked_apply FillerPieces state =
    fold (\<lambda>f st. st\<lparr>Pieces := Pieces st @ [\<lparr>p_Piece = f, p_DealInfo = None\<rparr>]\<rparr>) FillerPieces state"

definition SectorTicket_apply :: "bytes \<Rightarrow> epoch \<Rightarrow> SectorInfo \<Rightarrow> SectorInfo" where
  "SectorTicket_apply v e state = state\<lparr>TicketEpoch := e, TicketValue := v\<rparr>"

definition SectorPreCommit1_apply :: "bytes \<Rightarrow> SectorInfo \<Rightarrow> SectorInfo" where
  "SectorPreCommit1_apply pc1o state = state\<lparr>PreCommit1Out := pc1o, PreCommit2Fails := 0\<rparr>"

definition SectorPreCommit2_apply :: "cid \<Rightarrow> cid \<Rightarrow> SectorInfo \<Rightarrow> SectorInfo" where
  "SectorPreCommit2_apply sealed unsealed state =
    state\<lparr>CommD := Some unsealed, CommR := Some sealed\<rparr>"

definition SectorPreCommitLanded_apply :: "bytes \<Rightarrow> SectorInfo \<Rightarrow> SectorInfo" where
  "SectorPreCommitLanded_apply ts si = si\<lparr>PreCommitTipSet := ts\<rparr>"

definition SectorSealPreCommit1Failed_apply :: "SectorInfo \<Rightarrow> SectorInfo" where
  "SectorSealPreCommit1Failed_apply si = si\<lparr>InvalidProofs := 0, PreCommit2Fails := 0\<rparr>"

definition SectorSealPreCommit2Failed_apply :: "SectorInfo \<Rightarrow> SectorInfo" where
  "SectorSealPreCommit2Failed_apply si =
    si\<lparr>InvalidProofs := 0, PreCommit2Fails := PreCommit2Fails si + 1\<rparr>"

definition SectorPreCommitted_apply :: "cid \<Rightarrow> SectorPreCommitInfo \<Rightarrow> SectorInfo \<Rightarrow> SectorInfo" where
  "SectorPreCommitted_apply msg info state =
    state\<lparr>PreCommitMessage := Some msg, PreCommitInfo := Some info\<rparr>"

definition SectorSeedReady_apply :: "bytes \<Rightarrow> epoch \<Rightarrow> SectorInfo \<Rightarrow> SectorInfo" where
  "SectorSeedReady_apply v e state = state\<lparr>SeedEpoch := e, SeedValue := v\<rparr>"

definition SectorCommitted_apply :: "bytes \<Rightarrow> SectorInfo \<Rightarrow> SectorInfo" where
  "SectorCommitted_apply p state = state\<lparr>Proof := p\<rparr>"

definition SectorCommitSubmitted_apply :: "cid \<Rightarrow> SectorInfo \<Rightarrow> SectorInfo" where
  "SectorCommitSubmitted_apply msg state = state\<lparr>CommitMessage := Some msg\<rparr>"

definition SectorRetryComputeProof_apply :: "SectorInfo \<Rightarrow> SectorInfo" where
  "SectorRetryComputeProof_apply state = state\<lparr>InvalidProofs := InvalidProofs state + 1\<rparr>"

definition SectorRetryInvalidProof_apply :: "SectorInfo \<Rightarrow> SectorInfo" where
  "SectorRetryInvalidProof_apply state = state\<lparr>InvalidProofs := InvalidProofs state + 1\<rparr>"

definition SectorInvalidDealIDs_apply :: "ReturnState \<Rightarrow> SectorInfo \<Rightarrow> SectorInfo" where
  "SectorInvalidDealIDs_apply r state = state\<lparr>Return := r\<rparr>"

definition SectorFaultReported_apply :: "cid \<Rightarrow> SectorInfo \<Rightarrow> SectorInfo" where
  "SectorFaultReported_apply msg state = state\<lparr>FaultReportMsg := Some msg\<rparr>"

definition SectorTerminating_apply :: "cid option \<Rightarrow> SectorInfo \<Rightarrow> SectorInfo" where
  "SectorTerminating_apply msg state = state\<lparr>TerminateMessage := msg\<rparr>"

definition SectorTerminated_apply :: "epoch \<Rightarrow> SectorInfo \<Rightarrow> SectorInfo" where
  "SectorTerminated_apply e state = state\<lparr>TerminatedAt := e\<rparr>"

text \<open>
  \<open>state.Pieces[i].DealInfo.DealID = id\<close> for every entry of the map: an index beyond the pieces
  or a piece without a deal panics.
\<close>

definition set_DealID :: "nat \<Rightarrow> u64 \<Rightarrow> Piece list \<Rightarrow> Piece list option" where
  "set_DealID i did ps =
    (if i < length ps then
       (case p_DealInfo (ps ! i) of
          None \<Rightarrow> None
        | Some d \<Rightarrow> Some (ps[i := (ps ! i)\<lparr>p_DealInfo := Some (d\<lparr>DealID := did\<rparr>)\<rparr>]))
     else None)"

fun update_DealIDs :: "(nat \<times> u64) list \<Rightarrow> Piece list \<Rightarrow> Piece list option" where
  "update_DealIDs [] ps = Some ps"
| "update_DealIDs ((i, did) # us) ps =
    (case set_DealID i did ps of None \<Rightarrow> None | Some ps' \<Rightarrow> update_DealIDs us ps')"

definition SectorUpdateDealIDs_apply :: "(nat \<times> u64) list \<Rightarrow> SectorInfo \<Rightarrow> SectorInfo option" where
  "SectorUpdateDealIDs_apply us state =
    map_option (\<lambda>ps. state\<lparr>Pieces := ps\<rparr>) (update_DealIDs us (Pieces state))"

section \<open>Dispatch\<close>

text \<open>
  \<open>event.User.(mutator).apply(state)\<close>; the assertion panics on an event that is no mutator.
  The events not listed have an empty body.
\<close>

definition apply_mut :: "int \<Rightarrow> event \<Rightarrow> SectorInfo \<Rightarrow> SectorInfo option" where
  "apply_mut now ev si = (case ev of
      SectorStart i t \<Rightarrow> Some (SectorStart_apply i t si)
    | SectorStartCC i t \<Rightarrow> Some (SectorStartCC_apply i t si)
    | SectorAddPiece \<Rightarrow> Some (SectorAddPiece_apply now si)
    | SectorPieceAdded ps \<Rightarrow> Some (SectorPieceAdded_apply ps si)
    | SectorPacked fs \<Rightarrow> Some (SectorPacked_apply fs si)
    | SectorTicket v e \<Rightarrow> Some (SectorTicket_apply v e si)
    | SectorPreCommit1 p \<Rightarrow> Some (SectorPreCommit1_apply p si)
    | SectorPreCommit2 s u \<Rightarrow> Some (SectorPreCommit2_apply s u si)
    | SectorPreCommitLanded ts \<Rightarrow> Some (SectorPreCommitLanded_apply ts si)
    | SectorSealPreCommit1Failed _ \<Rightarrow> Some (SectorSealPreCommit1Failed_apply si)
    | SectorSealPreCommit2Failed _ \<Rightarrow> Some (SectorSealPreCommit2Failed_apply si)
    | SectorPreCommitted m i \<Rightarrow> Some (SectorPreCommitted_apply m i si)
    | SectorSeedReady v e \<Rightarrow> Some (SectorSeedReady_apply v e si)
    | SectorCommitted p \<Rightarrow> Some (SectorCommitted_apply p si)
    | SectorCommitSubmitted m \<Rightarrow> Some (SectorCommitSubmitted_apply m si)
    | SectorRetryComputeProof \<Rightarrow> Some (SectorRetryComputeProof_apply si)
    | SectorRetryInvalidProof \<Rightarrow> Some (SectorRetryInvalidProof_apply si)
    | SectorInvalidDealIDs r \<Rightarrow> Some (SectorInvalidDealIDs_apply r si)
    | SectorUpdateDealIDs us \<Rightarrow> SectorUpdateDealIDs_apply us si
    | SectorFaultReported m \<Rightarrow> Some (SectorFaultReported_apply m si)
    | SectorTerminating m \<Rightarrow> Some (SectorTerminating_apply m si)
    | SectorTerminated e \<Rightarrow> Some (SectorTerminated_apply e si)
    | _ \<Rightarrow> (if is_mutator ev then Some si else None))"

lemmas apply_defs [planner_simps] =
  SectorStart_apply_def SectorStartCC_apply_def SectorAddPiece_apply_def
  SectorPieceAdded_apply_def SectorTicket_apply_def
  SectorPreCommit1_apply_def SectorPreCommit2_apply_def SectorPreCommitLanded_apply_def
  SectorSealPreCommit1Failed_apply_def SectorSealPreCommit2Failed_apply_def
  SectorPreCommitted_apply_def SectorSeedReady_apply_def SectorCommitted_apply_def
  SectorCommitSubmitted_apply_def SectorRetryComputeProof_apply_def
  SectorRetryInvalidProof_apply_def SectorInvalidDealIDs_apply_def
  SectorFaultReported_apply_def SectorTerminating_apply_def SectorTerminated_apply_def

section \<open>Telling events apart\<close>

text \<open>\<open>TypeOf\<close> identifies the constructor; planners compare it with a sample event of each kind.\<close>

lemma TypeOf_eq [planner_simps]:
  fixes e :: event
  shows "TypeOf e = 0 \<longleftrightarrow> e = SectorRestart"
  and "TypeOf e = Suc 0 \<longleftrightarrow> (\<exists>x. e = SectorFatalError x)"
  and "TypeOf e = 2 \<longleftrightarrow> (\<exists>x. e = SectorForceState x)"
  and "TypeOf e = 3 \<longleftrightarrow> (\<exists>x y. e = SectorStart x y)"
  and "TypeOf e = 4 \<longleftrightarrow> (\<exists>x y. e = SectorStartCC x y)"
  and "TypeOf e = 5 \<longleftrightarrow> e = SectorAddPiece"
  and "TypeOf e = 6 \<longleftrightarrow> (\<exists>x. e = SectorPieceAdded x)"
  and "TypeOf e = 7 \<longleftrightarrow> (\<exists>x. e = SectorAddPieceFailed x)"
  and "TypeOf e = 8 \<longleftrightarrow> e = SectorStartPacking"
  and "TypeOf e = 9 \<longleftrightarrow> (\<exists>x. e = SectorPacked x)"
  and "TypeOf e = 10 \<longleftrightarrow> (\<exists>x y. e = SectorTicket x y)"
  and "TypeOf e = 11 \<longleftrightarrow> e = SectorOldTicket"
  and "TypeOf e = 12 \<longleftrightarrow> (\<exists>x. e = SectorPreCommit1 x)"
  and "TypeOf e = 13 \<longleftrightarrow> (\<exists>x y. e = SectorPreCommit2 x y)"
  and "TypeOf e = 14 \<longleftrightarrow> (\<exists>x. e = SectorPreCommitLanded x)"
  and "TypeOf e = 15 \<longleftrightarrow> (\<exists>x. e = SectorSealPreCommit1Failed x)"
  and "TypeOf e = 16 \<longleftrightarrow> (\<exists>x. e = SectorSealPreCommit2Failed x)"
  and "TypeOf e = 17 \<longleftrightarrow> (\<exists>x. e = SectorChainPreCommitFailed x)"
  and "TypeOf e = 18 \<longleftrightarrow> (\<exists>x y. e = SectorPreCommitted x y)"
  and "TypeOf e = 19 \<longleftrightarrow> (\<exists>x y. e = SectorSeedReady x y)"
  and "TypeOf e = 20 \<longleftrightarrow> (\<exists>x. e = SectorComputeProofFailed x)"
  and "TypeOf e = 21 \<longleftrightarrow> (\<exists>x. e = SectorCommitFailed x)"
  and "TypeOf e = 22 \<longleftrightarrow> e = SectorRetrySubmitCommit"
  and "TypeOf e = 23 \<longleftrightarrow> (\<exists>x. e = SectorDealsExpired x)"
  and "TypeOf e = 24 \<longleftrightarrow> (\<exists>x. e = SectorTicketExpired x)"
  and "TypeOf e = 25 \<longleftrightarrow> (\<exists>x. e = SectorCommitted x)"
  and "TypeOf e = 26 \<longleftrightarrow> (\<exists>x. e = SectorCommitSubmitted x)"
  and "TypeOf e = 27 \<longleftrightarrow> e = SectorProving"
  and "TypeOf e = 28 \<longleftrightarrow> e = SectorFinalized"
  and "TypeOf e = 29 \<longleftrightarrow> e = SectorRetryFinalize"
  and "TypeOf e = 30 \<longleftrightarrow> (\<exists>x. e = SectorFinalizeFailed x)"
  and "TypeOf e = 31 \<longleftrightarrow> e = SectorRetrySealPreCommit1"
  and "TypeOf e = 32 \<longleftrightarrow> e = SectorRetrySealPreCommit2"
  and "TypeOf e = 33 \<longleftrightarrow> e = SectorRetryPreCommit"
  and "TypeOf e = 34 \<longleftrightarrow> e = SectorRetryWaitSeed"
  and "TypeOf e = 35 \<longleftrightarrow> e = SectorRetryPreCommitWait"
  and "TypeOf e = 36 \<longleftrightarrow> e = SectorRetryComputeProof"
  and "TypeOf e = 37 \<longleftrightarrow> e = SectorRetryInvalidProof"
  and "TypeOf e = 38 \<longleftrightarrow> e = SectorRetryCommitWait"
  and "TypeOf e = 39 \<longleftrightarrow> (\<exists>x. e = SectorInvalidDealIDs x)"
  and "TypeOf e = 40 \<longleftrightarrow> (\<exists>x. e = SectorUpdateDealIDs x)"
  and "TypeOf e = 41 \<longleftrightarrow> e = SectorFaulty"
  and "TypeOf e = 42 \<longleftrightarrow> (\<exists>x. e = SectorFaultReported x)"
  and "TypeOf e = 43 \<longleftrightarrow> e = SectorFaultedFinal"
  and "TypeOf e = 44 \<longleftrightarrow> e = SectorTerminate"
  and "TypeOf e = 45 \<longleftrightarrow> (\<exists>x. e = SectorTerminating x)"
  and "TypeOf e = 46 \<longleftrightarrow> (\<exists>x. e = SectorTerminated x)"
  and "TypeOf e = 47 \<longleftrightarrow> (\<exists>x. e = SectorTerminateFailed x)"
  and "TypeOf e = 48 \<longleftrightarrow> e = SectorRemove"
  and "TypeOf e = 49 \<longleftrightarrow> e = SectorRemoved"
  and "TypeOf e = 50 \<longleftrightarrow> (\<exists>x. e = SectorRemoveFailed x)"
  by (cases e; simp add: TypeOf_def; fail)+

lemma TypeOf_con [planner_simps]:
  "TypeOf SectorRestart = 0"
  "TypeOf (SectorFatalError x2) = Suc 0"
  "TypeOf (SectorForceState x3) = 2"
  "TypeOf (SectorStart x4 y4) = 3"
  "TypeOf (SectorStartCC x5 y5) = 4"
  "TypeOf SectorAddPiece = 5"
  "TypeOf (SectorPieceAdded x7) = 6"
  "TypeOf (SectorAddPieceFailed x8) = 7"
  "TypeOf SectorStartPacking = 8"
  "TypeOf (SectorPacked x10) = 9"
  "TypeOf (SectorTicket x11 y11) = 10"
  "TypeOf SectorOldTicket = 11"
  "TypeOf (SectorPreCommit1 x13) = 12"
  "TypeOf (SectorPreCommit2 x14 y14) = 13"
  "TypeOf (SectorPreCommitLanded x15) = 14"
  "TypeOf (SectorSealPreCommit1Failed x16) = 15"
  "TypeOf (SectorSealPreCommit2Failed x17) = 16"
  "TypeOf (SectorChainPreCommitFailed x18) = 17"
  "TypeOf (SectorPreCommitted x19 y19) = 18"
  "TypeOf (SectorSeedReady x20 y20) = 19"
  "TypeOf (SectorComputeProofFailed x21) = 20"
  "TypeOf (SectorCommitFailed x22) = 21"
  "TypeOf SectorRetrySubmitCommit = 22"
  "TypeOf (SectorDealsExpired x24) = 23"
  "TypeOf (SectorTicketExpired x25) = 24"
  "TypeOf (SectorCommitted x26) = 25"
  "TypeOf (SectorCommitSubmitted x27) = 26"
  "TypeOf SectorProving = 27"
  "TypeOf SectorFinalized = 28"
  "TypeOf SectorRetryFinalize = 29"
  "TypeOf (SectorFinalizeFailed x31) = 30"
  "TypeOf SectorRetrySealPreCommit1 = 31"
  "TypeOf SectorRetrySealPreCommit2 = 32"
  "TypeOf SectorRetryPreCommit = 33"
  "TypeOf SectorRetryWaitSeed = 34"
  "TypeOf SectorRetryPreCommitWait = 35"
  "TypeOf SectorRetryComputeProof = 36"
  "TypeOf SectorRetryInvalidProof = 37"
  "TypeOf SectorRetryCommitWait = 38"
  "TypeOf (SectorInvalidDealIDs x40) = 39"
  "TypeOf (SectorUpdateDealIDs x41) = 40"
  "TypeOf SectorFaulty = 41"
  "TypeOf (SectorFaultReported x43) = 42"
  "TypeOf SectorFaultedFinal = 43"
  "TypeOf SectorTerminate = 44"
  "TypeOf (SectorTerminating x46) = 45"
  "TypeOf (SectorTerminated x47) = 46"
  "TypeOf (SectorTerminateFailed x48) = 47"
  "TypeOf SectorRemove = 48"
  "TypeOf SectorRemoved = 49"
  "TypeOf (SectorRemoveFailed x51) = 50"
  by (simp_all add: TypeOf_def)

section \<open>What applying an event does\<close>

lemma apply_mut_con [planner_simps]:
  "apply_mut now SectorRestart si = None"
  "apply_mut now (SectorFatalError x2) si = None"
  "apply_mut now (SectorForceState x3) si = None"
  "apply_mut now (SectorStart x4 y4) si = Some (SectorStart_apply x4 y4 si)"
  "apply_mut now (SectorStartCC x5 y5) si = Some (SectorStartCC_apply x5 y5 si)"
  "apply_mut now SectorAddPiece si = Some (SectorAddPiece_apply now si)"
  "apply_mut now (SectorPieceAdded x7) si = Some (SectorPieceAdded_apply x7 si)"
  "apply_mut now (SectorAddPieceFailed x8) si = Some si"
  "apply_mut now SectorStartPacking si = Some si"
  "apply_mut now (SectorPacked x10) si = Some (SectorPacked_apply x10 si)"
  "apply_mut now (SectorTicket x11 y11) si = Some (SectorTicket_apply x11 y11 si)"
  "apply_mut now SectorOldTicket si = Some si"
  "apply_mut now (SectorPreCommit1 x13) si = Some (SectorPreCommit1_apply x13 si)"
  "apply_mut now (SectorPreCommit2 x14 y14) si = Some (SectorPreCommit2_apply x14 y14 si)"
  "apply_mut now (SectorPreCommitLanded x15) si = Some (SectorPreCommitLanded_apply x15 si)"
  "apply_mut now (SectorSealPreCommit1Failed x16) si = Some (SectorSealPreCommit1Failed_apply si)"
  "apply_mut now (SectorSealPreCommit2Failed x17) si = Some (SectorSealPreCommit2Failed_apply si)"
  "apply_mut now (SectorChainPreCommitFailed x18) si = Some si"
  "apply_mut now (SectorPreCommitted x19 y19) si = Some (SectorPreCommitted_apply x19 y19 si)"
  "apply_mut now (SectorSeedReady x20 y20) si = Some (SectorSeedReady_apply x20 y20 si)"
  "apply_mut now (SectorComputeProofFailed x21) si = Some si"
  "apply_mut now (SectorCommitFailed x22) si = Some si"
  "apply_mut now SectorRetrySubmitCommit si = Some si"
  "apply_mut now (SectorDealsExpired x24) si = Some si"
  "apply_mut now (SectorTicketExpired x25) si = Some si"
  "apply_mut now (SectorCommitted x26) si = Some (SectorCommitted_apply x26 si)"
  "apply_mut now (SectorCommitSubmitted x27) si = Some (SectorCommitSubmitted_apply x27 si)"
  "apply_mut now SectorProving si = Some si"
  "apply_mut now SectorFinalized si = Some si"
  "apply_mut now SectorRetryFinalize si = Some si"
  "apply_mut now (SectorFinalizeFailed x31) si = Some si"
  "apply_mut now SectorRetrySealPreCommit1 si = Some si"
  "apply_mut now SectorRetrySealPreCommit2 si = Some si"
  "apply_mut now SectorRetryPreCommit si = Some si"
  "apply_mut now SectorRetryWaitSeed si = Some si"
  "apply_mut now SectorRetryPreCommitWait si = Some si"
  "apply_mut now SectorRetryComputeProof si = Some (SectorRetryComputeProof_apply si)"
  "apply_mut now SectorRetryInvalidProof si = Some (SectorRetryInvalidProof_apply si)"
  "apply_mut now SectorRetryCommitWait si = Some si"
  "apply_mut now (SectorInvalidDealIDs x40) si = Some (SectorInvalidDealIDs_apply x40 si)"
  "apply_mut now (SectorUpdateDealIDs x41) si = SectorUpdateDealIDs_apply x41 si"
  "apply_mut now SectorFaulty si = Some si"
  "apply_mut now (SectorFaultReported x43) si = Some (SectorFaultReported_apply x43 si)"
  "apply_mut now SectorFaultedFinal si = None"
  "apply_mut now SectorTerminate si = None"
  "apply_mut now (SectorTerminating x46) si = Some (SectorTerminating_apply x46 si)"
  "apply_mut now (SectorTerminated x47) si = Some (SectorTerminated_apply x47 si)"
  "apply_mut now (SectorTerminateFailed x48) si = Some si"
  "apply_mut now SectorRemove si = None"
  "apply_mut now SectorRemoved si = Some si"
  "apply_mut now (SectorRemoveFailed x51) si = Some si"
  by (simp_all add: apply_mut_def is_mutator_def is_globalMutator_def)

lemma applyGlobal_None [planner_simps]: "applyGlobal e si = None \<longleftrightarrow> \<not> is_globalMutator e"
  by (cases e) (simp_all add: applyGlobal_def is_globalMutator_def)

lemma applyGlobal_Some [planner_simps]:
  "applyGlobal e si = Some (si', b) \<longleftrightarrow>
     (e = SectorRestart \<and> si' = si \<and> \<not> b) \<or>
     ((\<exists>x. e = SectorFatalError x) \<and> si' = si \<and> b) \<or>
     (\<exists>st. e = SectorForceState st \<and> si' = si\<lparr>State := st\<rparr> \<and> b) \<or>
     (e = SectorTerminate \<and> si' = si\<lparr>State := Terminating\<rparr> \<and> b) \<or>
     (e = SectorRemove \<and> si' = si\<lparr>State := Removing\<rparr> \<and> b)"
  by (cases e) (auto simp: applyGlobal_def)

lemma is_Ignorable_iff [planner_simps]: "is_Ignorable e \<longleftrightarrow> e = SectorStartPacking"
  by (cases e) (simp_all add: is_Ignorable_def)

lemma SectorPacked_apply_eq [planner_simps]:
  "SectorPacked_apply fs si =
    si\<lparr>Pieces := Pieces si @ map (\<lambda>f. \<lparr>p_Piece = f, p_DealInfo = None\<rparr>) fs\<rparr>"
  by (induction fs arbitrary: si) (simp_all add: SectorPacked_apply_def)

lemma SectorUpdateDealIDs_apply_Some [planner_simps]:
  "SectorUpdateDealIDs_apply us si = Some si' \<longleftrightarrow>
    (\<exists>ps. update_DealIDs us (Pieces si) = Some ps \<and> si' = si\<lparr>Pieces := ps\<rparr>)"
  by (auto simp: SectorUpdateDealIDs_apply_def)

end
