(* ===== verification/Sealing_Stats.thy ===== *)
theory Sealing_Stats
  imports Sealing_Types
begin

text \<open>
  \<^verbatim>\<open>extern/storage-sealing/stats.go\<close>: how many sectors are in each phase. The component keeps the
  phase of every sector and one \<open>uint64\<close> total per phase, and updates them together; the
  admission limits of the pipeline read the totals. The abstract contract is the locale
  \<open>phase_counter\<close>: a total is the number of sectors that are in the phase.
\<close>

section \<open>The code\<close>

text \<open>\<open>abi.SectorID\<close>: the miner's actor number and the sector number.\<close>

type_synonym SectorID = "u64 \<times> u64"

record SectorStats =
  bySector :: "SectorID \<rightharpoonup> statSectorState"
  totals :: "statSectorState \<Rightarrow> u64"

definition zero_SectorStats :: SectorStats where
  "zero_SectorStats = \<lparr>bySector = Map.empty, totals = (\<lambda>_. 0)\<rparr>"

definition updateSector :: "SectorID \<Rightarrow> SectorState \<Rightarrow> SectorStats \<Rightarrow> SectorStats" where
  "updateSector sid st ss =
    (let tot = (case bySector ss sid of
                  None \<Rightarrow> totals ss
                | Some oldst \<Rightarrow> (totals ss)(oldst := totals ss oldst - 1));
         sst = toStatState st
     in \<lparr>bySector = (bySector ss)(sid \<mapsto> sst), totals = tot(sst := tot sst + 1)\<rparr>)"

definition curSealing :: "SectorStats \<Rightarrow> u64" where
  "curSealing ss = totals ss sstStaging + totals ss sstSealing + totals ss sstFailed"

definition curStaging :: "SectorStats \<Rightarrow> u64" where
  "curStaging ss = totals ss sstStaging"

section \<open>The contract\<close>

text \<open>
  A counter over phases: \<open>phase s\<close> is the abstract map from sectors to phases, \<open>upd\<close> moves one
  sector, \<open>total\<close> reads a counter. The laws: counters start at zero, an update changes the map
  at one sector, and counters agree with the map.
\<close>

locale phase_counter =
  fixes init :: 's
    and upd :: "'k \<Rightarrow> 'p \<Rightarrow> 's \<Rightarrow> 's"
    and total :: "'s \<Rightarrow> 'p \<Rightarrow> u64"
    and phase :: "'s \<Rightarrow> 'k \<rightharpoonup> 'p"
    and good :: "'s \<Rightarrow> bool"
  assumes init_good: "good init"
    and init_phase: "phase init = Map.empty"
    and upd_good: "good s \<Longrightarrow> good (upd k p s)"
    and upd_phase: "phase (upd k p s) = (phase s)(k \<mapsto> p)"
    and total_card: "good s \<Longrightarrow> total s p = of_nat (card {k. phase s k = Some p})"
begin

lemma run_good_phase:
  "good (fold (\<lambda>(k, p). upd k p) ups s) \<and>
   phase (fold (\<lambda>(k, p). upd k p) ups s) = phase s ++ map_of (rev ups)"
  if "good s" for s
  using that
proof (induction ups arbitrary: s)
  case Nil
  then show ?case by simp
next
  case (Cons u ups)
  obtain k p where u: "u = (k, p)" by (cases u)
  have "phase s ++ map_of (rev ups @ [(k, p)]) = (phase s)(k \<mapsto> p) ++ map_of (rev ups)"
    by (auto simp: fun_eq_iff map_add_def split: option.splits)
  with Cons.IH [of "upd k p s"] Cons.prems show ?case
    by (simp add: u upd_good upd_phase fun_upd_def)
qed

text \<open>After any sequence of updates a total counts the sectors whose last update was that phase.\<close>

lemma total_run:
  "total (fold (\<lambda>(k, p). upd k p) ups init) p =
   of_nat (card {k. map_of (rev ups) k = Some p})"
  using run_good_phase [OF init_good, of ups] by (simp add: total_card init_phase)

end

section \<open>The code meets it\<close>

definition stats_inv :: "SectorStats \<Rightarrow> bool" where
  "stats_inv ss \<longleftrightarrow> finite (dom (bySector ss)) \<and>
    (\<forall>p. totals ss p = of_nat (card {k. bySector ss k = Some p}))"

definition stat_upd :: "SectorID \<Rightarrow> statSectorState \<Rightarrow> SectorStats \<Rightarrow> SectorStats" where
  "stat_upd sid sst ss =
    (let tot = (case bySector ss sid of
                  None \<Rightarrow> totals ss
                | Some oldst \<Rightarrow> (totals ss)(oldst := totals ss oldst - 1))
     in \<lparr>bySector = (bySector ss)(sid \<mapsto> sst), totals = tot(sst := tot sst + 1)\<rparr>)"

lemma updateSector_stat_upd: "updateSector sid st = stat_upd sid (toStatState st)"
  by (rule ext) (simp only: updateSector_def stat_upd_def Let_def)

lemma stat_upd_inv:
  assumes "stats_inv ss"
  shows "stats_inv (stat_upd sid sst ss)"
proof -
  let ?m = "bySector ss"
  from assms have fin: "finite (dom ?m)"
    and tot: "\<And>p. totals ss p = of_nat (card {k. ?m k = Some p})"
    by (auto simp: stats_inv_def)
  have others: "(case ?m sid of None \<Rightarrow> totals ss
      | Some oldst \<Rightarrow> (totals ss)(oldst := totals ss oldst - 1)) p
      = of_nat (card {k. k \<noteq> sid \<and> ?m k = Some p})" for p
    using card_preimage_split [OF fin, of p sid] tot [of p] by (auto split: option.splits)
  have "totals (stat_upd sid sst ss) p = of_nat (card {k. (?m(sid \<mapsto> sst)) k = Some p})" for p
    unfolding card_dom_upd_image [OF fin]
    by (auto simp: stat_upd_def Let_def others simp del: fun_upd_apply)
      (simp_all add: others)
  moreover have "bySector (stat_upd sid sst ss) = ?m(sid \<mapsto> sst)"
    by (simp add: stat_upd_def Let_def)
  ultimately show ?thesis using fin by (simp add: stats_inv_def del: fun_upd_apply)
qed

interpretation sector_stats: phase_counter zero_SectorStats stat_upd totals bySector stats_inv
proof unfold_locales
  show "stats_inv zero_SectorStats"
    by (simp add: stats_inv_def zero_SectorStats_def)
  show "bySector zero_SectorStats = Map.empty"
    by (simp add: zero_SectorStats_def)
  show "stats_inv s \<Longrightarrow> stats_inv (stat_upd k p s)" for s k p
    by (rule stat_upd_inv)
  show "bySector (stat_upd k p s) = (bySector s)(k \<mapsto> p)" for s k p
    by (simp add: stat_upd_def Let_def)
  show "stats_inv s \<Longrightarrow> totals s p = of_nat (card {k. bySector s k = Some p})" for s p
    by (simp add: stats_inv_def)
qed

section \<open>Property\<close>

lemma not_sstProving: "x \<noteq> sstProving \<longleftrightarrow> x = sstStaging \<or> x = sstSealing \<or> x = sstFailed"
  by (cases x) auto

lemma card_three_preimages:
  assumes "\<And>p. finite {k. f k = Some p}" and "a \<noteq> b" "a \<noteq> c" "b \<noteq> c"
  shows "card ({k. f k = Some a} \<union> {k. f k = Some b} \<union> {k. f k = Some c}) =
    card {k. f k = Some a} + card {k. f k = Some b} + card {k. f k = Some c}"
proof -
  have "({k. f k = Some a} \<union> {k. f k = Some b}) \<inter> {k. f k = Some c} = {}"
    and "{k. f k = Some a} \<inter> {k. f k = Some b} = {}"
    using assms by auto
  then show ?thesis using assms(1) by (simp only: card_Un_disjoint finite_UnI)
qed

lemma totals_updateSector_run:
  "totals (fold (\<lambda>(k, st). updateSector k st) ups zero_SectorStats) p =
   of_nat (card {k. map_option toStatState (map_of (rev ups) k) = Some p})"
proof -
  have "fold (\<lambda>(k, st). updateSector k st) ups zero_SectorStats =
      fold (\<lambda>(k, p). stat_upd k p) (map (\<lambda>(k, st). (k, toStatState st)) ups) zero_SectorStats"
    by (simp add: fold_map comp_def case_prod_unfold updateSector_stat_upd)
  moreover have "map_of (rev (map (\<lambda>(k, st). (k, toStatState st)) ups)) k =
      map_option toStatState (map_of (rev ups) k)" for k
    by (simp add: rev_map map_of_map)
  ultimately show ?thesis
    by (simp only: sector_stats.total_run)
qed

text \<open>
  C16. However the sectors moved between states, the number of sectors in the sealing pipeline
  that the admission limits read is exactly the number of sectors whose last recorded state is
  not a proving-phase one (staging, sealing and failed sectors count), and the number of staging
  sectors is the number whose last state is a staging one: no update is lost, counted twice or
  made to wrap below zero.
\<close>

theorem curSealing_counts:
  "curSealing (fold (\<lambda>(k, st). updateSector k st) ups zero_SectorStats) =
     of_nat (card {k. \<exists>st. map_of (rev ups) k = Some st \<and> toStatState st \<noteq> sstProving}) \<and>
   curStaging (fold (\<lambda>(k, st). updateSector k st) ups zero_SectorStats) =
     of_nat (card {k. \<exists>st. map_of (rev ups) k = Some st \<and> toStatState st = sstStaging})"
proof -
  let ?S = "\<lambda>p. {k. map_option toStatState (map_of (rev ups) k) = Some p}"
  have fin: "finite (?S p)" for p
    by (rule finite_subset [OF _ finite_dom_map_of [of "rev ups"]]) auto
  have e: "{k. \<exists>st. map_of (rev ups) k = Some st \<and> P (toStatState st)} =
      {k. \<exists>p. map_option toStatState (map_of (rev ups) k) = Some p \<and> P p}" for P
    by auto
  have u: "{k. \<exists>p. map_option toStatState (map_of (rev ups) k) = Some p \<and> p \<noteq> sstProving} =
      ?S sstStaging \<union> ?S sstSealing \<union> ?S sstFailed"
    unfolding not_sstProving by blast
  have c3: "card (?S sstStaging \<union> ?S sstSealing \<union> ?S sstFailed) =
      card (?S sstStaging) + card (?S sstSealing) + card (?S sstFailed)"
    by (rule card_three_preimages) (rule fin, simp_all)
  have st: "{k. \<exists>p. map_option toStatState (map_of (rev ups) k) = Some p \<and> p = sstStaging} = ?S sstStaging"
    by blast
  show ?thesis
    unfolding curSealing_def curStaging_def totals_updateSector_run
      e [of "\<lambda>p. p \<noteq> sstProving"] e [of "\<lambda>p. p = sstStaging"] u st c3
    by (simp only: of_nat_add simp_thms)
qed

end
