(* ===== verification/Sealing_FSM.thy ===== *)
theory Sealing_FSM
  imports Sealing_Events Sealing_Stats
begin

text \<open>
  \<^verbatim>\<open>extern/storage-sealing/fsm.go\<close>: the planner of every sector state, the planner table, the sector
  log and \<open>plan\<close>, which logs the pending events, runs the planner of the current state, updates
  the statistics and selects the handler to run next.

  A planner takes the pending events and the sector and returns the number of processed events,
  an error if any, and the sector (changed in place in Go, also when an error is returned);
  \<open>None\<close> is a panic.
\<close>

section \<open>Transitions\<close>

type_synonym trans = "event \<times> (SectorInfo \<Rightarrow> bool \<times> gerr option \<times> SectorInfo)"
type_synonym planner = "int \<Rightarrow> event list \<Rightarrow> SectorInfo \<Rightarrow> (nat \<times> gerr option \<times> SectorInfo) option"

definition on :: "event \<Rightarrow> SectorState \<Rightarrow> trans" where
  "on mut next = (mut, \<lambda>state. (False, None, state\<lparr>State := next\<rparr>))"

definition apply_tr :: "event \<Rightarrow> trans" where
  "apply_tr mut = (mut, \<lambda>state. (True, None, state))"

definition onReturning :: "event \<Rightarrow> trans" where
  "onReturning mut = (mut, \<lambda>state.
     if Return state = UndefinedSectorState then (False, Some ''return state not set'', state)
     else (False, None, state\<lparr>State := Return state, Return := UndefinedSectorState\<rparr>))"

section \<open>Planners\<close>

text \<open>The inner loop of \<open>planOne\<close> over the transitions: it returns, falls through, or panics.\<close>

datatype inner = Returned "gerr option" SectorInfo | FellThrough SectorInfo | Panicked

fun planOne_inner :: "int \<Rightarrow> trans list \<Rightarrow> event \<Rightarrow> SectorInfo \<Rightarrow> inner" where
  "planOne_inner now [] ev state = FellThrough state"
| "planOne_inner now ((mut, next) # ts) ev state =
    (if TypeOf ev \<noteq> TypeOf mut then planOne_inner now ts ev state
     else case apply_mut now ev state of
         None \<Rightarrow> Panicked
       | Some state1 \<Rightarrow>
           (case next state1 of (mr, err, state2) \<Rightarrow>
              if err \<noteq> None \<or> \<not> mr then Returned err state2
              else planOne_inner now ts ev state2))"

fun planOne_loop :: "trans list \<Rightarrow> nat \<Rightarrow> planner" where
  "planOne_loop ts i now [] state = Some (i, None, state)"
| "planOne_loop ts i now (ev # events) state =
    (case applyGlobal ev state of
       Some (state1, _) \<Rightarrow> Some (i + 1, None, state1)
     | None \<Rightarrow>
         (case planOne_inner now ts ev state of
            Panicked \<Rightarrow> None
          | Returned err state1 \<Rightarrow> Some (i + 1, err, state1)
          | FellThrough state1 \<Rightarrow>
              if is_Ignorable ev then planOne_loop ts (i + 1) now events state1
              else Some (i + 1, Some ''planner received unexpected event'', state1)))"

definition planOne :: "trans list \<Rightarrow> planner" where
  "planOne ts = planOne_loop ts 0"

definition final :: planner where
  "final now events state =
    (case events of
       [] \<Rightarrow> Some (0, Some ''did not expect any events'', state)
     | ev # _ \<Rightarrow>
         (case applyGlobal ev state of
            Some (state1, _) \<Rightarrow> Some (1, None, state1)
          | None \<Rightarrow> Some (0, Some ''did not expect any events'', state)))"

fun planCommitting_loop :: "nat \<Rightarrow> planner" where
  "planCommitting_loop i now [] state = Some (i, None, state)"
| "planCommitting_loop i now (ev # events) state =
    (case applyGlobal ev state of
       Some (state1, stop) \<Rightarrow>
         if stop then Some (i + 1, None, state1) else planCommitting_loop (i + 1) now events state1
     | None \<Rightarrow>
         (case ev of
            SectorCommitted p \<Rightarrow>
              planCommitting_loop (i + 1) now events ((SectorCommitted_apply p state)\<lparr>State := SubmitCommit\<rparr>)
          | SectorSeedReady v e \<Rightarrow>
              if e = SeedEpoch state \<and> v = SeedValue state
              then planCommitting_loop (i + 1) now events state
              else Some (i + 1, None, (SectorSeedReady_apply v e state)\<lparr>State := Committing\<rparr>)
          | SectorComputeProofFailed _ \<Rightarrow>
              planCommitting_loop (i + 1) now events (state\<lparr>State := ComputeProofFailed\<rparr>)
          | SectorSealPreCommit1Failed _ \<Rightarrow>
              planCommitting_loop (i + 1) now events (state\<lparr>State := SealPreCommit1Failed\<rparr>)
          | SectorCommitFailed _ \<Rightarrow>
              planCommitting_loop (i + 1) now events (state\<lparr>State := CommitFailed\<rparr>)
          | SectorRetryCommitWait \<Rightarrow>
              planCommitting_loop (i + 1) now events (state\<lparr>State := CommitWait\<rparr>)
          | _ \<Rightarrow> Some (i, Some ''planCommitting got event of unknown type'', state)))"

definition planCommitting :: planner where
  "planCommitting = planCommitting_loop 0"

section \<open>The planner table\<close>

definition zero_SectorPreCommitInfo :: SectorPreCommitInfo where
  "zero_SectorPreCommitInfo =
    \<lparr>pc_SealProof = 0, pc_SectorNumber = 0, pc_SealedCID = '''', pc_SealRandEpoch = 0, pc_DealIDs = []\<rparr>"

definition fsmPlanners :: "SectorState \<Rightarrow> planner option" where
  "fsmPlanners st = (case st of
      UndefinedSectorState \<Rightarrow> Some (planOne
        [on (SectorStart 0 0) WaitDeals,
         on (SectorStartCC 0 0) Packing])
    | Empty \<Rightarrow> Some (planOne
        [on SectorAddPiece AddPiece,
         on SectorStartPacking Packing])
    | WaitDeals \<Rightarrow> Some (planOne
        [on SectorAddPiece AddPiece,
         on SectorStartPacking Packing])
    | AddPiece \<Rightarrow> Some (planOne
        [on (SectorPieceAdded []) WaitDeals,
         apply_tr SectorStartPacking,
         on (SectorAddPieceFailed '''') AddPieceFailed])
    | Packing \<Rightarrow> Some (planOne [on (SectorPacked []) GetTicket])
    | GetTicket \<Rightarrow> Some (planOne
        [on (SectorTicket [] 0) PreCommit1,
         on (SectorCommitFailed '''') CommitFailed])
    | PreCommit1 \<Rightarrow> Some (planOne
        [on (SectorPreCommit1 []) PreCommit2,
         on (SectorSealPreCommit1Failed '''') SealPreCommit1Failed,
         on (SectorDealsExpired '''') DealsExpired,
         on (SectorInvalidDealIDs UndefinedSectorState) RecoverDealIDs,
         on SectorOldTicket GetTicket])
    | PreCommit2 \<Rightarrow> Some (planOne
        [on (SectorPreCommit2 '''' '''') PreCommitting,
         on (SectorSealPreCommit2Failed '''') SealPreCommit2Failed,
         on (SectorSealPreCommit1Failed '''') SealPreCommit1Failed])
    | PreCommitting \<Rightarrow> Some (planOne
        [on (SectorSealPreCommit1Failed '''') SealPreCommit1Failed,
         on (SectorPreCommitted '''' zero_SectorPreCommitInfo) PreCommitWait,
         on (SectorChainPreCommitFailed '''') PreCommitFailed,
         on (SectorPreCommitLanded []) WaitSeed,
         on (SectorDealsExpired '''') DealsExpired,
         on (SectorInvalidDealIDs UndefinedSectorState) RecoverDealIDs])
    | PreCommitWait \<Rightarrow> Some (planOne
        [on (SectorChainPreCommitFailed '''') PreCommitFailed,
         on (SectorPreCommitLanded []) WaitSeed,
         on SectorRetryPreCommit PreCommitting])
    | WaitSeed \<Rightarrow> Some (planOne
        [on (SectorSeedReady [] 0) Committing,
         on (SectorChainPreCommitFailed '''') PreCommitFailed])
    | Committing \<Rightarrow> Some planCommitting
    | SubmitCommit \<Rightarrow> Some (planOne
        [on (SectorCommitSubmitted '''') CommitWait,
         on (SectorCommitFailed '''') CommitFailed])
    | CommitWait \<Rightarrow> Some (planOne
        [on SectorProving FinalizeSector,
         on (SectorCommitFailed '''') CommitFailed,
         on SectorRetrySubmitCommit SubmitCommit])
    | FinalizeSector \<Rightarrow> Some (planOne
        [on SectorFinalized Proving,
         on (SectorFinalizeFailed '''') FinalizeFailed])
    | AddPieceFailed \<Rightarrow> Some (planOne [])
    | SealPreCommit1Failed \<Rightarrow> Some (planOne [on SectorRetrySealPreCommit1 PreCommit1])
    | SealPreCommit2Failed \<Rightarrow> Some (planOne
        [on SectorRetrySealPreCommit1 PreCommit1,
         on SectorRetrySealPreCommit2 PreCommit2])
    | PreCommitFailed \<Rightarrow> Some (planOne
        [on SectorRetryPreCommit PreCommitting,
         on SectorRetryPreCommitWait PreCommitWait,
         on SectorRetryWaitSeed WaitSeed,
         on (SectorSealPreCommit1Failed '''') SealPreCommit1Failed,
         on (SectorPreCommitLanded []) WaitSeed,
         on (SectorDealsExpired '''') DealsExpired,
         on (SectorInvalidDealIDs UndefinedSectorState) RecoverDealIDs])
    | ComputeProofFailed \<Rightarrow> Some (planOne
        [on SectorRetryComputeProof Committing,
         on (SectorSealPreCommit1Failed '''') SealPreCommit1Failed])
    | CommitFailed \<Rightarrow> Some (planOne
        [on (SectorSealPreCommit1Failed '''') SealPreCommit1Failed,
         on SectorRetryWaitSeed WaitSeed,
         on SectorRetryComputeProof Committing,
         on SectorRetryInvalidProof Committing,
         on SectorRetryPreCommitWait PreCommitWait,
         on (SectorChainPreCommitFailed '''') PreCommitFailed,
         on SectorRetryPreCommit PreCommitting,
         on SectorRetryCommitWait CommitWait,
         on SectorRetrySubmitCommit SubmitCommit,
         on (SectorDealsExpired '''') DealsExpired,
         on (SectorInvalidDealIDs UndefinedSectorState) RecoverDealIDs,
         on (SectorTicketExpired '''') Removing])
    | FinalizeFailed \<Rightarrow> Some (planOne [on SectorRetryFinalize FinalizeSector])
    | PackingFailed \<Rightarrow> Some (planOne [])
    | DealsExpired \<Rightarrow> Some (planOne [])
    | RecoverDealIDs \<Rightarrow> Some (planOne [onReturning (SectorUpdateDealIDs [])])
    | Proving \<Rightarrow> Some (planOne
        [on (SectorFaultReported '''') FaultReported,
         on SectorFaulty Faulty])
    | Terminating \<Rightarrow> Some (planOne
        [on (SectorTerminating None) TerminateWait,
         on (SectorTerminateFailed '''') TerminateFailed])
    | TerminateWait \<Rightarrow> Some (planOne
        [on (SectorTerminated 0) TerminateFinality,
         on (SectorTerminateFailed '''') TerminateFailed])
    | TerminateFinality \<Rightarrow> Some (planOne [on (SectorTerminateFailed '''') TerminateFailed])
    | TerminateFailed \<Rightarrow> Some (planOne [])
    | Removing \<Rightarrow> Some (planOne
        [on SectorRemoved Removed,
         on (SectorRemoveFailed '''') RemoveFailed])
    | RemoveFailed \<Rightarrow> Some (planOne [])
    | Faulty \<Rightarrow> Some (planOne [on (SectorFaultReported '''') FaultReported])
    | FaultReported \<Rightarrow> Some final
    | FaultedFinal \<Rightarrow> Some final
    | Removed \<Rightarrow> Some final
    | FailedUnrecoverable \<Rightarrow> Some final
    | OtherState _ \<Rightarrow> None)"

section \<open>The sector log\<close>

text \<open>
  What \<open>plan\<close> takes from outside: the clock, how events are rendered (\<open>json.Marshal\<close>, \<open>%T\<close>
  and \<open>%+v\<close>), the miner's actor number (\<open>address.IDFromAddress\<close>, which may fail) and whether
  a notifee is installed.
\<close>

record plan_env =
  env_now :: int
  env_marshal :: "event \<Rightarrow> gerr + string"
  env_kind :: "event \<Rightarrow> string"
  env_trace :: "event \<Rightarrow> string"
  env_minerID :: "u64 option"
  env_notifee :: bool

text \<open>The events that implement \<open>xerrors.Formatter\<close>.\<close>

definition is_Formatter :: "event \<Rightarrow> bool" where
  "is_Formatter e \<longleftrightarrow> (case e of
      SectorFatalError _ \<Rightarrow> True | SectorAddPieceFailed _ \<Rightarrow> True
    | SectorSealPreCommit1Failed _ \<Rightarrow> True | SectorSealPreCommit2Failed _ \<Rightarrow> True
    | SectorChainPreCommitFailed _ \<Rightarrow> True | SectorComputeProofFailed _ \<Rightarrow> True
    | SectorCommitFailed _ \<Rightarrow> True | SectorDealsExpired _ \<Rightarrow> True
    | SectorTicketExpired _ \<Rightarrow> True | SectorFinalizeFailed _ \<Rightarrow> True
    | SectorTerminateFailed _ \<Rightarrow> True | SectorRemoveFailed _ \<Rightarrow> True | _ \<Rightarrow> False)"

definition truncate_log :: "Log \<Rightarrow> Log list \<Rightarrow> Log list" where
  "truncate_log marker l =
    (if length l > 8000 then let l' = l[2000 := marker] in take 2000 l' @ drop 6000 l' else l)"

definition truncate_marker :: "plan_env \<Rightarrow> Log" where
  "truncate_marker env =
    \<lparr>Timestamp = word_of_int (env_now env), Trace = '''',
     Message = ''truncating log (above 8000 entries)'', Kind = ''truncate''\<rparr>"

definition log_entry :: "plan_env \<Rightarrow> event \<Rightarrow> string \<Rightarrow> Log" where
  "log_entry env ev e =
    \<lparr>Timestamp = word_of_int (env_now env),
     Trace = (if is_Formatter ev then env_trace env ev else ''''),
     Message = e, Kind = ''event;'' @ env_kind env ev\<rparr>"

fun logEvents :: "plan_env \<Rightarrow> event list \<Rightarrow> SectorInfo \<Rightarrow> SectorInfo" where
  "logEvents env [] state = state"
| "logEvents env (ev # events) state =
    (case env_marshal env ev of
       Inl _ \<Rightarrow> logEvents env events state
     | Inr e \<Rightarrow>
         if ev = SectorRestart then logEvents env events state
         else logEvents env events
           (state\<lparr>Logs := truncate_log (truncate_marker env) (Logs state) @ [log_entry env ev e]\<rparr>))"

section \<open>\<open>plan\<close>\<close>

datatype handler =
    do_handleWaitDeals | do_handleAddPiece | do_handlePacking | do_handleGetTicket | do_handlePreCommit1
  | do_handlePreCommit2 | do_handlePreCommitting | do_handlePreCommitWait | do_handleWaitSeed
  | do_handleCommitting | do_handleSubmitCommit | do_handleCommitWait | do_handleFinalizeSector
  | do_handleSealPrecommit1Failed | do_handleSealPrecommit2Failed | do_handlePreCommitFailed
  | do_handleComputeProofFailed | do_handleCommitFailed | do_handleFinalizeFailed | do_handleDealsExpired
  | do_handleRecoverDealIDs | do_handleProvingSector | do_handleTerminating | do_handleTerminateWait
  | do_handleTerminateFinality | do_handleTerminateFailed | do_handleRemoving | do_handleRemoveFailed
  | do_handleFaulty | do_handleFaultReported

text \<open>The final \<open>switch\<close>: the handler to run, and the sector (\<open>PackingFailed\<close> is rewritten).\<close>

definition select_handler :: "SectorInfo \<Rightarrow> handler option \<times> SectorInfo" where
  "select_handler state = (case State state of
      Empty \<Rightarrow> (Some do_handleWaitDeals, state)
    | WaitDeals \<Rightarrow> (Some do_handleWaitDeals, state)
    | AddPiece \<Rightarrow> (Some do_handleAddPiece, state)
    | Packing \<Rightarrow> (Some do_handlePacking, state)
    | GetTicket \<Rightarrow> (Some do_handleGetTicket, state)
    | PreCommit1 \<Rightarrow> (Some do_handlePreCommit1, state)
    | PreCommit2 \<Rightarrow> (Some do_handlePreCommit2, state)
    | PreCommitting \<Rightarrow> (Some do_handlePreCommitting, state)
    | PreCommitWait \<Rightarrow> (Some do_handlePreCommitWait, state)
    | WaitSeed \<Rightarrow> (Some do_handleWaitSeed, state)
    | Committing \<Rightarrow> (Some do_handleCommitting, state)
    | SubmitCommit \<Rightarrow> (Some do_handleSubmitCommit, state)
    | CommitWait \<Rightarrow> (Some do_handleCommitWait, state)
    | FinalizeSector \<Rightarrow> (Some do_handleFinalizeSector, state)
    | SealPreCommit1Failed \<Rightarrow> (Some do_handleSealPrecommit1Failed, state)
    | SealPreCommit2Failed \<Rightarrow> (Some do_handleSealPrecommit2Failed, state)
    | PreCommitFailed \<Rightarrow> (Some do_handlePreCommitFailed, state)
    | ComputeProofFailed \<Rightarrow> (Some do_handleComputeProofFailed, state)
    | CommitFailed \<Rightarrow> (Some do_handleCommitFailed, state)
    | FinalizeFailed \<Rightarrow> (Some do_handleFinalizeFailed, state)
    | PackingFailed \<Rightarrow> (Some do_handleDealsExpired, state\<lparr>State := DealsExpired\<rparr>)
    | DealsExpired \<Rightarrow> (Some do_handleDealsExpired, state)
    | RecoverDealIDs \<Rightarrow> (Some do_handleRecoverDealIDs, state)
    | Proving \<Rightarrow> (Some do_handleProvingSector, state)
    | Terminating \<Rightarrow> (Some do_handleTerminating, state)
    | TerminateWait \<Rightarrow> (Some do_handleTerminateWait, state)
    | TerminateFinality \<Rightarrow> (Some do_handleTerminateFinality, state)
    | TerminateFailed \<Rightarrow> (Some do_handleTerminateFailed, state)
    | Removing \<Rightarrow> (Some do_handleRemoving, state)
    | Removed \<Rightarrow> (None, state)
    | RemoveFailed \<Rightarrow> (Some do_handleRemoveFailed, state)
    | Faulty \<Rightarrow> (Some do_handleFaulty, state)
    | FaultReported \<Rightarrow> (Some do_handleFaultReported, state)
    | _ \<Rightarrow> (None, state))"

record plan_result =
  res_next :: "handler option"
  res_processed :: nat
  res_err :: "gerr option"
  res_sector :: SectorInfo
  res_stats :: SectorStats
  res_notified :: "(SectorInfo \<times> SectorInfo) option"

definition plan :: "plan_env \<Rightarrow> SectorStats \<Rightarrow> event list \<Rightarrow> SectorInfo \<Rightarrow> plan_result option" where
  "plan env stats events state0 =
    (let state = logEvents env events state0;
         notify = (\<lambda>after. if env_notifee env then Some (state, after) else None)
     in case fsmPlanners (State state) of
          None \<Rightarrow> Some \<lparr>res_next = None, res_processed = 0, res_err = Some ''planner for state not found'',
                      res_sector = state, res_stats = stats, res_notified = notify state\<rparr>
        | Some p \<Rightarrow>
            (case p (env_now env) events state of
               None \<Rightarrow> None
             | Some (processed, Some err, state1) \<Rightarrow>
                 Some \<lparr>res_next = None, res_processed = 0,
                       res_err = Some (Errorf ''running planner for state failed'' err),
                       res_sector = state1, res_stats = stats, res_notified = notify state1\<rparr>
             | Some (processed, None, state1) \<Rightarrow>
                 (case env_minerID env of
                    None \<Rightarrow> None
                  | Some mid \<Rightarrow>
                      (case select_handler state1 of (h, state2) \<Rightarrow>
                         Some \<lparr>res_next = h, res_processed = processed, res_err = None,
                               res_sector = state2,
                               res_stats = updateSector (mid, SectorNumber state1) (State state1) stats,
                               res_notified = notify state2\<rparr>))))"

lemmas planner_defs [planner_simps] =
  on_def apply_tr_def onReturning_def planOne_def planCommitting_def

section \<open>The log\<close>

lemma logEvents_frame:
  "logEvents env evs si = si\<lparr>Logs := Logs (logEvents env evs si)\<rparr>"
  by (induction env evs si rule: logEvents.induct) (auto split: sum.splits)

lemma logEvents_nonempty:
  assumes "ev \<noteq> SectorRestart" and "env_marshal env ev = Inr t"
  shows "Logs (logEvents env [ev] si) \<noteq> []"
  using assms by simp

lemma logEvents_keeps_nonempty: "Logs si \<noteq> [] \<Longrightarrow> Logs (logEvents env evs si) \<noteq> []"
  by (induction env evs si rule: logEvents.induct) (auto split: sum.splits)

text \<open>
  The entries that events add to the log, and what a log keeps of all entries ever added to it: the
  first 2000, and those after a multiple of 4000 further ones.
\<close>

definition log_entries :: "plan_env \<Rightarrow> event list \<Rightarrow> Log list" where
  "log_entries env evs = concat (map (\<lambda>ev.
     case env_marshal env ev of Inl _ \<Rightarrow> [] | Inr e \<Rightarrow> if ev = SectorRestart then [] else [log_entry env ev e]) evs)"

definition kept_entries :: "Log list \<Rightarrow> Log list" where
  "kept_entries l = take 2000 l @ drop (2000 + 4000 * ((length l - 4002) div 4000)) l"

lemma kept_all: "length l \<le> 8001 \<Longrightarrow> kept_entries l = l"
  by (simp add: kept_entries_def)

lemma length_kept:
  "length (kept_entries l) = (if length l < 4002 then length l else 4002 + (length l - 4002) mod 4000)"
proof (cases "length l < 4002")
  case False
  then obtain d where d: "length l = 4002 + d" by (metis le_add_diff_inverse not_less)
  have "4002 + d - 4000 * (d div 4000) = 4002 + d mod 4000"
    using mult_div_mod_eq [of 4000 d] by linarith
  then have "length (kept_entries l) = 4002 + d mod 4000" using d by (simp add: kept_entries_def)
  with d show ?thesis by simp
qed (simp add: kept_entries_def)

lemma kept_step: "truncate_log mk (kept_entries l) @ [x] = kept_entries (l @ [x])"
proof (cases "length l < 4002")
  case True
  then show ?thesis by (simp add: kept_all truncate_log_def)
next
  case False
  then obtain d where d: "length l = 4002 + d" by (metis le_add_diff_inverse not_less)
  define q where "q = d div 4000"
  have dq: "4000 * q + d mod 4000 \<le> d" by (simp add: q_def)
  have k: "kept_entries l = take 2000 l @ drop (2000 + 4000 * q) l" by (simp add: kept_entries_def d q_def)
  have k': "kept_entries (l @ [x]) = take 2000 l @ drop (2000 + 4000 * (Suc d div 4000)) (l @ [x])"
    by (simp add: kept_entries_def d)
  show ?thesis
  proof (cases "d mod 4000 = 3999")
    case True
    then have "Suc d div 4000 = Suc q" by (simp add: div_Suc mod_Suc q_def)
    moreover have "length (kept_entries l) = 8001" using True d by (simp add: length_kept)
    moreover have "4000 * q + 3999 \<le> d" using dq True by simp
    ultimately show ?thesis by (simp add: truncate_log_def k' Let_def) (simp add: k d)
  next
    case False
    then have "Suc d div 4000 = q" by (simp add: div_Suc mod_Suc q_def)
    moreover have "d mod 4000 < 4000" by simp
    then have "\<not> 8000 < length (kept_entries l)" using False d by (simp add: length_kept)
    moreover have "4000 * q \<le> d" using dq by simp
    ultimately show ?thesis by (simp add: truncate_log_def k') (simp add: k d)
  qed
qed

lemma logEvents_kept:
  "Logs si = kept_entries l \<Longrightarrow> Logs (logEvents env evs si) = kept_entries (l @ log_entries env evs)"
proof (induction evs arbitrary: si l)
  case (Cons ev evs)
  have "Logs (logEvents env evs (si\<lparr>Logs := truncate_log mk (Logs si) @ [x]\<rparr>)) =
      kept_entries ((l @ [x]) @ log_entries env evs)" for mk x
    by (rule Cons.IH) (simp add: Cons.prems kept_step)
  with Cons show ?case by (auto simp: log_entries_def split: sum.splits)
qed (simp add: log_entries_def)

text \<open>
  C18. What the log of a sector contains after any sequence of planned events. Every event but
  \<open>SectorRestart\<close> that can be marshalled adds one entry at the end. Up to 8001 entries all are kept. The
  entry that would be the 8002nd makes the log give up the 4000 entries after the first 2000, and so does
  every 4000th entry after it: the log always consists of the first 2000 entries and the newest ones, at most
  8001 together. No other field of the sector changes.
\<close>

theorem logEvents_keeps:
  assumes "length (Logs si) \<le> 8001" and "all = Logs si @ log_entries env evs"
  shows "Logs (logEvents env evs si) = take 2000 all @ drop (2000 + 4000 * ((length all - 4002) div 4000)) all \<and>
    length (Logs (logEvents env evs si)) \<le> 8001 \<and>
    logEvents env evs si = si\<lparr>Logs := Logs (logEvents env evs si)\<rparr>"
proof -
  have k: "Logs (logEvents env evs si) = kept_entries all"
    using logEvents_kept [of si "Logs si"] assms by (simp add: kept_all)
  define m where "m = (length all - 4002) mod 4000"
  then have "m < 4000" by simp
  then have "length (kept_entries all) \<le> 8001" unfolding length_kept m_def [symmetric] by auto
  with k show ?thesis using logEvents_frame unfolding kept_entries_def by metis
qed

theorem logEvents_keeps_witness:
  "\<exists>env si. length (Logs si) = 8001 \<and> length (log_entries env [SectorStartPacking]) = 1 \<and>
    length (Logs (logEvents env [SectorStartPacking] si)) = 4002"
proof -
  define env where "env = \<lparr>env_now = 5, env_marshal = (\<lambda>_. Inr ''{}''), env_kind = (\<lambda>_. ''T''),
      env_trace = (\<lambda>_. ''''), env_minerID = Some 1, env_notifee = False\<rparr>"
  define si where "si = zero_SectorInfo\<lparr>Logs := replicate 8001 \<lparr>Timestamp = 0, Trace = '''', Message = '''', Kind = ''''\<rparr>\<rparr>"
  define l where "l = Logs si @ log_entries env [SectorStartPacking]"
  have s: "length (Logs si) = 8001" by (simp add: si_def)
  have e: "length (log_entries env [SectorStartPacking]) = 1" by (simp add: log_entries_def env_def)
  have "Logs (logEvents env [SectorStartPacking] si) = take 2000 l @ drop (2000 + 4000 * ((length l - 4002) div 4000)) l"
    by (rule conjunct1 [OF logEvents_keeps [OF _ l_def]]) (simp add: s)
  moreover have "length l = 8002" using s e by (simp add: l_def)
  ultimately have "length (Logs (logEvents env [SectorStartPacking] si)) = 4002"
    by (simp only: length_append length_take length_drop) simp
  with s e show ?thesis by blast
qed



section \<open>How planners consume events\<close>

lemma planOne_loop_consumes:
  "planOne_loop ts i now events si = Some (n, err, si') \<Longrightarrow>
    i \<le> n \<and> n \<le> i + length events \<and> (events \<noteq> [] \<longrightarrow> i < n) \<and>
    (\<forall>ev \<in> set (take (n - 1 - i) events). is_Ignorable ev)"
proof (induction ts i now events si rule: planOne_loop.induct)
  case (2 ts i now ev events si)
  show ?case
  proof (cases "applyGlobal ev si = None \<and> (\<exists>s1. planOne_inner now ts ev si = FellThrough s1) \<and> is_Ignorable ev")
    case True
    then obtain s1 where s1: "planOne_inner now ts ev si = FellThrough s1" by blast
    with True "2.prems" have "planOne_loop ts (i + 1) now events s1 = Some (n, err, si')" by simp
    with True s1 "2.IH" [of s1]
    have IH: "i + 1 \<le> n" "n \<le> i + 1 + length events"
      "\<forall>ev \<in> set (take (n - 1 - (i + 1)) events). is_Ignorable ev" by auto
    then consider "n - 1 - i = 0" | "n - 1 - i = Suc (n - 1 - (i + 1))" by arith
    then show ?thesis using True IH by cases auto
  next
    case False
    with "2.prems" have "n = i + 1"
      by (auto split: option.splits inner.splits if_splits)
    then show ?thesis by simp
  qed
qed simp

lemma planCommitting_loop_step:
  assumes "planCommitting_loop i now (ev # events) si = Some (n, None, si')"
  shows "n = i + 1 \<or> (\<exists>s1. planCommitting_loop (i + 1) now events s1 = Some (n, None, si'))"
  using assms by (cases ev) (auto simp: applyGlobal_def split: if_splits)

lemma planCommitting_loop_consumes:
  "planCommitting_loop i now events si = Some (n, None, si') \<Longrightarrow>
    i \<le> n \<and> n \<le> i + length events \<and> (events \<noteq> [] \<longrightarrow> i < n)"
proof (induction events arbitrary: i si)
  case (Cons ev events)
  from planCommitting_loop_step [OF Cons.prems] Cons.IH show ?case by fastforce
qed simp

lemma final_consumes:
  "final now events si = Some (n, None, si') \<Longrightarrow> n \<le> length events \<and> (events \<noteq> [] \<longrightarrow> 0 < n)"
  by (auto simp: final_def split: list.splits option.splits)

lemma fsmPlanners_cases:
  assumes "fsmPlanners st = Some p"
  obtains ts where "p = planOne ts" | "st = Committing" "p = planCommitting" | "p = final"
  using assms by (cases st) (auto simp: fsmPlanners_def)

text \<open>
  C17. Planning makes progress and skips nothing of substance: when \<open>plan\<close> succeeds on pending
  events it consumes at least one and at most all of them, and outside the \<open>Committing\<close> state
  and the final states every consumed event but the last is a \<open>SectorStartPacking\<close>, the only
  event a planner may ignore.
\<close>

theorem plan_consumes:
  assumes "plan env stats events si = Some r" and "res_err r = None" and "events \<noteq> []"
  shows "0 < res_processed r \<and> res_processed r \<le> length events \<and>
    (State si \<noteq> Committing \<longrightarrow>
      (\<forall>ev \<in> set (take (res_processed r - 1) events). ev = SectorStartPacking))"
proof -
  let ?si = "logEvents env events si"
  have st: "State ?si = State si" by (subst logEvents_frame) simp
  from assms(1,2) obtain p n si1 where p: "fsmPlanners (State si) = Some p"
    and run: "p (env_now env) events ?si = Some (n, None, si1)" and n: "res_processed r = n"
    by (auto simp: plan_def Let_def st split: option.splits prod.splits)
  from p show ?thesis
  proof (cases rule: fsmPlanners_cases)
    case (1 ts)
    with run have "planOne_loop ts 0 (env_now env) events ?si = Some (n, None, si1)"
      by (simp add: planOne_def)
    from planOne_loop_consumes [OF this] assms(3) n show ?thesis
      by (auto simp: is_Ignorable_iff)
  next
    case 2
    then show ?thesis
      using planCommitting_loop_consumes [of 0 "env_now env" events ?si n si1] run n assms(3)
      by (simp add: planCommitting_def)
  next
    case 3
    from run 3 have "n = 1" by (auto simp: final_def split: list.splits option.splits)
    with n assms(3) show ?thesis by (cases events) auto
  qed
qed

text \<open>An environment in which every event can be marshalled, used by the witnesses.\<close>

definition sample_env :: plan_env where
  "sample_env = \<lparr>env_now = 5, env_marshal = (\<lambda>_. Inr ''{}''), env_kind = (\<lambda>_. ''T''),
     env_trace = (\<lambda>_. ''''), env_minerID = Some 1, env_notifee = False\<rparr>"

theorem plan_consumes_witness:
  "case plan sample_env zero_SectorStats [SectorStart 7 3] zero_SectorInfo of
     None \<Rightarrow> False
   | Some r \<Rightarrow> res_err r = None \<and> State (res_sector r) = WaitDeals \<and> res_processed r = 1"
proof -
  let ?p = "plan sample_env zero_SectorStats [SectorStart 7 3] zero_SectorInfo"
  obtain r where r: "?p = Some r" "res_err r = None" "State (res_sector r) = WaitDeals"
    by (simp add: plan_def fsmPlanners_def sample_env_def zero_SectorInfo_def planner_simps
        applyGlobal_def select_handler_def is_Formatter_def)
  from plan_consumes [OF r(1,2)] have "res_processed r = 1" by simp
  with r show ?thesis by simp
qed

end
