(* ===== verification/Sealing_Checks.thy ===== *)
theory Sealing_Checks
  imports Sealing_Types
begin

text \<open>
  The world a sector handler sees, and the checks of \<^verbatim>\<open>extern/storage-sealing/checks.go\<close> and
  \<^verbatim>\<open>currentdealinfo.go\<close> over it.

  The node API, the proof system (\<open>sealer\<close>, \<open>verif\<close>), CBOR encoding, the piece-size and
  sector-size functions, the policy constants of the actors package and the address selector are
  not part of the sealing package: they are the fields of the record \<open>world\<close>, and every
  definition takes the world as an argument. A handler that consults the chain several times
  takes one world per consultation, so the chain may change in between.
\<close>

section \<open>The world\<close>

text \<open>
  \<open>ErrSectorAllocated\<close> is a sentinel value compared by identity, hence a constructor.
\<close>

datatype api_err = ErrSectorAllocated | ApiErr gerr

record SectorPreCommitOnChainInfo =
  oc_Info :: SectorPreCommitInfo
  oc_PreCommitEpoch :: epoch

record SealVerifyInfo =
  sv_SectorID :: "u64 \<times> u64"
  sv_SealedCID :: cid
  sv_SealProof :: int
  sv_Proof :: bytes
  sv_Randomness :: bytes
  sv_InteractiveRandomness :: bytes
  sv_UnsealedCID :: cid

record Config =
  MaxWaitDealsSectors :: u64
  MaxSealingSectors :: u64
  MaxSealingSectorsForDeals :: u64
  WaitDealsDelay :: int
  AlwaysKeepUnsealedCopy :: bool

text \<open>The sector sizes the proof types are named after.\<close>

datatype size_class = S2KiB | S8MiB | S512MiB | S32GiB | S64GiB

record world =
  now :: int
  cancelled :: bool
  minerID :: "address \<Rightarrow> u64 option"
  ChainHead :: "gerr + bytes \<times> epoch"
  StateWaitMsg :: "cid \<Rightarrow> gerr + MsgLookup"
  StateSearchMsgLimited :: "cid \<Rightarrow> epoch \<Rightarrow> gerr + MsgLookup option"
  StateComputeDataCommitment :: "address \<Rightarrow> int \<Rightarrow> u64 list \<Rightarrow> bytes \<Rightarrow> gerr + cid"
  StateSectorPreCommitInfo :: "address \<Rightarrow> u64 \<Rightarrow> bytes \<Rightarrow> api_err + SectorPreCommitOnChainInfo option"
  StateSectorGetInfo :: "address \<Rightarrow> u64 \<Rightarrow> bytes \<Rightarrow> gerr + bytes option"
  StateMinerInfo :: "address \<Rightarrow> bytes \<Rightarrow> gerr + bytes"
  StateMinerSectorAllocated :: "address \<Rightarrow> u64 \<Rightarrow> bytes \<Rightarrow> bool \<times> gerr option"
  StateMarketStorageDealProposal :: "u64 \<Rightarrow> bytes \<Rightarrow> gerr + DealProposal"
  StateMarketStorageDeal :: "u64 \<Rightarrow> bytes \<Rightarrow> gerr + DealProposal"
  StateLookupID :: "address \<Rightarrow> bytes \<Rightarrow> gerr + address"
  StateNetworkVersion :: "bytes \<Rightarrow> gerr + int"
  ChainGetMessage :: "cid \<Rightarrow> gerr + bytes"
  RandomnessFromBeacon :: "bytes \<Rightarrow> epoch \<Rightarrow> bytes \<Rightarrow> gerr + bytes"
  RandomnessFromTickets :: "bytes \<Rightarrow> epoch \<Rightarrow> bytes \<Rightarrow> gerr + bytes"
  SendMsg :: "address \<Rightarrow> address \<Rightarrow> string \<Rightarrow> int \<Rightarrow> int \<Rightarrow> bytes \<Rightarrow> gerr + cid"
  addrSel :: "bytes \<Rightarrow> string \<Rightarrow> int \<Rightarrow> int \<Rightarrow> gerr + address"
  AddTermination :: "u64 \<times> u64 \<Rightarrow> gerr + cid \<times> bool"
  getConfig :: "gerr + Config"
  MarshalAddr :: "address \<Rightarrow> gerr + bytes"
  MarshalPreCommit :: "SectorPreCommitInfo \<Rightarrow> gerr + bytes"
  MarshalProveCommit :: "u64 \<Rightarrow> bytes \<Rightarrow> gerr + bytes"
  UnmarshalPublishReturn :: "bytes \<Rightarrow> gerr + u64 list"
  UnmarshalPublishParams :: "bytes \<Rightarrow> gerr + DealProposal list"
  SealerAddPiece :: "int option \<Rightarrow> (u64 \<times> u64) \<times> int \<Rightarrow> u64 list \<Rightarrow> u64 \<Rightarrow> gerr + PieceInfo"
  SealPreCommit1 :: "int option \<Rightarrow> (u64 \<times> u64) \<times> int \<Rightarrow> bytes \<Rightarrow> PieceInfo list \<Rightarrow> gerr + bytes"
  SealPreCommit2 :: "int option \<Rightarrow> (u64 \<times> u64) \<times> int \<Rightarrow> bytes \<Rightarrow> gerr + cid \<times> cid"
  SealCommit1 :: "int option \<Rightarrow> (u64 \<times> u64) \<times> int \<Rightarrow> bytes \<Rightarrow> bytes \<Rightarrow> PieceInfo list \<Rightarrow> cid \<times> cid \<Rightarrow> gerr + bytes"
  SealCommit2 :: "int option \<Rightarrow> (u64 \<times> u64) \<times> int \<Rightarrow> bytes \<Rightarrow> gerr + bytes"
  SealerFinalize :: "int option \<Rightarrow> (u64 \<times> u64) \<times> int \<Rightarrow> Range list \<Rightarrow> gerr option"
  SealerReleaseUnsealed :: "(u64 \<times> u64) \<times> int \<Rightarrow> Range list \<Rightarrow> gerr option"
  SealerRemove :: "(u64 \<times> u64) \<times> int \<Rightarrow> gerr option"
  VerifySeal :: "SealVerifyInfo \<Rightarrow> gerr + bool"
  Unpadded :: "u64 \<Rightarrow> u64"
  SectorSize :: "int \<Rightarrow> gerr + u64"
  ZeroPieceCommitment :: "u64 \<Rightarrow> cid"
  exit_Ok :: int
  exit_SysErrInsufficientFunds :: int
  exit_SysErrOutOfGas :: int
  SealRandomnessLookback :: epoch
  MaxPreCommitRandomnessLookback :: epoch
  PreCommitChallengeDelay :: epoch
  WinningPoStSectorSetLookback :: "int \<Rightarrow> epoch"
  StorageMsgSearchLimit :: epoch
  MaxPreCommitGasFee :: int
  MaxCommitGasFee :: int
  Padded :: "u64 \<Rightarrow> u64"
  PaddedSize :: "u64 \<Rightarrow> u64"
  ProposalCid :: "DealInfo \<Rightarrow> gerr + cid"
  NextSectorNumber :: "gerr + u64"
  NewSector :: "(u64 \<times> u64) \<times> int \<Rightarrow> gerr option"
  SendEvent :: "nat \<Rightarrow> u64 \<Rightarrow> gerr option"
  WindowPoStProofType :: "bytes \<Rightarrow> int"
  WindowPoStV1 :: "size_class \<Rightarrow> int"
  SealV1_1 :: "size_class \<Rightarrow> int"

text \<open>\<open>minerSectorID\<close> panics when the miner address is no ID address.\<close>

definition minerSectorID :: "world \<Rightarrow> address \<Rightarrow> u64 \<Rightarrow> (u64 \<times> u64) option" where
  "minerSectorID w maddr num = map_option (\<lambda>mid. (mid, num)) (minerID w maddr)"

definition minerSector :: "world \<Rightarrow> address \<Rightarrow> int \<Rightarrow> u64 \<Rightarrow> ((u64 \<times> u64) \<times> int) option" where
  "minerSector w maddr spt num = map_option (\<lambda>sid. (sid, spt)) (minerSectorID w maddr num)"

section \<open>\<open>checks.go\<close>\<close>

text \<open>The error types of the checks; \<open>PlainErr\<close> is an error of no such type.\<close>

datatype check_err =
    ErrApi gerr | ErrInvalidDeals gerr | ErrInvalidPiece gerr | ErrExpiredDeals gerr
  | ErrBadCommD gerr | ErrExpiredTicket gerr | ErrBadTicket gerr | ErrPrecommitOnChain gerr
  | ErrSectorNumberAllocated gerr | ErrBadSeed gerr | ErrInvalidProof gerr | ErrNoPrecommit gerr
  | ErrCommitWaitFailed gerr | PlainErr gerr

text \<open>Results of a check that may dereference nil: \<open>CPanic\<close>.\<close>

datatype check_res = COk | CErr check_err | CPanic

fun checkPieces_loop :: "world \<Rightarrow> address \<Rightarrow> bytes \<Rightarrow> epoch \<Rightarrow> Piece list \<Rightarrow> check_err option" where
  "checkPieces_loop w maddr tok height [] = None"
| "checkPieces_loop w maddr tok height (p # ps) =
    (case p_DealInfo p of
       None \<Rightarrow>
         if PieceCID (p_Piece p) \<noteq> ZeroPieceCommitment w (Unpadded w (Size (p_Piece p)))
         then Some (ErrInvalidPiece ''piece had non-zero PieceCID'')
         else checkPieces_loop w maddr tok height ps
     | Some d \<Rightarrow>
         (case StateMarketStorageDealProposal w (DealID d) tok of
            Inl e \<Rightarrow> Some (ErrInvalidDeals (Errorf ''getting deal for piece'' e))
          | Inr proposal \<Rightarrow>
              if dp_Provider proposal \<noteq> maddr then Some (ErrInvalidDeals ''wrong provider'')
              else if dp_PieceCID proposal \<noteq> PieceCID (p_Piece p) then Some (ErrInvalidDeals ''wrong PieceCID'')
              else if Size (p_Piece p) \<noteq> dp_PieceSize proposal then Some (ErrInvalidDeals ''different size'')
              else if height \<ge> dp_StartEpoch proposal then Some (ErrExpiredDeals ''expired deal'')
              else checkPieces_loop w maddr tok height ps))"

definition checkPieces :: "world \<Rightarrow> address \<Rightarrow> SectorInfo \<Rightarrow> check_err option" where
  "checkPieces w maddr si =
    (case ChainHead w of
       Inl e \<Rightarrow> Some (ErrApi (Errorf ''getting chain head'' e))
     | Inr (tok, height) \<Rightarrow> checkPieces_loop w maddr tok height (Pieces si))"

definition checkPrecommit :: "world \<Rightarrow> address \<Rightarrow> SectorInfo \<Rightarrow> bytes \<Rightarrow> epoch \<Rightarrow> check_err option" where
  "checkPrecommit w maddr si tok height =
    (case checkPieces w maddr si of
       Some e \<Rightarrow> Some e
     | None \<Rightarrow>
         (case StateComputeDataCommitment w maddr (SectorType si) (dealIDs si) tok of
            Inl e \<Rightarrow> Some (ErrApi (Errorf ''calling StateComputeDataCommitment'' e))
          | Inr commD \<Rightarrow>
              if CommD si \<noteq> Some commD then Some (ErrBadCommD ''on chain CommD differs from sector'')
              else if TicketEpoch si < height - MaxPreCommitRandomnessLookback w
              then Some (ErrExpiredTicket ''ticket expired'')
              else (case StateSectorPreCommitInfo w maddr (SectorNumber si) tok of
                      Inl ErrSectorAllocated \<Rightarrow> Some (ErrSectorNumberAllocated ''sector number allocated'')
                    | Inl (ApiErr e) \<Rightarrow> Some (ErrApi (Errorf ''getting precommit info'' e))
                    | Inr (Some pci) \<Rightarrow>
                        if pc_SealRandEpoch (oc_Info pci) \<noteq> TicketEpoch si
                        then Some (ErrBadTicket ''bad ticket epoch'')
                        else Some (ErrPrecommitOnChain ''precommit already on chain'')
                    | Inr None \<Rightarrow> None)))"

text \<open>
  \<open>checkCommit\<close> dereferences \<open>si.CommR\<close> and \<open>si.CommD\<close> and asks for the sector id.
\<close>

definition checkCommit :: "world \<Rightarrow> address \<Rightarrow> SectorInfo \<Rightarrow> bytes \<Rightarrow> bytes \<Rightarrow> check_res" where
  "checkCommit w maddr si prf tok =
    (if SeedEpoch si = 0 then CErr (ErrBadSeed ''seed epoch was not set'')
     else case StateSectorPreCommitInfo w maddr (SectorNumber si) tok of
         Inl ErrSectorAllocated \<Rightarrow>
           if CommitMessage si \<noteq> None then CErr (ErrCommitWaitFailed ''sector number allocated'')
           else CErr (PlainErr ''sector number allocated'')
       | Inl (ApiErr e) \<Rightarrow> CErr (PlainErr (Errorf ''getting precommit info'' e))
       | Inr None \<Rightarrow> CErr (ErrNoPrecommit ''precommit info not found on-chain'')
       | Inr (Some pci) \<Rightarrow>
           if oc_PreCommitEpoch pci + PreCommitChallengeDelay w \<noteq> SeedEpoch si
           then CErr (ErrBadSeed ''seed epoch does not match on chain info'')
           else (case MarshalAddr w maddr of
             Inl e \<Rightarrow> CErr (PlainErr e)
           | Inr buf \<Rightarrow>
               (case RandomnessFromBeacon w tok (SeedEpoch si) buf of
                  Inl e \<Rightarrow> CErr (ErrApi (Errorf ''failed to get randomness for computing seal proof'' e))
                | Inr seed \<Rightarrow>
                    if seed \<noteq> SeedValue si then CErr (ErrBadSeed ''seed has changed'')
                    else (case (CommR si, minerSectorID w maddr (SectorNumber si), CommD si) of
                        (Some commr, Some sid, Some commd) \<Rightarrow>
                          (case VerifySeal w \<lparr>sv_SectorID = sid, sv_SealedCID = pc_SealedCID (oc_Info pci),
                                sv_SealProof = pc_SealProof (oc_Info pci), sv_Proof = prf,
                                sv_Randomness = TicketValue si, sv_InteractiveRandomness = SeedValue si,
                                sv_UnsealedCID = commd\<rparr> of
                             Inl e \<Rightarrow> CErr (ErrInvalidProof (Errorf ''verify seal'' e))
                           | Inr ok \<Rightarrow>
                               if \<not> ok then CErr (ErrInvalidProof ''invalid proof (compute error?)'')
                               else (case checkPieces w maddr si of None \<Rightarrow> COk | Some e \<Rightarrow> CErr e))
                      | _ \<Rightarrow> CPanic))))"

section \<open>\<open>currentdealinfo.go\<close>\<close>

definition CheckDealEquality :: "world \<Rightarrow> bytes \<Rightarrow> DealProposal \<Rightarrow> DealProposal \<Rightarrow> gerr + bool" where
  "CheckDealEquality w tok p1 p2 =
    (case StateLookupID w (dp_Client p1) tok of
       Inl e \<Rightarrow> Inl e
     | Inr p1ClientID \<Rightarrow>
         (case StateLookupID w (dp_Client p2) tok of
            Inl e \<Rightarrow> Inl e
          | Inr p2ClientID \<Rightarrow>
              Inr (dp_PieceCID p1 = dp_PieceCID p2 \<and> dp_PieceSize p1 = dp_PieceSize p2 \<and>
                   dp_Label p1 = dp_Label p2 \<and> dp_StartEpoch p1 = dp_StartEpoch p2 \<and>
                   dp_Provider p1 = dp_Provider p2 \<and> p1ClientID = p2ClientID)))"

text \<open>The scan for the index of the target proposal: \<open>Inr None\<close> is \<open>dealIdx = -1\<close>.\<close>

fun find_deal :: "world \<Rightarrow> bytes \<Rightarrow> DealProposal \<Rightarrow> nat \<Rightarrow> DealProposal list \<Rightarrow> gerr + nat option" where
  "find_deal w tok p i [] = Inr None"
| "find_deal w tok p i (d # ds) =
    (case CheckDealEquality w tok p d of
       Inl e \<Rightarrow> Inl (Errorf ''comparing publish deal message'' e)
     | Inr eq \<Rightarrow> if eq then Inr (Some i) else find_deal w tok p (i + 1) ds)"

text \<open>\<open>retval.IDs[0]\<close> of an empty return value panics: \<open>None\<close>.\<close>

definition dealIDFromPublishDealsMsg ::
  "world \<Rightarrow> bytes \<Rightarrow> DealProposal option \<Rightarrow> cid \<Rightarrow> (gerr + u64 \<times> bytes) option" where
  "dealIDFromPublishDealsMsg w tok proposal publishCid =
    (case StateSearchMsgLimited w publishCid (StorageMsgSearchLimit w) of
       Inl e \<Rightarrow> Some (Inl (Errorf ''looking for publish deal message: search msg failed'' e))
     | Inr None \<Rightarrow> Some (Inl ''publish deal message not found'')
     | Inr (Some lookup) \<Rightarrow>
         if ExitCode (Receipt lookup) \<noteq> exit_Ok w then Some (Inl ''looking for publish deal message: non-ok exit code'')
         else (case UnmarshalPublishReturn w (mr_Return (Receipt lookup)) of
             Inl e \<Rightarrow> Some (Inl (Errorf ''unmarshalling message return'' e))
           | Inr IDs \<Rightarrow>
               (case proposal of
                  None \<Rightarrow>
                    if length IDs > 1
                    then Some (Inl ''no deal proposal supplied but message return value has more than one deal'')
                    else (case IDs of [] \<Rightarrow> None | i # _ \<Rightarrow> Some (Inr (i, TipSetTok lookup)))
                | Some p \<Rightarrow>
                    (case ChainGetMessage w publishCid of
                       Inl e \<Rightarrow> Some (Inl (Errorf ''getting publish deal message'' e))
                     | Inr params \<Rightarrow>
                         (case UnmarshalPublishParams w params of
                            Inl e \<Rightarrow> Some (Inl (Errorf ''unmarshalling publish deal message params'' e))
                          | Inr deals \<Rightarrow>
                              (case find_deal w tok p 0 deals of
                                 Inl e \<Rightarrow> Some (Inl e)
                               | Inr None \<Rightarrow> Some (Inl ''could not find deal in publish deals message'')
                               | Inr (Some dealIdx) \<Rightarrow>
                                   if dealIdx \<ge> length IDs then Some (Inl ''deal index out of bounds of deals'')
                                   else Some (Inr (IDs ! dealIdx, TipSetTok lookup))))))))"

text \<open>
  \<open>GetCurrentDealInfo\<close>: the deal id and whether an error is returned with it. When the deal
  state lookup fails, the id found is returned together with that error.
\<close>

definition GetCurrentDealInfo ::
  "world \<Rightarrow> bytes \<Rightarrow> DealProposal option \<Rightarrow> cid \<Rightarrow> (u64 \<times> gerr option) option" where
  "GetCurrentDealInfo w tok proposal publishCid =
    (case dealIDFromPublishDealsMsg w tok proposal publishCid of
       None \<Rightarrow> None
     | Some (Inl e) \<Rightarrow> Some (0, Some e)
     | Some (Inr (dealID, pubMsgTok)) \<Rightarrow>
         (case StateMarketStorageDeal w dealID tok of
            Inl e \<Rightarrow> Some (dealID, Some e)
          | Inr marketDeal \<Rightarrow>
              (case proposal of
                 None \<Rightarrow> Some (dealID, None)
               | Some p \<Rightarrow>
                   (case CheckDealEquality w tok p marketDeal of
                      Inl e \<Rightarrow> Some (0, Some e)
                    | Inr eq \<Rightarrow>
                        if eq then Some (dealID, None)
                        else Some (0, Some ''Deal proposals for publish message did not match'')))))"

end
