(* ===== verification/Sealing_Fillers.thy ===== *)
theory Sealing_Fillers
  imports Sealing_Types
begin

text \<open>
  \<^verbatim>\<open>extern/storage-sealing/utils.go\<close>: the sizes of the filler pieces that complete a sector.
  The loop peels the lowest set bit of the padded remainder off, once per set bit, on 64-bit
  words. \<open>fillers_loop_eq\<close> shows that it lists the set bits in ascending order, and the property
  that the fillers add up to exactly the remainder.
\<close>

unbundle bit_operations_syntax

section \<open>The code\<close>

text \<open>\<^verbatim>\<open>bits.OnesCount64\<close> and \<^verbatim>\<open>bits.TrailingZeros64\<close> (64 on the zero word).\<close>

definition OnesCount64 :: "u64 \<Rightarrow> nat" where
  "OnesCount64 w = length (filter (bit w) [0..<64])"

definition TrailingZeros64 :: "u64 \<Rightarrow> nat" where
  "TrailingZeros64 w = length (takeWhile (\<lambda>i. \<not> bit w i) [0..<64])"

text \<open>The loop of \<open>fillersFromRem\<close>; \<open>unpadded\<close> is \<open>abi.PaddedPieceSize.Unpadded\<close>.\<close>

fun fillers_loop :: "(u64 \<Rightarrow> u64) \<Rightarrow> nat \<Rightarrow> u64 \<Rightarrow> u64 list" where
  "fillers_loop unpadded 0 toFill = []"
| "fillers_loop unpadded (Suc n) toFill =
    (let psize = push_bit (TrailingZeros64 toFill) 1
     in unpadded psize # fillers_loop unpadded n (toFill XOR psize))"

definition fillersFromRem :: "(u64 \<Rightarrow> u64) \<Rightarrow> u64 \<Rightarrow> u64 list" where
  "fillersFromRem unpadded inn =
    (let toFill = inn + inn div 127 in fillers_loop unpadded (OnesCount64 toFill) toFill)"

text \<open>The documented behaviour of \<open>PaddedPieceSize.Unpadded\<close>: 127 of every 128 bytes are data.\<close>

definition unpadded_spec :: "(u64 \<Rightarrow> u64) \<Rightarrow> bool" where
  "unpadded_spec unpadded \<longleftrightarrow> (\<forall>s. unpadded s = s - s div 128)"

section \<open>The loop lists the set bits\<close>

abbreviation set_bits :: "u64 \<Rightarrow> nat list" where
  "set_bits w \<equiv> filter (bit w) [0..<64]"

lemma set_bits_tz:
  assumes "set_bits w = i # is"
  shows "TrailingZeros64 w = i" and "set_bits (w XOR push_bit i 1) = is"
proof -
  have "i \<in> set (set_bits w)" by (simp add: assms)
  then have i: "i < 64" "bit w i" by auto
  from assms obtain us vs where us: "[0..<64] = us @ i # vs" "\<forall>u\<in>set us. \<not> bit w u" "is = filter (bit w) vs"
    by (auto simp: filter_eq_Cons_iff)
  have "length [0..<64] = length (us @ i # vs)" by (simp only: us(1))
  then have "length us < 64" by simp
  moreover have "[0..<64] ! length us = i" by (simp only: us(1) nth_append_length)
  ultimately have len: "length us = i" by simp
  have "takeWhile (\<lambda>i. \<not> bit w i) [0..<64] = us"
    unfolding us(1) using us(2) i by (simp add: takeWhile_append2)
  with len show "TrailingZeros64 w = i" by (simp add: TrailingZeros64_def)
  have d: "distinct (us @ i # vs)" using us(1) by (metis distinct_upt)
  have b: "bit (w XOR push_bit i 1) k = (bit w k \<and> k \<noteq> i)" if "k < 64" for k
    using that i by (auto simp: bit_simps)
  have lt: "\<forall>k\<in>set (us @ i # vs). k < 64" using us(1) by (metis atLeastLessThan_iff set_upt)
  have "set_bits (w XOR push_bit i 1) = filter (\<lambda>k. bit w k \<and> k \<noteq> i) (us @ i # vs)"
    unfolding us(1) using b lt by (intro filter_cong) auto
  also have "\<dots> = is"
    using d us(2,3) by (auto intro!: filter_cong simp: filter_empty_conv)
  finally show "set_bits (w XOR push_bit i 1) = is" .
qed

lemma fillers_loop_eq:
  "n = length (set_bits w) \<Longrightarrow>
   fillers_loop unpadded n w = map (\<lambda>i. unpadded (push_bit i 1)) (set_bits w)"
proof (induction n arbitrary: w)
  case 0
  then show ?case by simp
next
  case (Suc n)
  then obtain i "is" where e: "set_bits w = i # is" by (cases "set_bits w") auto
  note tz = set_bits_tz [OF e]
  have "fillers_loop unpadded n (w XOR push_bit i 1) = map (\<lambda>i. unpadded (push_bit i 1)) is"
    using Suc.IH [of "w XOR push_bit i 1"] Suc.prems e tz(2) by simp
  with e tz(1) show ?case by (simp add: Let_def)
qed

lemma sum_set_bits: "(\<Sum>i\<leftarrow>set_bits w. 2 ^ i) = unat w"
proof -
  have "unat w < 2 ^ 64"
    using unsigned_less [of w] by simp
  then have "unat w = take_bit 64 (unat w)"
    by (simp only: take_bit_nat_eq_self)
  also have "\<dots> = (\<Sum>k = 0..<64. push_bit k (of_bool (bit (unat w) k)))"
    by (rule take_bit_sum)
  also have "\<dots> = (\<Sum>k\<leftarrow>[0..<64]. if bit w k then 2 ^ k else 0)"
    unfolding interv_sum_list_conv_sum_set_nat
    by (intro sum.cong) (auto simp: bit_simps push_bit_eq_mult)
  finally show ?thesis by (simp only: sum_list_map_filter')
qed

lemma unat_push_bit_1: "i < 64 \<Longrightarrow> unat (push_bit i 1 :: u64) = 2 ^ i"
  by (simp only: unsigned_push_bit_eq) (simp add: push_bit_eq_mult take_bit_nat_eq_self)

lemma unat_unpadded_pow:
  assumes "unpadded_spec unpadded" "7 \<le> i" "i < 64"
  shows "128 * unat (unpadded (push_bit i 1)) = 127 * 2 ^ i"
proof -
  let ?s = "push_bit i 1 :: u64"
  obtain j where j: "i = j + 7" using assms(2) by (metis le_add_diff_inverse2)
  have "unat (?s - ?s div 128) = unat ?s - unat (?s div 128)"
    by (rule unat_sub) (simp add: word_le_nat_alt unat_div)
  also have "unat (?s div 128) = 2 ^ i div 128"
    using assms(3) by (simp add: unat_div unat_push_bit_1 del: push_bit_of_1)
  finally show ?thesis
    using assms j by (simp add: unpadded_spec_def unat_push_bit_1 power_add del: push_bit_of_1)
qed

lemma set_bits_ge7: "unat w mod 128 = 0 \<Longrightarrow> i \<in> set (set_bits w) \<Longrightarrow> 7 \<le> i"
proof (rule ccontr)
  assume m: "unat w mod 128 = 0" and i: "i \<in> set (set_bits w)" and "\<not> 7 \<le> i"
  have "take_bit 7 (unat w) = 0" using m by (simp add: take_bit_eq_mod)
  then have "\<not> bit (take_bit 7 (unat w)) i" by simp
  with i \<open>\<not> 7 \<le> i\<close> show False by (auto simp: bit_simps)
qed

section \<open>Property\<close>

text \<open>
  C15. When the space left in a sector is a whole number of 127-byte chunks (and the padded
  remainder fits in 64 bits), the filler sizes are the unpadded sizes of distinct powers of two
  and add up to exactly the space left.
\<close>

theorem fillersFromRem_total:
  assumes u: "unpadded_spec unpadded" and m: "unat inn mod 127 = 0"
    and b: "unat inn + unat inn div 127 < 2 ^ 64"
  shows "sum_list (map unat (fillersFromRem unpadded inn)) = unat inn \<and>
    fillersFromRem unpadded inn =
      map (\<lambda>i. unpadded (push_bit i 1)) (filter (bit (inn + inn div 127)) [0..<64])"
proof -
  let ?t = "inn + inn div 127"
  obtain k where k: "unat inn = 127 * k" using m by (auto simp: mod_eq_0_iff_dvd)
  have "unat ?t = unat inn + unat (inn div 127)"
    using b by (intro unat_add_lem [THEN iffD1]) (simp add: unat_div)
  then have t: "unat ?t = 128 * k" using k by (simp add: unat_div)
  have fe: "fillersFromRem unpadded inn = map (\<lambda>i. unpadded (push_bit i 1)) (set_bits ?t)"
    by (simp add: fillersFromRem_def Let_def fillers_loop_eq OnesCount64_def)
  have "(\<Sum>i\<leftarrow>set_bits ?t. 128 * unat (unpadded (push_bit i 1))) = (\<Sum>i\<leftarrow>set_bits ?t. 127 * 2 ^ i)"
    using set_bits_ge7 [of ?t] t u
    by (intro arg_cong [where f = sum_list] map_cong refl unat_unpadded_pow) auto
  then have "128 * sum_list (map unat (fillersFromRem unpadded inn)) = 127 * unat ?t"
    by (simp add: fe sum_list_const_mult comp_def sum_set_bits)
  with t k fe show ?thesis by simp
qed

theorem fillersFromRem_total_witness:
  "sum_list (map unat (fillersFromRem (\<lambda>s. s - s div 128) 1524)) = 1524 \<and>
   fillersFromRem (\<lambda>s. s - s div 128) 1524 = [508, 1016]"
proof
  show "sum_list (map unat (fillersFromRem (\<lambda>s. s - s div 128) 1524)) = 1524"
    by (rule conjunct1 [OF fillersFromRem_total, THEN trans])
      (simp_all add: unpadded_spec_def)
  show "fillersFromRem (\<lambda>s. s - s div 128) 1524 = [508, 1016]"
    by code_simp
qed

end
