(* ===== verification/Sealing_Handlers.thy ===== *)
theory Sealing_Handlers
  imports Sealing_FSM Sealing_Checks Sealing_Fillers
begin

text \<open>
  The sealing handlers, \<^verbatim>\<open>extern/storage-sealing/states_sealing.go\<close>, and the cooldown they share with
  the recovery handlers (theory \<open>Sealing_Recovery\<close>). A handler gets a copy of the sector, consults the
  world and usually ends by sending one event back to the state machine. Its result says how it
  ended: an event sent, a return without an event (the sector stays where it is), an error (the
  wrapper in \<open>Plan\<close> logs it and drops it), a wait registered with the chain events, or a panic.

  A handler with several consultations takes the worlds \<open>W 0\<close>, \<open>W 1\<close>, \dots in the order in
  which it makes them. \<open>a\<close> is the miner address \<open>m.maddr\<close>.
\<close>

section \<open>Results and cooldown\<close>

datatype hres = Sent event | Stop | Failed gerr | AwaitHeight epoch | HPanic

datatype cool = CoolOk | CoolErr gerr | CoolPanic

definition minRetryTime :: int where "minRetryTime = 60 * 10 ^ 9"

text \<open>
  Times and durations are in nanoseconds. \<open>failedCooldown\<close> reads the last log entry before it tests that there is one. The wait ends
  when the timer fires, or with the context's error if it is cancelled first.
\<close>

definition failedCooldown :: "world \<Rightarrow> SectorInfo \<Rightarrow> cool" where
  "failedCooldown w sector =
    (if Logs sector = [] then CoolPanic
     else let retryStart = sint (Timestamp (last (Logs sector))) * 10 ^ 9 + minRetryTime
          in if length (Logs sector) > 0 \<and> \<not> now w > retryStart
             then if cancelled w then CoolErr ''context canceled'' else CoolOk
             else CoolOk)"

definition after_cooldown :: "world \<Rightarrow> SectorInfo \<Rightarrow> hres \<Rightarrow> hres" where
  "after_cooldown w sector k =
    (case failedCooldown w sector of CoolOk \<Rightarrow> k | CoolErr e \<Rightarrow> Failed e | CoolPanic \<Rightarrow> HPanic)"

section \<open>Sealing: \<open>states_sealing.go\<close>\<close>

text \<open>
  The part of the \<open>Sealing\<close> struct that assigns deals to sectors. The callbacks of
  an open sector and of a pending piece are closures over their map key; \<open>pp_accepted\<close> calls
  are the replies a handler returns: piece, sector, offset and error. A timer is
  \<open>True\<close> while it is armed and \<open>False\<close> once it has fired or was stopped.
\<close>

record openSector =
  os_used :: u64

record pendingPiece =
  pp_size :: u64
  pp_deal :: DealInfo
  pp_assigned :: bool

record input_state =
  openSectors :: "u64 \<times> u64 \<rightharpoonup> openSector"
  pendingPieces :: "cid \<rightharpoonup> pendingPiece"
  assignedPieces :: "u64 \<times> u64 \<rightharpoonup> cid list"
  sectorTimers :: "u64 \<times> u64 \<rightharpoonup> bool"

type_synonym reply = "cid \<times> u64 \<times> u64 \<times> gerr option"

fun drop_assigned :: "u64 \<Rightarrow> cid list \<Rightarrow> (cid \<rightharpoonup> pendingPiece) \<Rightarrow> (cid \<rightharpoonup> pendingPiece) \<times> reply list" where
  "drop_assigned n [] pend = (pend, [])"
| "drop_assigned n (c # cs) pend =
    (case drop_assigned n cs (pend(c := None)) of
       (pend', rs) \<Rightarrow>
         (case pend c of
            None \<Rightarrow> (pend', rs)
          | Some _ \<Rightarrow> (pend', (c, n, 0, Some ''sector entered packing state early'') # rs)))"

fun padSector_loop ::
  "world \<Rightarrow> int option \<Rightarrow> (u64 \<times> u64) \<times> int \<Rightarrow> u64 list \<Rightarrow> u64 list \<Rightarrow> gerr + PieceInfo list" where
  "padSector_loop w ctx ref existing [] = Inr []"
| "padSector_loop w ctx ref existing (sz # sizes) =
    (case SealerAddPiece w ctx ref existing sz of
       Inl e \<Rightarrow> Inl (Errorf ''add piece'' e)
     | Inr ppi \<Rightarrow>
         (case padSector_loop w ctx ref (existing @ [sz]) sizes of
            Inl e \<Rightarrow> Inl e
          | Inr out \<Rightarrow> Inr (ppi # out)))"

definition padSector ::
  "world \<Rightarrow> int option \<Rightarrow> (u64 \<times> u64) \<times> int \<Rightarrow> u64 list \<Rightarrow> u64 list \<Rightarrow> gerr + PieceInfo list" where
  "padSector w ctx ref existing sizes =
    (if sizes = [] then Inr [] else padSector_loop w ctx ref existing sizes)"

definition packing_input :: "u64 \<times> u64 \<Rightarrow> u64 \<Rightarrow> input_state \<Rightarrow> input_state \<times> reply list" where
  "packing_input sid n m =
    (case drop_assigned n (case assignedPieces m sid of None \<Rightarrow> [] | Some cs \<Rightarrow> cs) (pendingPieces m) of
       (pend, rs) \<Rightarrow>
         (m\<lparr>pendingPieces := pend, openSectors := (openSectors m)(sid := None),
            assignedPieces := (assignedPieces m)(sid := None)\<rparr>, rs))"

definition handlePacking ::
  "world \<Rightarrow> address \<Rightarrow> input_state \<Rightarrow> SectorInfo \<Rightarrow> hres \<times> input_state \<times> reply list" where
  "handlePacking w a m sector =
    (case minerSectorID w a (SectorNumber sector) of
       None \<Rightarrow> (HPanic, m, [])
     | Some sid \<Rightarrow>
         (case packing_input sid (SectorNumber sector) m of
            (m', replies) \<Rightarrow>
              (let allocated = sum_list (existingPieceSizes (Unpadded w) sector) in
               case SectorSize w (SectorType sector) of
                 Inl e \<Rightarrow> (Failed e, m', replies)
               | Inr ssize \<Rightarrow>
                   let ubytes = Unpadded w ssize in
                   if allocated > ubytes then (Failed ''too much data in sector'', m', replies)
                   else (case padSector w (sealingCtx sector None) (sid, SectorType sector)
                                (existingPieceSizes (Unpadded w) sector)
                                (fillersFromRem (Unpadded w) (ubytes - allocated)) of
                           Inl e \<Rightarrow> (Failed (Errorf ''filling up the sector'' e), m', replies)
                         | Inr fillerPieces \<Rightarrow> (Sent (SectorPacked fillerPieces), m', replies)))))"

definition checkTicketExpired :: "world \<Rightarrow> SectorInfo \<Rightarrow> epoch \<Rightarrow> bool" where
  "checkTicketExpired w sector ep \<longleftrightarrow> ep - TicketEpoch sector > MaxPreCommitRandomnessLookback w"

definition getTicket :: "world \<Rightarrow> address \<Rightarrow> SectorInfo \<Rightarrow> gerr + bytes \<times> epoch" where
  "getTicket w a sector =
    (case ChainHead w of
       Inl _ \<Rightarrow> Inr ([], 0)
     | Inr (tok, ep) \<Rightarrow>
         (case MarshalAddr w a of
            Inl e \<Rightarrow> Inl e
          | Inr buf \<Rightarrow>
              (case StateSectorPreCommitInfo w a (SectorNumber sector) tok of
                 Inl _ \<Rightarrow> Inl ''getting precommit info''
               | Inr pci \<Rightarrow>
                   let ticketEpoch = (case pci of None \<Rightarrow> ep - SealRandomnessLookback w
                                      | Some p \<Rightarrow> pc_SealRandEpoch (oc_Info p)) in
                   if pci \<noteq> None \<and> checkTicketExpired w sector ticketEpoch
                   then Inl ''ticket expired for precommitted sector''
                   else (case RandomnessFromTickets w tok ticketEpoch buf of
                           Inl e \<Rightarrow> Inl e
                         | Inr rand \<Rightarrow> Inr (rand, ticketEpoch)))))"

definition handleGetTicket :: "(nat \<Rightarrow> world) \<Rightarrow> address \<Rightarrow> SectorInfo \<Rightarrow> hres" where
  "handleGetTicket W a sector =
    (case getTicket (W 0) a sector of
       Inl e \<Rightarrow>
         (case StateMinerSectorAllocated (W 1) a (SectorNumber sector) [] of
            (allocated, aerr) \<Rightarrow>
              if allocated then
                if CommitMessage sector \<noteq> None
                then Sent (SectorCommitFailed ''sector is committed but got into the GetTicket state'')
                else Sent SectorRemove
              else Sent (SectorSealPreCommit1Failed (Errorf ''getting ticket failed'' e)))
     | Inr (ticketValue, ticketEpoch) \<Rightarrow> Sent (SectorTicket ticketValue ticketEpoch))"

definition handlePreCommit1 :: "(nat \<Rightarrow> world) \<Rightarrow> address \<Rightarrow> SectorInfo \<Rightarrow> hres" where
  "handlePreCommit1 W a sector =
    (case checkPieces (W 0) a sector of
       Some (ErrApi _) \<Rightarrow> Stop
     | Some (ErrInvalidDeals _) \<Rightarrow> Sent (SectorInvalidDealIDs RetPreCommit1)
     | Some (ErrExpiredDeals e) \<Rightarrow> Sent (SectorDealsExpired (Errorf ''expired dealIDs in sector'' e))
     | Some _ \<Rightarrow> Failed ''checkPieces sanity check error''
     | None \<Rightarrow>
         (case ChainHead (W 1) of
            Inl _ \<Rightarrow> Stop
          | Inr (_, height) \<Rightarrow>
              if checkTicketExpired (W 1) sector height then Sent SectorOldTicket
              else (case minerSector (W 1) a (SectorType sector) (SectorNumber sector) of
                  None \<Rightarrow> HPanic
                | Some ref \<Rightarrow>
                    (case SealPreCommit1 (W 1) (sealingCtx sector None) ref (TicketValue sector) (pieceInfos sector) of
                       Inl e \<Rightarrow> Sent (SectorSealPreCommit1Failed (Errorf ''seal pre commit(1) failed'' e))
                     | Inr pc1o \<Rightarrow> Sent (SectorPreCommit1 pc1o)))))"

text \<open>\<open>SealPreCommit2\<close> returns the pair (unsealed, sealed); \<open>cid.Undef\<close> is the empty string.\<close>

definition handlePreCommit2 :: "world \<Rightarrow> address \<Rightarrow> SectorInfo \<Rightarrow> hres" where
  "handlePreCommit2 w a sector =
    (case minerSector w a (SectorType sector) (SectorNumber sector) of
       None \<Rightarrow> HPanic
     | Some ref \<Rightarrow>
         (case SealPreCommit2 w (sealingCtx sector None) ref (PreCommit1Out sector) of
            Inl e \<Rightarrow> Sent (SectorSealPreCommit2Failed (Errorf ''seal pre commit(2) failed'' e))
          | Inr (unsealed, sealed) \<Rightarrow>
              if unsealed = '''' then Sent (SectorSealPreCommit1Failed ''seal pre commit(2) returned undefined CommD'')
              else Sent (SectorPreCommit2 sealed unsealed)))"

text \<open>The submission part of \<open>handlePreCommitting\<close>, after the checks.\<close>

definition submitPreCommit :: "world \<Rightarrow> address \<Rightarrow> bytes \<Rightarrow> SectorInfo \<Rightarrow> hres" where
  "submitPreCommit w a mi sector =
    (case CommR sector of
       None \<Rightarrow> HPanic
     | Some commr \<Rightarrow>
         let params = \<lparr>pc_SealProof = SectorType sector, pc_SectorNumber = SectorNumber sector,
                       pc_SealedCID = commr, pc_SealRandEpoch = TicketEpoch sector,
                       pc_DealIDs = dealIDs sector\<rparr> in
         case MarshalPreCommit w params of
           Inl e \<Rightarrow> Sent (SectorChainPreCommitFailed (Errorf ''could not serialize pre-commit sector parameters'' e))
         | Inr enc \<Rightarrow>
             let deposit = 0; goodFunds = deposit + MaxPreCommitGasFee w in
             case addrSel w mi ''PreCommitAddr'' goodFunds deposit of
               Inl e \<Rightarrow> Sent (SectorChainPreCommitFailed (Errorf ''no good address to send precommit message from'' e))
             | Inr frm \<Rightarrow>
                 (case SendMsg w frm a ''PreCommitSector'' deposit (MaxPreCommitGasFee w) enc of
                    Inl e \<Rightarrow> Sent (SectorChainPreCommitFailed (Errorf ''pushing message to mpool'' e))
                  | Inr mcid \<Rightarrow> Sent (SectorPreCommitted mcid params)))"

definition handlePreCommitting :: "(nat \<Rightarrow> world) \<Rightarrow> address \<Rightarrow> SectorInfo \<Rightarrow> hres" where
  "handlePreCommitting W a sector =
    (case ChainHead (W 0) of
       Inl _ \<Rightarrow> Stop
     | Inr (tok, height) \<Rightarrow>
         (case StateMinerInfo (W 0) a tok of
            Inl _ \<Rightarrow> Stop
          | Inr mi \<Rightarrow>
              (case checkPrecommit (W 1) a sector tok height of
                 Some (ErrApi _) \<Rightarrow> Stop
               | Some (ErrBadCommD e) \<Rightarrow> Sent (SectorSealPreCommit1Failed (Errorf ''bad CommD error'' e))
               | Some (ErrExpiredTicket e) \<Rightarrow> Sent (SectorSealPreCommit1Failed (Errorf ''ticket expired'' e))
               | Some (ErrBadTicket e) \<Rightarrow> Sent (SectorSealPreCommit1Failed (Errorf ''bad ticket'' e))
               | Some (ErrInvalidDeals _) \<Rightarrow> Sent (SectorInvalidDealIDs RetPreCommitting)
               | Some (ErrExpiredDeals e) \<Rightarrow> Sent (SectorDealsExpired (Errorf ''sector deals expired'' e))
               | Some (ErrPrecommitOnChain _) \<Rightarrow> Sent (SectorPreCommitLanded tok)
               | Some (ErrSectorNumberAllocated _) \<Rightarrow> Stop
               | Some _ \<Rightarrow> Failed ''checkPrecommit sanity check error''
               | None \<Rightarrow> submitPreCommit (W 2) a mi sector)))"

definition handlePreCommitWait :: "world \<Rightarrow> SectorInfo \<Rightarrow> hres" where
  "handlePreCommitWait w sector =
    (case PreCommitMessage sector of
       None \<Rightarrow> Sent (SectorChainPreCommitFailed ''precommit message was nil'')
     | Some msg \<Rightarrow>
         (case StateWaitMsg w msg of
            Inl e \<Rightarrow> Sent (SectorChainPreCommitFailed e)
          | Inr mw \<Rightarrow>
              let code = ExitCode (Receipt mw) in
              if code = exit_Ok w then Sent (SectorPreCommitLanded (TipSetTok mw))
              else if code = exit_SysErrInsufficientFunds w \<or> code = exit_SysErrOutOfGas w
              then Sent SectorRetryPreCommit
              else Sent (SectorChainPreCommitFailed ''sector precommit failed'')))"

text \<open>
  \<open>handleWaitSeed\<close> registers a callback for the height at which the seed is fixed; the callback
  is \<open>waitSeed_callback\<close>.
\<close>

definition handleWaitSeed :: "world \<Rightarrow> address \<Rightarrow> SectorInfo \<Rightarrow> hres" where
  "handleWaitSeed w a sector =
    (case ChainHead w of
       Inl _ \<Rightarrow> Stop
     | Inr (tok, _) \<Rightarrow>
         (case StateSectorPreCommitInfo w a (SectorNumber sector) tok of
            Inl _ \<Rightarrow> Failed ''getting precommit info''
          | Inr None \<Rightarrow> Sent (SectorChainPreCommitFailed ''precommit info not found on chain'')
          | Inr (Some pci) \<Rightarrow> AwaitHeight (oc_PreCommitEpoch pci + PreCommitChallengeDelay w)))"

definition waitSeed_callback :: "world \<Rightarrow> address \<Rightarrow> epoch \<Rightarrow> hres" where
  "waitSeed_callback w a randHeight =
    (case ChainHead w of
       Inl _ \<Rightarrow> Stop
     | Inr (tok, _) \<Rightarrow>
         (case MarshalAddr w a of
            Inl e \<Rightarrow> Failed e
          | Inr buf \<Rightarrow>
              (case RandomnessFromBeacon w tok randHeight buf of
                 Inl e \<Rightarrow> Sent (SectorChainPreCommitFailed (Errorf ''failed to get randomness for computing seal proof'' e))
               | Inr rand \<Rightarrow> Sent (SectorSeedReady rand randHeight))))"

text \<open>The proof computation of \<open>handleCommitting\<close>.\<close>

definition computeProof :: "world \<Rightarrow> address \<Rightarrow> SectorInfo \<Rightarrow> hres" where
  "computeProof w a sector =
    (case (CommD sector, CommR sector) of
       (Some commd, Some commr) \<Rightarrow>
         (case minerSector w a (SectorType sector) (SectorNumber sector) of
            None \<Rightarrow> HPanic
          | Some ref \<Rightarrow>
              (case SealCommit1 w (sealingCtx sector None) ref (TicketValue sector) (SeedValue sector)
                      (pieceInfos sector) (commd, commr) of
                 Inl e \<Rightarrow> Sent (SectorComputeProofFailed (Errorf ''computing seal proof failed(1)'' e))
               | Inr c2in \<Rightarrow>
                   (case SealCommit2 w (sealingCtx sector None) ref c2in of
                      Inl e \<Rightarrow> Sent (SectorComputeProofFailed (Errorf ''computing seal proof failed(2)'' e))
                    | Inr prf \<Rightarrow> Sent (SectorCommitted prf))))
     | _ \<Rightarrow> Sent (SectorCommitFailed ''sector had nil commR or commD''))"

definition handleCommitting :: "world \<Rightarrow> address \<Rightarrow> SectorInfo \<Rightarrow> hres" where
  "handleCommitting w a sector =
    (case CommitMessage sector of
       Some msg \<Rightarrow>
         (case StateSearchMsgLimited w msg (StorageMsgSearchLimit w) of
            Inr (Some _) \<Rightarrow> Sent SectorRetryCommitWait
          | _ \<Rightarrow> computeProof w a sector)
     | None \<Rightarrow> computeProof w a sector)"

definition handleSubmitCommit :: "(nat \<Rightarrow> world) \<Rightarrow> address \<Rightarrow> SectorInfo \<Rightarrow> hres" where
  "handleSubmitCommit W a sector =
    (case ChainHead (W 0) of
       Inl _ \<Rightarrow> Stop
     | Inr (tok, _) \<Rightarrow>
         (case checkCommit (W 1) a sector (Proof sector) tok of
            CPanic \<Rightarrow> HPanic
          | CErr _ \<Rightarrow> Sent (SectorCommitFailed ''commit check error'')
          | COk \<Rightarrow>
              (case MarshalProveCommit (W 2) (SectorNumber sector) (Proof sector) of
                 Inl e \<Rightarrow> Sent (SectorCommitFailed (Errorf ''could not serialize commit sector parameters'' e))
               | Inr enc \<Rightarrow>
                   (case StateMinerInfo (W 2) a tok of
                      Inl _ \<Rightarrow> Stop
                    | Inr mi \<Rightarrow>
                        (case StateSectorPreCommitInfo (W 2) a (SectorNumber sector) tok of
                           Inl _ \<Rightarrow> Failed ''getting precommit info''
                         | Inr None \<Rightarrow> Sent (SectorCommitFailed ''precommit info not found on chain'')
                         | Inr (Some _) \<Rightarrow>
                             let collateral = 0; goodFunds = collateral + MaxCommitGasFee (W 2) in
                             case addrSel (W 2) mi ''CommitAddr'' goodFunds collateral of
                               Inl e \<Rightarrow> Sent (SectorCommitFailed (Errorf ''no good address to send commit message from'' e))
                             | Inr frm \<Rightarrow>
                                 (case SendMsg (W 2) frm a ''ProveCommitSector'' collateral (MaxCommitGasFee (W 2)) enc of
                                    Inl e \<Rightarrow> Sent (SectorCommitFailed (Errorf ''pushing message to mpool'' e))
                                  | Inr mcid \<Rightarrow> Sent (SectorCommitSubmitted mcid)))))))"

definition handleCommitWait :: "world \<Rightarrow> address \<Rightarrow> SectorInfo \<Rightarrow> hres" where
  "handleCommitWait w a sector =
    (case CommitMessage sector of
       None \<Rightarrow> Sent (SectorCommitFailed ''entered commit wait with no commit cid'')
     | Some msg \<Rightarrow>
         (case StateWaitMsg w msg of
            Inl e \<Rightarrow> Sent (SectorCommitFailed (Errorf ''failed to wait for porep inclusion'' e))
          | Inr mw \<Rightarrow>
              let code = ExitCode (Receipt mw) in
              if code \<noteq> exit_Ok w then
                if code = exit_SysErrInsufficientFunds w \<or> code = exit_SysErrOutOfGas w
                then Sent SectorRetrySubmitCommit
                else Sent (SectorCommitFailed ''submitting sector proof failed'')
              else (case StateSectorGetInfo w a (SectorNumber sector) (TipSetTok mw) of
                      Inl e \<Rightarrow> Sent (SectorCommitFailed (Errorf ''proof validation failed, calling StateSectorGetInfo'' e))
                    | Inr None \<Rightarrow> Sent (SectorCommitFailed ''proof validation failed, sector not found in sector set after cron'')
                    | Inr (Some _) \<Rightarrow> Sent SectorProving)))"

definition handleFinalizeSector :: "world \<Rightarrow> address \<Rightarrow> SectorInfo \<Rightarrow> hres" where
  "handleFinalizeSector w a sector =
    (case getConfig w of
       Inl e \<Rightarrow> Failed (Errorf ''getting sealing config'' e)
     | Inr cfg \<Rightarrow>
         (case minerSector w a (SectorType sector) (SectorNumber sector) of
            None \<Rightarrow> HPanic
          | Some ref \<Rightarrow>
              (case SealerFinalize w (sealingCtx sector None) ref
                      (keepUnsealedRanges (Unpadded w) False (AlwaysKeepUnsealedCopy cfg) sector) of
                 Some e \<Rightarrow> Sent (SectorFinalizeFailed (Errorf ''finalize sector'' e))
               | None \<Rightarrow> Sent SectorFinalized)))"

definition handleProvingSector :: "world \<Rightarrow> address \<Rightarrow> SectorInfo \<Rightarrow> hres" where
  "handleProvingSector w a sector =
    (case getConfig w of
       Inl e \<Rightarrow> Failed (Errorf ''getting sealing config'' e)
     | Inr cfg \<Rightarrow>
         (case minerSector w a (SectorType sector) (SectorNumber sector) of
            None \<Rightarrow> HPanic
          | Some ref \<Rightarrow>
              (case SealerReleaseUnsealed w ref
                      (keepUnsealedRanges (Unpadded w) True (AlwaysKeepUnsealedCopy cfg) sector) of
                 Some _ \<Rightarrow> Stop
               | None \<Rightarrow> Stop)))"

end
