(* ===== verification/Sealing_Recovery.thy ===== *)
theory Sealing_Recovery
  imports Sealing_Handlers
begin

text \<open>
  The handlers of failed sectors (\<^verbatim>\<open>extern/storage-sealing/states_failed.go\<close>) and of sectors after
  sealing (\<^verbatim>\<open>states_proving.go\<close>).
\<close>

section \<open>Failed sectors: \<open>states_failed.go\<close>\<close>

definition checkPreCommitted :: "world \<Rightarrow> address \<Rightarrow> SectorInfo \<Rightarrow> SectorPreCommitOnChainInfo option \<times> bool" where
  "checkPreCommitted w a sector =
    (case ChainHead w of
       Inl _ \<Rightarrow> (None, False)
     | Inr (tok, _) \<Rightarrow>
         (case StateSectorPreCommitInfo w a (SectorNumber sector) tok of
            Inl _ \<Rightarrow> (None, False)
          | Inr info \<Rightarrow> (info, True)))"

definition handleSealPrecommit1Failed :: "world \<Rightarrow> SectorInfo \<Rightarrow> hres" where
  "handleSealPrecommit1Failed w sector = after_cooldown w sector (Sent SectorRetrySealPreCommit1)"

definition handleSealPrecommit2Failed :: "world \<Rightarrow> SectorInfo \<Rightarrow> hres" where
  "handleSealPrecommit2Failed w sector =
    after_cooldown w sector
      (if PreCommit2Fails sector > 3 then Sent SectorRetrySealPreCommit1
       else Sent SectorRetrySealPreCommit2)"

text \<open>The tail of \<open>handlePreCommitFailed\<close>, after the checks let it pass.\<close>

definition retryPreCommitted :: "world \<Rightarrow> address \<Rightarrow> bytes \<Rightarrow> SectorInfo \<Rightarrow> hres" where
  "retryPreCommitted w a tok sector =
    (case checkPreCommitted w a sector of
       (Some pci, True) \<Rightarrow>
         if PreCommitMessage sector = None then Sent (SectorPreCommitLanded tok)
         else (case CommR sector of
             None \<Rightarrow> HPanic
           | Some commr \<Rightarrow>
               if pc_SealedCID (oc_Info pci) \<noteq> commr then Stop
               else after_cooldown w sector (Sent SectorRetryWaitSeed))
     | _ \<Rightarrow> after_cooldown w sector (Sent SectorRetryPreCommit))"

definition recheckPreCommit :: "(nat \<Rightarrow> world) \<Rightarrow> address \<Rightarrow> bytes \<Rightarrow> epoch \<Rightarrow> SectorInfo \<Rightarrow> hres" where
  "recheckPreCommit W a tok height sector =
    (case checkPrecommit (W 1) a sector tok height of
       Some (ErrApi _) \<Rightarrow> Stop
     | Some (ErrBadCommD e) \<Rightarrow> Sent (SectorSealPreCommit1Failed (Errorf ''bad CommD error'' e))
     | Some (ErrExpiredTicket e) \<Rightarrow> Sent (SectorSealPreCommit1Failed (Errorf ''ticket expired error'' e))
     | Some (ErrBadTicket e) \<Rightarrow> Sent (SectorSealPreCommit1Failed (Errorf ''bad expired'' e))
     | Some (ErrInvalidDeals _) \<Rightarrow> Sent (SectorInvalidDealIDs RetPreCommitFailed)
     | Some (ErrExpiredDeals e) \<Rightarrow> Sent (SectorDealsExpired (Errorf ''sector deals expired'' e))
     | Some (ErrNoPrecommit _) \<Rightarrow> Sent SectorRetryPreCommit
     | Some (ErrPrecommitOnChain _) \<Rightarrow> retryPreCommitted (W 2) a tok sector
     | Some (ErrSectorNumberAllocated _) \<Rightarrow> Stop
     | Some _ \<Rightarrow> Failed ''checkPrecommit sanity check error''
     | None \<Rightarrow> retryPreCommitted (W 2) a tok sector)"

definition handlePreCommitFailed :: "(nat \<Rightarrow> world) \<Rightarrow> address \<Rightarrow> SectorInfo \<Rightarrow> hres" where
  "handlePreCommitFailed W a sector =
    (case ChainHead (W 0) of
       Inl _ \<Rightarrow> Stop
     | Inr (tok, height) \<Rightarrow>
         (case PreCommitMessage sector of
            None \<Rightarrow> recheckPreCommit W a tok height sector
          | Some msg \<Rightarrow>
              (case StateSearchMsgLimited (W 0) msg (StorageMsgSearchLimit (W 0)) of
                 Inl e \<Rightarrow> Failed e
               | Inr None \<Rightarrow> after_cooldown (W 0) sector (Sent SectorRetryPreCommitWait)
               | Inr (Some mw) \<Rightarrow>
                   if ExitCode (Receipt mw) = exit_Ok (W 0)
                   then after_cooldown (W 0) sector (Sent SectorRetryPreCommitWait)
                   else if ExitCode (Receipt mw) = exit_SysErrOutOfGas (W 0)
                   then Sent SectorRetryPreCommit
                   else recheckPreCommit W a tok height sector)))"

definition handleComputeProofFailed :: "world \<Rightarrow> SectorInfo \<Rightarrow> hres" where
  "handleComputeProofFailed w sector =
    after_cooldown w sector
      (if InvalidProofs sector > 1 then Sent (SectorSealPreCommit1Failed ''consecutive compute fails'')
       else Sent SectorRetryComputeProof)"

text \<open>The second half of \<open>handleCommitFailed\<close>: the commit check.\<close>

definition recheckCommit :: "world \<Rightarrow> address \<Rightarrow> bytes \<Rightarrow> SectorInfo \<Rightarrow> hres" where
  "recheckCommit w a tok sector =
    (case checkCommit w a sector (Proof sector) tok of
       CPanic \<Rightarrow> HPanic
     | CErr (ErrApi _) \<Rightarrow> Stop
     | CErr (ErrBadSeed _) \<Rightarrow> Sent SectorRetryWaitSeed
     | CErr (ErrInvalidProof _) \<Rightarrow>
         after_cooldown w sector
           (if InvalidProofs sector > 0 then Sent (SectorSealPreCommit1Failed ''consecutive invalid proofs'')
            else Sent SectorRetryInvalidProof)
     | CErr (ErrPrecommitOnChain _) \<Rightarrow> Sent SectorRetryPreCommitWait
     | CErr (ErrNoPrecommit _) \<Rightarrow> Sent SectorRetryPreCommit
     | CErr (ErrInvalidDeals _) \<Rightarrow> Sent (SectorInvalidDealIDs RetCommitFailed)
     | CErr (ErrExpiredDeals e) \<Rightarrow> Sent (SectorDealsExpired (Errorf ''sector deals expired'' e))
     | CErr (ErrCommitWaitFailed _) \<Rightarrow> after_cooldown w sector (Sent SectorRetryCommitWait)
     | CErr _ \<Rightarrow> Failed ''checkCommit sanity check error''
     | COk \<Rightarrow> after_cooldown w sector (Sent SectorRetryComputeProof))"

definition recheckBeforeCommit :: "(nat \<Rightarrow> world) \<Rightarrow> address \<Rightarrow> bytes \<Rightarrow> epoch \<Rightarrow> SectorInfo \<Rightarrow> hres" where
  "recheckBeforeCommit W a tok height sector =
    (case checkPrecommit (W 1) a sector tok height of
       Some (ErrApi _) \<Rightarrow> Stop
     | Some (ErrBadCommD e) \<Rightarrow> Sent (SectorSealPreCommit1Failed (Errorf ''bad CommD error'' e))
     | Some (ErrExpiredTicket e) \<Rightarrow> Sent (SectorTicketExpired (Errorf ''ticket expired error, removing sector'' e))
     | Some (ErrBadTicket e) \<Rightarrow> Sent (SectorTicketExpired (Errorf ''expired ticket, removing sector'' e))
     | Some (ErrInvalidDeals _) \<Rightarrow> Sent (SectorInvalidDealIDs RetCommitFailed)
     | Some (ErrExpiredDeals e) \<Rightarrow> Sent (SectorDealsExpired (Errorf ''sector deals expired'' e))
     | Some (ErrPrecommitOnChain _) \<Rightarrow> recheckCommit (W 2) a tok sector
     | Some (ErrSectorNumberAllocated _) \<Rightarrow> recheckCommit (W 2) a tok sector
     | Some _ \<Rightarrow> Failed ''checkPrecommit sanity check error''
     | None \<Rightarrow> recheckCommit (W 2) a tok sector)"

definition handleCommitFailed :: "(nat \<Rightarrow> world) \<Rightarrow> address \<Rightarrow> SectorInfo \<Rightarrow> hres" where
  "handleCommitFailed W a sector =
    (case ChainHead (W 0) of
       Inl _ \<Rightarrow> Stop
     | Inr (tok, height) \<Rightarrow>
         (case CommitMessage sector of
            None \<Rightarrow> recheckBeforeCommit W a tok height sector
          | Some msg \<Rightarrow>
              (case StateSearchMsgLimited (W 0) msg (StorageMsgSearchLimit (W 0)) of
                 Inl e \<Rightarrow> Failed e
               | Inr None \<Rightarrow> after_cooldown (W 0) sector (Sent SectorRetryCommitWait)
               | Inr (Some mw) \<Rightarrow>
                   if ExitCode (Receipt mw) = exit_Ok (W 0)
                   then after_cooldown (W 0) sector (Sent SectorRetryCommitWait)
                   else if ExitCode (Receipt mw) = exit_SysErrOutOfGas (W 0)
                   then Sent SectorRetrySubmitCommit
                   else recheckBeforeCommit W a tok height sector)))"

definition handleFinalizeFailed :: "world \<Rightarrow> SectorInfo \<Rightarrow> hres" where
  "handleFinalizeFailed w sector = after_cooldown w sector (Sent SectorRetryFinalize)"

definition handleRemoveFailed :: "world \<Rightarrow> SectorInfo \<Rightarrow> hres" where
  "handleRemoveFailed w sector = after_cooldown w sector (Sent SectorRemove)"

definition handleTerminateFailed :: "world \<Rightarrow> address \<Rightarrow> SectorInfo \<Rightarrow> hres" where
  "handleTerminateFailed w a sector =
    (case StateSectorPreCommitInfo w a (SectorNumber sector) [] of
       Inr (Some _) \<Rightarrow> Stop
     | _ \<Rightarrow> after_cooldown w sector (Sent SectorTerminate))"

definition handleDealsExpired :: "world \<Rightarrow> address \<Rightarrow> SectorInfo \<Rightarrow> hres" where
  "handleDealsExpired w a sector =
    (case StateSectorGetInfo w a (SectorNumber sector) [] of
       Inl e \<Rightarrow> Failed (Errorf ''getting sector info'' e)
     | Inr (Some _) \<Rightarrow> Failed ''sector is committed on-chain, but we are in DealsExpired''
     | Inr None \<Rightarrow> Sent SectorRemove)"

text \<open>
  The first loop of \<open>handleRecoverDealIDs\<close>: the indices of pieces whose deal has to be looked up
  again and the number of filler pieces, or an error.
\<close>

fun recover_scan ::
  "world \<Rightarrow> address \<Rightarrow> bytes \<Rightarrow> epoch \<Rightarrow> nat \<Rightarrow> Piece list \<Rightarrow> gerr + nat list \<times> nat" where
  "recover_scan w a tok height i [] = Inr ([], 0)"
| "recover_scan w a tok height i (p # ps) =
    (let fix_it = (case recover_scan w a tok height (i + 1) ps of
                     Inl e \<Rightarrow> Inl e | Inr (fixes', pads) \<Rightarrow> Inr (i # fixes', pads)) in
     case p_DealInfo p of
       None \<Rightarrow>
         if PieceCID (p_Piece p) \<noteq> ZeroPieceCommitment w (Unpadded w (Size (p_Piece p)))
         then Inl ''piece had non-zero PieceCID''
         else (case recover_scan w a tok height (i + 1) ps of
                 Inl e \<Rightarrow> Inl e | Inr (fixes', pads) \<Rightarrow> Inr (fixes', pads + 1))
     | Some d \<Rightarrow>
         (case StateMarketStorageDealProposal w (DealID d) tok of
            Inl _ \<Rightarrow> fix_it
          | Inr proposal \<Rightarrow>
              if dp_Provider proposal \<noteq> a then fix_it
              else if dp_PieceCID proposal \<noteq> PieceCID (p_Piece p) then fix_it
              else if Size (p_Piece p) \<noteq> dp_PieceSize proposal then fix_it
              else if height \<ge> dp_StartEpoch proposal then Inl ''can not fix sector deals: expired deal''
              else recover_scan w a tok height (i + 1) ps))"

text \<open>
  The second loop: the failed indices and the updates. A piece without a publish message ends
  the handler with \<open>SectorRemove\<close>.
\<close>

datatype fix_res = FixRemove | FixPanic | Fixed "nat list" "(nat \<times> u64) list"

fun recover_fix :: "world \<Rightarrow> bytes \<Rightarrow> Piece list \<Rightarrow> nat list \<Rightarrow> fix_res" where
  "recover_fix w tok pieces [] = Fixed [] []"
| "recover_fix w tok pieces (i # fixes') =
    (if i < length pieces then
       (case p_DealInfo (pieces ! i) of
          None \<Rightarrow> FixPanic
        | Some d \<Rightarrow>
            (case PublishCid d of
               None \<Rightarrow> FixRemove
             | Some pub \<Rightarrow>
                 (case GetCurrentDealInfo w tok (di_DealProposal d) pub of
                    None \<Rightarrow> FixPanic
                  | Some (did, err) \<Rightarrow>
                      (case recover_fix w tok pieces fixes' of
                         FixRemove \<Rightarrow> FixRemove
                       | FixPanic \<Rightarrow> FixPanic
                       | Fixed failed updates \<Rightarrow>
                           Fixed (if err = None then failed else i # failed) ((i, did) # updates)))))
     else FixPanic)"

definition handleRecoverDealIDs :: "(nat \<Rightarrow> world) \<Rightarrow> address \<Rightarrow> SectorInfo \<Rightarrow> hres" where
  "handleRecoverDealIDs W a sector =
    (case ChainHead (W 0) of
       Inl e \<Rightarrow> Failed (Errorf ''getting chain head'' e)
     | Inr (tok, height) \<Rightarrow>
         (case recover_scan (W 1) a tok height 0 (Pieces sector) of
            Inl e \<Rightarrow> Failed e
          | Inr (toFix, paddingPieces) \<Rightarrow>
              (case recover_fix (W 2) tok (Pieces sector) toFix of
                 FixRemove \<Rightarrow> Sent SectorRemove
               | FixPanic \<Rightarrow> HPanic
               | Fixed failed updates \<Rightarrow>
                   if length failed > 0 then
                     if length failed + paddingPieces = length (Pieces sector) then Sent SectorRemove
                     else Failed ''failed to recover some deals''
                   else Sent (SectorUpdateDealIDs updates))))"

section \<open>After sealing: \<open>states_proving.go\<close>\<close>

definition handleFaulty :: "SectorInfo \<Rightarrow> hres" where
  "handleFaulty sector = Stop"

definition handleFaultReported :: "world \<Rightarrow> SectorInfo \<Rightarrow> hres" where
  "handleFaultReported w sector =
    (case FaultReportMsg sector of
       None \<Rightarrow> Failed ''entered fault reported state without a FaultReportMsg cid''
     | Some msg \<Rightarrow>
         (case StateWaitMsg w msg of
            Inl e \<Rightarrow> Failed (Errorf ''failed to wait for fault declaration'' e)
          | Inr mw \<Rightarrow>
              if ExitCode (Receipt mw) \<noteq> 0 then Failed ''UNHANDLED: submitting fault declaration failed''
              else Sent SectorFaultedFinal))"

definition handleTerminating :: "(nat \<Rightarrow> world) \<Rightarrow> address \<Rightarrow> SectorInfo \<Rightarrow> hres" where
  "handleTerminating W a sector =
    (case StateSectorGetInfo (W 0) a (SectorNumber sector) [] of
       Inl e \<Rightarrow> Sent (SectorTerminateFailed (Errorf ''getting sector info'' e))
     | Inr None \<Rightarrow>
         (case StateSectorPreCommitInfo (W 1) a (SectorNumber sector) [] of
            Inl _ \<Rightarrow> Sent (SectorTerminateFailed ''checking precommit presence'')
          | Inr (Some _) \<Rightarrow> Sent (SectorTerminateFailed ''sector was precommitted but not proven, remove instead of terminating'')
          | Inr None \<Rightarrow> Sent SectorRemove)
     | Inr (Some _) \<Rightarrow>
         (case minerSectorID (W 1) a (SectorNumber sector) of
            None \<Rightarrow> HPanic
          | Some sid \<Rightarrow>
              (case AddTermination (W 1) sid of
                 Inl e \<Rightarrow> Sent (SectorTerminateFailed (Errorf ''queueing termination'' e))
               | Inr (termCid, terminated) \<Rightarrow>
                   if terminated then Sent (SectorTerminating None)
                   else Sent (SectorTerminating (Some termCid)))))"

definition handleTerminateWait :: "world \<Rightarrow> SectorInfo \<Rightarrow> hres" where
  "handleTerminateWait w sector =
    (case TerminateMessage sector of
       None \<Rightarrow> Failed ''entered TerminateWait with nil TerminateMessage''
     | Some msg \<Rightarrow>
         (case StateWaitMsg w msg of
            Inl e \<Rightarrow> Sent (SectorTerminateFailed (Errorf ''waiting for terminate message to land on chain'' e))
          | Inr mw \<Rightarrow>
              if ExitCode (Receipt mw) \<noteq> exit_Ok w
              then Sent (SectorTerminateFailed ''terminate message failed to execute'')
              else Sent (SectorTerminated (Height mw))))"

text \<open>
  \<open>handleTerminateFinality\<close> polls the chain until the sector has left the winning-PoSt lookback.
  Each iteration looks at the next world; a run whose worlds are used up is still waiting
  (\<open>None\<close>). \<open>terminateFinality_toWait\<close> is the number of block delays an iteration sleeps.
\<close>

definition terminateFinality_toWait :: "world \<Rightarrow> int \<Rightarrow> epoch \<Rightarrow> SectorInfo \<Rightarrow> epoch" where
  "terminateFinality_toWait w nv ep sector =
    ep - TerminatedAt sector + WinningPoStSectorSetLookback w nv"

fun handleTerminateFinality :: "world list \<Rightarrow> SectorInfo \<Rightarrow> hres option" where
  "handleTerminateFinality [] sector = None"
| "handleTerminateFinality (w # ws) sector =
    (case ChainHead w of
       Inl e \<Rightarrow> Some (Sent (SectorTerminateFailed (Errorf ''getting chain head'' e)))
     | Inr (tok, ep) \<Rightarrow>
         (case StateNetworkVersion w tok of
            Inl e \<Rightarrow> Some (Sent (SectorTerminateFailed (Errorf ''getting network version'' e)))
          | Inr nv \<Rightarrow>
              if ep \<ge> TerminatedAt sector + WinningPoStSectorSetLookback w nv then Some (Sent SectorRemove)
              else if cancelled w then Some (Failed ''context canceled'')
              else handleTerminateFinality ws sector))"

definition handleRemoving :: "world \<Rightarrow> address \<Rightarrow> SectorInfo \<Rightarrow> hres" where
  "handleRemoving w a sector =
    (case minerSector w a (SectorType sector) (SectorNumber sector) of
       None \<Rightarrow> HPanic
     | Some ref \<Rightarrow>
         (case SealerRemove w ref of
            Some e \<Rightarrow> Sent (SectorRemoveFailed e)
          | None \<Rightarrow> Sent SectorRemoved))"

end
