(* ===== verification/Sector_Padding.thy ===== *)
theory Sector_Padding
  imports Sealing_Fillers "HOL-Library.Sublist"
begin

text \<open>
  The piece layout of a sector, \<^verbatim>\<open>extern/sector-storage/ffiwrapper/sealer_cgo.go\<close>:
  \<open>GetRequiredPadding\<close>, the zero pieces that bring the write position to the alignment of the next
  piece, and the piece list that \<open>GenerateUnsealedCID\<close> passes to the proof library. Shown are the
  alignment of every piece placed this way and that the list fills the sector exactly.
\<close>

unbundle bit_operations_syntax

section \<open>The code\<close>

fun padding_loop :: "nat \<Rightarrow> u64 \<Rightarrow> u64 list \<times> u64" where
  "padding_loop 0 toFill = ([], 0)"
| "padding_loop (Suc n) toFill =
    (let psize = push_bit (TrailingZeros64 toFill) 1 in
     case padding_loop n (toFill XOR psize) of (padPieces, s) \<Rightarrow> (psize # padPieces, psize + s))"

text \<open>The remainder by a zero piece length panics: \<open>None\<close>.\<close>

definition GetRequiredPadding :: "u64 \<Rightarrow> u64 \<Rightarrow> (u64 list \<times> u64) option" where
  "GetRequiredPadding oldLength newPieceLength =
    (if newPieceLength = 0 then None
     else let toFill = (- oldLength) mod newPieceLength
          in Some (padding_loop (OnesCount64 toFill) toFill))"

text \<open>
  \<open>GenerateUnsealedCID\<close>: the loop over the pieces with the running \<open>sum\<close>, and the whole list.
  \<open>zpc\<close> is \<open>zerocomm.ZeroPieceCommitment\<close>, \<open>unpadded\<close> is \<open>PaddedPieceSize.Unpadded\<close>,
  \<open>sectorSize\<close> and \<open>ffi\<close> are \<open>RegisteredSealProof.SectorSize\<close> and \<open>ffi.GenerateUnsealedCID\<close>.
\<close>

definition padTo :: "(u64 \<Rightarrow> cid) \<Rightarrow> (u64 \<Rightarrow> u64) \<Rightarrow> u64 list \<Rightarrow> PieceInfo list" where
  "padTo zpc unpadded pads = map (\<lambda>p. \<lparr>Size = p, PieceCID = zpc (unpadded p)\<rparr>) pads"

fun unsealed_loop ::
  "(u64 \<Rightarrow> cid) \<Rightarrow> (u64 \<Rightarrow> u64) \<Rightarrow> u64 \<Rightarrow> PieceInfo list \<Rightarrow> (PieceInfo list \<times> u64) option" where
  "unsealed_loop zpc unpadded s [] = Some ([], s)"
| "unsealed_loop zpc unpadded s (p # ps) =
    (case GetRequiredPadding s (Size p) of
       None \<Rightarrow> None
     | Some (pads, _) \<Rightarrow>
         (case unsealed_loop zpc unpadded (s + sum_list pads + Size p) ps of
            None \<Rightarrow> None
          | Some (out, s') \<Rightarrow> Some (padTo zpc unpadded pads @ p # out, s')))"

definition unsealed_pieces ::
  "(u64 \<Rightarrow> cid) \<Rightarrow> (u64 \<Rightarrow> u64) \<Rightarrow> u64 \<Rightarrow> PieceInfo list \<Rightarrow> PieceInfo list option" where
  "unsealed_pieces zpc unpadded pssize pieces =
    (if pieces = [] then Some [\<lparr>Size = pssize, PieceCID = zpc (unpadded pssize)\<rparr>]
     else case unsealed_loop zpc unpadded 0 pieces of
         None \<Rightarrow> None
       | Some (out, s) \<Rightarrow>
           (case GetRequiredPadding s pssize of
              None \<Rightarrow> None
            | Some (pads, _) \<Rightarrow> Some (out @ padTo zpc unpadded pads)))"

definition GenerateUnsealedCID ::
  "(int \<Rightarrow> gerr + u64) \<Rightarrow> (int \<Rightarrow> PieceInfo list \<Rightarrow> gerr + cid) \<Rightarrow> (u64 \<Rightarrow> cid) \<Rightarrow> (u64 \<Rightarrow> u64) \<Rightarrow>
     int \<Rightarrow> PieceInfo list \<Rightarrow> (gerr + cid) option" where
  "GenerateUnsealedCID sectorSize ffi zpc unpadded proofType pieces =
    (case sectorSize proofType of
       Inl e \<Rightarrow> Some (Inl e)
     | Inr ssize \<Rightarrow> map_option (ffi proofType) (unsealed_pieces zpc unpadded ssize pieces))"

section \<open>Alignment\<close>

text \<open>Pieces placed one after the other from an offset: each starts at a multiple of its size.\<close>

fun aligned_from :: "nat \<Rightarrow> nat list \<Rightarrow> bool" where
  "aligned_from off [] = True"
| "aligned_from off (s # ss) \<longleftrightarrow> s dvd off \<and> aligned_from (off + s) ss"

text \<open>The end of a layout in which each piece starts at the next multiple of its size.\<close>

definition round_up :: "nat \<Rightarrow> nat \<Rightarrow> nat" where
  "round_up off s = off + (s - off mod s) mod s"

fun layout_end :: "nat \<Rightarrow> nat list \<Rightarrow> nat" where
  "layout_end off [] = off"
| "layout_end off (s # ss) = layout_end (round_up off s + s) ss"

lemma padding_loop_eq:
  "n = length (set_bits w) \<Longrightarrow>
   padding_loop n w = (map (\<lambda>i. push_bit i 1) (set_bits w), \<Sum>i\<leftarrow>set_bits w. push_bit i 1)"
proof (induction n arbitrary: w)
  case 0
  then show ?case by simp
next
  case (Suc n)
  then obtain i "is" where e: "set_bits w = i # is" by (cases "set_bits w") auto
  note tz = set_bits_tz [OF e]
  have "padding_loop n (w XOR push_bit i 1) = (map (\<lambda>i. push_bit i 1) is, \<Sum>i\<leftarrow>is. push_bit i 1)"
    using Suc.IH [of "w XOR push_bit i 1"] Suc.prems e tz(2) by simp
  with e tz(1) show ?case by (simp add: Let_def)
qed

lemma sum_bits_word: "(\<Sum>i\<leftarrow>set_bits w. push_bit i 1) = w"
proof -
  have "(\<Sum>i\<leftarrow>is. push_bit i 1) = (of_nat (\<Sum>i\<leftarrow>is. 2 ^ i) :: u64)" for "is"
    by (induction "is") (simp_all add: push_bit_eq_mult)
  then show ?thesis by (simp add: sum_set_bits)
qed

lemma GetRequiredPadding_eq:
  "new \<noteq> 0 \<Longrightarrow> GetRequiredPadding old new =
    Some (map (\<lambda>i. push_bit i 1) (set_bits ((- old) mod new)), (- old) mod new)"
  by (simp add: GetRequiredPadding_def Let_def OnesCount64_def padding_loop_eq sum_bits_word
      del: push_bit_of_1)

lemma aligned_from_append [simp]:
  "aligned_from off (xs @ ys) \<longleftrightarrow> aligned_from off xs \<and> aligned_from (off + sum_list xs) ys"
  by (induction xs arbitrary: off) (auto simp: add.assoc)

lemma dvd_sum_list_map: "(\<And>x. x \<in> set xs \<Longrightarrow> (d::nat) dvd f x) \<Longrightarrow> d dvd (\<Sum>x\<leftarrow>xs. f x)"
  by (induction xs) auto

lemma aligned_ascending:
  assumes "sorted_wrt (<) is" and "2 ^ k dvd off + (\<Sum>i\<leftarrow>is. 2 ^ i)" and "\<forall>i\<in>set is. i \<le> k"
  shows "aligned_from off (map (\<lambda>i. 2 ^ i) is)"
  using assms
proof (induction "is" arbitrary: off)
  case (Cons i "is")
  have "(2::nat) ^ i dvd (\<Sum>j\<leftarrow>i # is. 2 ^ j)"
    using Cons.prems(1) by (intro dvd_sum_list_map le_imp_power_dvd) auto
  moreover have "(2::nat) ^ i dvd off + (\<Sum>j\<leftarrow>i # is. 2 ^ j)"
    using Cons.prems(3) by (intro dvd_trans [OF le_imp_power_dvd Cons.prems(2)]) simp
  ultimately have "2 ^ i dvd off" by (simp only: dvd_add_left_iff)
  with Cons show ?case by (simp add: add.assoc)
qed simp

lemma unat_neg: "unat (- w :: u64) = (2 ^ 64 - unat w) mod 2 ^ 64"
proof -
  have "- w = (of_nat (2 ^ 64 - unat w) :: u64)"
    using unat_lt_64 [of w] by (simp add: of_nat_diff)
  then show ?thesis by (simp add: unsigned_of_nat take_bit_eq_mod)
qed

lemma diff_mod_pow:
  assumes "(m::nat) dvd n" and "u \<le> n" and "0 < m"
  shows "(n - u) mod m = (m - u mod m) mod m"
proof -
  have "int ((n - u) mod m) = (int n mod int m - int u) mod int m"
    using assms(2) by (simp add: zmod_int of_nat_diff mod_simps)
  also have "\<dots> = (int m mod int m - int u) mod int m"
    using assms(1) by (simp flip: zmod_int)
  also have "\<dots> = int ((m - u mod m) mod m)"
    using assms(3) by (simp add: zmod_int of_nat_diff mod_simps less_imp_le)
  finally show ?thesis by simp
qed

lemma pow_word_less_64: "unat (w :: u64) = 2 ^ k \<Longrightarrow> k < 64"
  using unat_lt_64 [of w] by (simp only: power_strict_increasing_iff)

lemma unat_padding:
  fixes old new :: u64
  assumes "unat new = 2 ^ k"
  shows "unat ((- old) mod new) = (2 ^ k - unat old mod 2 ^ k) mod 2 ^ k"
proof -
  have d: "(2::nat) ^ k dvd 2 ^ 64"
    using pow_word_less_64 [OF assms] by (intro le_imp_power_dvd) simp
  have "unat ((- old) mod new) = (2 ^ 64 - unat old) mod 2 ^ 64 mod 2 ^ k"
    by (simp add: unat_mod assms unat_neg)
  also have "\<dots> = (2 ^ 64 - unat old) mod 2 ^ k"
    using d by (rule mod_mod_cancel)
  also have "\<dots> = (2 ^ k - unat old mod 2 ^ k) mod 2 ^ k"
    using d unat_lt_64 [of old] by (intro diff_mod_pow) simp_all
  finally show ?thesis .
qed

lemma round_up_dvd: "0 < s \<Longrightarrow> s dvd round_up off s"
proof -
  assume "0 < s"
  then have "(off + (s - off mod s) mod s) mod s = (off mod s + (s - off mod s)) mod s"
    by (simp only: mod_add_eq mod_add_right_eq mod_add_left_eq)
  moreover have "off mod s + (s - off mod s) = s" using \<open>0 < s\<close> by (simp add: less_imp_le)
  ultimately show ?thesis by (simp only: round_up_def dvd_eq_mod_eq_0 mod_self)
qed

lemma bits_below: "unat (w::u64) < 2 ^ k \<Longrightarrow> i \<in> set (set_bits w) \<Longrightarrow> i < k"
proof (rule ccontr)
  assume "unat w < 2 ^ k" "i \<in> set (set_bits w)" "\<not> i < k"
  then have "bit (take_bit k (unat w)) i" by (auto simp: bit_simps take_bit_nat_eq_self)
  with \<open>\<not> i < k\<close> show False by (simp add: bit_simps)
qed

text \<open>What the padding does, on natural numbers.\<close>

lemma GetRequiredPadding_layout:
  assumes new: "unat new = 2 ^ k"
  obtains pads s where "GetRequiredPadding old new = Some (pads, s)" "s = sum_list pads"
    "unat old + sum_list (map unat pads) = round_up (unat old) (2 ^ k)" 
    "unat s = sum_list (map unat pads)"
    "aligned_from (unat old) (map unat pads)"
    "\<forall>p\<in>set pads. \<exists>i<k. unat p = 2 ^ i"
proof -
  let ?t = "(- old) mod new" and ?pads = "map (\<lambda>i. push_bit i 1) (set_bits ((- old) mod new)) :: u64 list"
  have e: "GetRequiredPadding old new = Some (?pads, ?t)"
    using new by (intro GetRequiredPadding_eq) auto
  have mu: "map unat ?pads = map (\<lambda>i. 2 ^ i) (set_bits ?t)"
    by (simp add: comp_def unat_push_bit_1 del: push_bit_of_1)
  then have su: "sum_list (map unat ?pads) = unat ?t" by (simp only: sum_set_bits)
  have t: "unat ?t = (2 ^ k - unat old mod 2 ^ k) mod 2 ^ k" by (rule unat_padding [OF new])
  have lt: "\<forall>i\<in>set (set_bits ?t). i < k" using bits_below [of ?t k] t by auto
  have al: "aligned_from (unat old) (map unat ?pads)"
    unfolding mu using lt round_up_dvd [of "2 ^ k" "unat old"] t
    by (intro aligned_ascending [of _ k])
      (auto simp: round_up_def sum_set_bits sorted_wrt_filter)
  show thesis
    by (rule that [OF e sum_bits_word [symmetric] _ su [symmetric] al])
      (use lt su t in \<open>auto simp: round_up_def unat_push_bit_1 simp del: push_bit_of_1\<close>)
qed

lemma layout_end_ge: "off + sum_list ss \<le> layout_end off ss"
proof (induction ss arbitrary: off)
  case (Cons a ss)
  show ?case using Cons.IH [of "round_up off a + a"] by (simp add: round_up_def)
qed simp

lemma sizes_padTo [simp]: "map (\<lambda>p. unat (Size p)) (padTo zpc unpadded pads) = map unat pads"
  by (simp add: padTo_def)

lemma subseq_append_left: "subseq xs ys \<Longrightarrow> subseq xs (zs @ ys)"
  by (induction zs) auto

lemma unsealed_loop_layout:
  assumes "\<forall>p\<in>set pieces. \<exists>k. unat (Size p) = 2 ^ k"
    and "layout_end (unat s) (map (\<lambda>p. unat (Size p)) pieces) < 2 ^ 64"
  shows "\<exists>out s'. unsealed_loop zpc unpadded s pieces = Some (out, s') \<and>
    unat s' = layout_end (unat s) (map (\<lambda>p. unat (Size p)) pieces) \<and>
    unat s + (\<Sum>p\<leftarrow>out. unat (Size p)) = unat s' \<and>
    aligned_from (unat s) (map (\<lambda>p. unat (Size p)) out) \<and> subseq pieces out"
  using assms
proof (induction pieces arbitrary: s)
  case (Cons p ps)
  then obtain k where k: "unat (Size p) = 2 ^ k" by auto
  obtain pads t where g: "GetRequiredPadding s (Size p) = Some (pads, t)" "t = sum_list pads"
    "unat s + sum_list (map unat pads) = round_up (unat s) (2 ^ k)"
    "unat t = sum_list (map unat pads)" "aligned_from (unat s) (map unat pads)"
    by (rule GetRequiredPadding_layout [OF k])
  let ?s1 = "s + sum_list pads + Size p"
  have "round_up (unat s) (2 ^ k) + 2 ^ k < 2 ^ 64"
    using Cons.prems(2) k
      layout_end_ge [of "round_up (unat s) (2 ^ k) + 2 ^ k" "map (\<lambda>p. unat (Size p)) ps"]
    by simp
  then have s1: "unat ?s1 = round_up (unat s) (2 ^ k) + 2 ^ k"
    using g k by (simp add: unat_word_ariths)
  with Cons.prems k obtain out s' where
    IH: "unsealed_loop zpc unpadded ?s1 ps = Some (out, s')"
    "unat s' = layout_end (unat ?s1) (map (\<lambda>p. unat (Size p)) ps)"
    "unat ?s1 + (\<Sum>p\<leftarrow>out. unat (Size p)) = unat s'"
    "aligned_from (unat ?s1) (map (\<lambda>p. unat (Size p)) out)" "subseq ps out"
    using Cons.IH [of ?s1] by auto
  have "2 ^ k dvd round_up (unat s) (2 ^ k)" by (rule round_up_dvd) simp
  then show ?case using g IH s1 k
    by (auto simp: add.assoc subseq_append_left)
qed simp

section \<open>Properties\<close>

text \<open>
  C13. The padding in front of a piece whose size is a power of two: the pad pieces are smaller
  powers of two, each starts at a multiple of its own size, their sum is the second result, is
  smaller than the piece, and brings the position to a multiple of the piece's size.
\<close>

theorem GetRequiredPadding_aligned:
  assumes "unat newPieceLength = 2 ^ k"
  shows "\<exists>pads s. GetRequiredPadding oldLength newPieceLength = Some (pads, s) \<and>
    unat s = sum_list (map unat pads) \<and> unat s < 2 ^ k \<and> 2 ^ k dvd unat oldLength + unat s \<and>
    aligned_from (unat oldLength) (map unat pads) \<and> (\<forall>p\<in>set pads. \<exists>i<k. unat p = 2 ^ i)"
proof -
  obtain pads s where g: "GetRequiredPadding oldLength newPieceLength = Some (pads, s)"
    "unat oldLength + sum_list (map unat pads) = round_up (unat oldLength) (2 ^ k)"
    "unat s = sum_list (map unat pads)" "aligned_from (unat oldLength) (map unat pads)"
    "\<forall>p\<in>set pads. \<exists>i<k. unat p = 2 ^ i"
    by (rule GetRequiredPadding_layout [OF assms])
  have "2 ^ k dvd round_up (unat oldLength) (2 ^ k)" by (rule round_up_dvd) simp
  moreover have "sum_list (map unat pads) < 2 ^ k" using g(2) by (simp add: round_up_def)
  ultimately show ?thesis using g by auto
qed

theorem GetRequiredPadding_aligned_witness:
  "GetRequiredPadding 640 1024 = Some ([128, 256], 384) \<and> aligned_from 640 [128, 256]"
proof -
  have e: "GetRequiredPadding 640 1024 = Some ([128, 256], 384)" by code_simp
  from GetRequiredPadding_aligned [of "1024" 10 "640"] e show ?thesis by simp
qed

text \<open>
  C14. \<open>GenerateUnsealedCID\<close> hands the proof library a list of pieces that fills the sector
  exactly, in which every piece, given or added, starts at a multiple of its size and the given
  pieces appear in order, whenever the given sizes are powers of two whose aligned layout fits
  in the sector.
\<close>

theorem unsealed_pieces_fill:
  assumes "unat pssize = 2 ^ m" and "\<forall>p\<in>set pieces. \<exists>k. unat (Size p) = 2 ^ k"
    and "layout_end 0 (map (\<lambda>p. unat (Size p)) pieces) \<le> 2 ^ m"
  shows "\<exists>out. unsealed_pieces zpc unpadded pssize pieces = Some out \<and>
    (\<Sum>p\<leftarrow>out. unat (Size p)) = unat pssize \<and>
    aligned_from 0 (map (\<lambda>p. unat (Size p)) out) \<and> subseq pieces out"
proof (cases "pieces = []")
  case False
  have "layout_end 0 (map (\<lambda>p. unat (Size p)) pieces) < 2 ^ 64"
    using assms(1,3) unat_lt_64 [of pssize] by simp
  with unsealed_loop_layout [OF assms(2), of 0 zpc unpadded] obtain out s where
    o: "unsealed_loop zpc unpadded 0 pieces = Some (out, s)"
    "unat s = layout_end 0 (map (\<lambda>p. unat (Size p)) pieces)"
    "(\<Sum>p\<leftarrow>out. unat (Size p)) = unat s"
    "aligned_from 0 (map (\<lambda>p. unat (Size p)) out)" "subseq pieces out" by auto
  obtain pads t where g: "GetRequiredPadding s pssize = Some (pads, t)"
    "unat s + sum_list (map unat pads) = round_up (unat s) (2 ^ m)"
    "aligned_from (unat s) (map unat pads)"
    by (rule GetRequiredPadding_layout [OF assms(1)])
  have "sum_list (map (\<lambda>p. unat (Size p)) pieces) \<le> unat s"
    using layout_end_ge [of 0] o(2) by simp
  moreover obtain p where p: "p \<in> set pieces" "0 < unat (Size p)"
    using False assms(2) by (cases pieces) force+
  moreover have "unat (Size p) \<le> (\<Sum>p\<leftarrow>pieces. unat (Size p))"
    using p(1) by (intro member_le_sum_list) auto
  ultimately have "0 < unat s" by simp
  with o(2) assms(3) have "round_up (unat s) (2 ^ m) = 2 ^ m"
    by (cases "unat s = 2 ^ m") (auto simp: round_up_def)
  with o g False assms(1) show ?thesis
    by (simp add: unsealed_pieces_def subseq_rev_drop_many)
qed (use assms in \<open>simp add: unsealed_pieces_def\<close>)

theorem unsealed_pieces_fill_witness:
  "case unsealed_pieces (\<lambda>s. ''zero'') (\<lambda>s. s - s div 128) 2048
      [\<lparr>Size = 128, PieceCID = ''a''\<rparr>, \<lparr>Size = 512, PieceCID = ''b''\<rparr>] of
     None \<Rightarrow> False
   | Some out \<Rightarrow> map Size out = [128, 128, 256, 512, 1024] \<and> (\<Sum>p\<leftarrow>out. unat (Size p)) = 2048"
proof -
  let ?ps = "[\<lparr>Size = 128, PieceCID = ''a''\<rparr>, \<lparr>Size = 512, PieceCID = ''b''\<rparr>]"
  have e: "map_option (map Size) (unsealed_pieces (\<lambda>s. ''zero'') (\<lambda>s. s - s div 128) 2048 ?ps) =
    Some [128, 128, 256, 512, 1024]" by code_simp
  have "\<exists>out. unsealed_pieces (\<lambda>s. ''zero'') (\<lambda>s. s - s div 128) 2048 ?ps = Some out \<and>
    (\<Sum>p\<leftarrow>out. unat (Size p)) = unat (2048 :: u64) \<and>
    aligned_from 0 (map (\<lambda>p. unat (Size p)) out) \<and> subseq ?ps out"
    by (rule unsealed_pieces_fill [of _ 11])
      (auto simp: round_up_def intro: exI [of _ 7] exI [of _ 9])
  with e show ?thesis by auto
qed

end
