(* ===== verification/Sealing_Input.thy ===== *)
theory Sealing_Input
  imports Sealing_Handlers Sector_Padding "HOL-Library.Multiset"
begin

text \<open>
  The deal input of the sealing component: \<^verbatim>\<open>extern/storage-sealing/input.go\<close>, \<^verbatim>\<open>garbage.go\<close> and the
  parts of \<^verbatim>\<open>sealing.go\<close> they use. Client deals wait as pending pieces, \<open>updateInput\<close> matches them
  with the sectors that are open for deals, and \<open>handleAddPiece\<close> writes the pieces assigned to a
  sector into it.

  Go iterates over a map in an arbitrary order, and \<^verbatim>\<open>sort.Slice\<close> puts equal elements in any order:
  the orders in which \<open>updateInput\<close> and \<open>checkSealingBusy\<close> see the pending pieces and (for each piece)
  the open sectors, and the two sorts, are the record \<open>input_order\<close>. The configuration and the counts of
  sectors are not protected by \<open>inputLk\<close>: every function that reads them is given what it reads (\<open>limits\<close>), and
  two reads may differ. Events sent to sectors are returned as a list of sector number and event; the number
  given to \<open>SendEvent\<close> tells apart the sends of one operation.
\<close>

section \<open>Small helpers\<close>

definition PreferredSealProofTypeFromWindowPoStType :: "world \<Rightarrow> int \<Rightarrow> int \<Rightarrow> gerr + int" where
  "PreferredSealProofTypeFromWindowPoStType w nver prf =
    (if prf = WindowPoStV1 w S2KiB then Inr (SealV1_1 w S2KiB)
     else if prf = WindowPoStV1 w S8MiB then Inr (SealV1_1 w S8MiB)
     else if prf = WindowPoStV1 w S512MiB then Inr (SealV1_1 w S512MiB)
     else if prf = WindowPoStV1 w S32GiB then Inr (SealV1_1 w S32GiB)
     else if prf = WindowPoStV1 w S64GiB then Inr (SealV1_1 w S64GiB)
     else Inl ''unrecognized window post type'')"

definition currentSealProof :: "world \<Rightarrow> address \<Rightarrow> gerr + int" where
  "currentSealProof w a =
    (case StateMinerInfo w a [] of
       Inl e \<Rightarrow> Inl e
     | Inr mi \<Rightarrow>
         (case StateNetworkVersion w [] of
            Inl e \<Rightarrow> Inl e
          | Inr ver \<Rightarrow> PreferredSealProofTypeFromWindowPoStType w ver (WindowPoStProofType w mi)))"

definition getDealPerSectorLimit :: "u64 \<Rightarrow> nat" where
  "getDealPerSectorLimit sz = (if sz < push_bit 30 64 then 256 else 512)"

text \<open>\<open>ErrTooManySectorsSealing\<close> is a sentinel compared with \<open>xerrors.Is\<close>.\<close>

datatype input_err = ErrTooManySectorsSealing | InputErr gerr

section \<open>Opening a sector for deals\<close>

datatype start_res = Started | NotStarted | StartFailed gerr

definition maybeStartSealing ::
  "world \<Rightarrow> u64 \<times> u64 \<Rightarrow> SectorInfo \<Rightarrow> u64 \<Rightarrow> input_state \<Rightarrow> start_res \<times> input_state" where
  "maybeStartSealing w sid sector used m =
    (if sectorTimers m sid = Some False then (Started, m)
     else
       let m1 = (if sectorTimers m sid = None then m
                 else m\<lparr>sectorTimers := (sectorTimers m)(sid \<mapsto> False)\<rparr>) in
       case SectorSize w (SectorType sector) of
         Inl _ \<Rightarrow> (StartFailed ''getting sector size'', m1)
       | Inr ssize \<Rightarrow>
           if length (dealIDs sector) \<ge> getDealPerSectorLimit ssize then (Started, m1)
           else if Padded w used = ssize then (Started, m1)
           else if CreationTime sector \<noteq> 0 then
             (case getConfig w of
                Inl e \<Rightarrow> (StartFailed (Errorf ''getting storage config'' e), m1)
              | Inr cfg \<Rightarrow>
                  let sealTime = CreationTime sector * 10 ^ 9 + WaitDealsDelay cfg in
                  if now w > sealTime then (Started, m1)
                  else (NotStarted, m1\<lparr>sectorTimers := (sectorTimers m1)(sid \<mapsto> True)\<rparr>))
           else (NotStarted, m1))"

text \<open>The function of the timer: it sends \<open>SectorStartPacking\<close> to the sector.\<close>

definition timer_fires :: "u64 \<times> u64 \<Rightarrow> input_state \<Rightarrow> input_state \<times> (u64 \<times> event) list" where
  "timer_fires sid m =
    (if sectorTimers m sid = Some True
     then (m\<lparr>sectorTimers := (sectorTimers m)(sid \<mapsto> False)\<rparr>, [(snd sid, SectorStartPacking)])
     else (m, []))"

section \<open>Creating sectors\<close>

text \<open>One read of the configuration and of the two counters, each of which takes a lock of its own.\<close>

record limits =
  lim_config :: "gerr + Config"
  lim_sealing :: SectorStats
  lim_staging :: SectorStats

text \<open>A panic of \<open>minerSector\<close> is the outer \<open>None\<close>.\<close>

definition tryCreateDealSector ::
  "world \<Rightarrow> address \<Rightarrow> limits \<Rightarrow> int \<Rightarrow> (input_err option \<times> (u64 \<times> event) list) option" where
  "tryCreateDealSector w a lim sp =
    (case lim_config lim of
       Inl e \<Rightarrow> Some (Some (InputErr (Errorf ''getting storage config'' e)), [])
     | Inr cfg \<Rightarrow>
         if MaxSealingSectorsForDeals cfg > 0 \<and> curSealing (lim_sealing lim) \<ge> MaxSealingSectorsForDeals cfg
         then Some (Some ErrTooManySectorsSealing, [])
         else if MaxWaitDealsSectors cfg > 0 \<and> curStaging (lim_staging lim) \<ge> MaxWaitDealsSectors cfg
         then Some (Some ErrTooManySectorsSealing, [])
         else (case NextSectorNumber w of
             Inl e \<Rightarrow> Some (Some (InputErr (Errorf ''getting sector number'' e)), [])
           | Inr num \<Rightarrow>
               (case minerSector w a sp num of
                  None \<Rightarrow> None
                | Some ref \<Rightarrow>
                    (case NewSector w ref of
                       Some e \<Rightarrow> Some (Some (InputErr (Errorf ''initializing sector'' e)), [])
                     | None \<Rightarrow>
                         (case SendEvent w 0 num of
                            Some e \<Rightarrow> Some (Some (InputErr e), [])
                          | None \<Rightarrow> Some (None, [(num, SectorStart num sp)]))))))"

definition PledgeSector ::
  "world \<Rightarrow> address \<Rightarrow> SectorStats \<Rightarrow> (gerr option \<times> (u64 \<times> event) list) option" where
  "PledgeSector w a stats =
    (case getConfig w of
       Inl e \<Rightarrow> Some (Some (Errorf ''getting config'' e), [])
     | Inr cfg \<Rightarrow>
         if MaxSealingSectors cfg > 0 \<and> curSealing stats \<ge> MaxSealingSectors cfg
         then Some (Some ''too many sectors sealing'', [])
         else (case currentSealProof w a of
             Inl e \<Rightarrow> Some (Some (Errorf ''getting seal proof type'' e), [])
           | Inr spt \<Rightarrow>
               (case NextSectorNumber w of
                  Inl e \<Rightarrow> Some (Some (Errorf ''generating sector number'' e), [])
                | Inr num \<Rightarrow>
                    (case minerSector w a spt num of
                       None \<Rightarrow> None
                     | Some ref \<Rightarrow>
                         (case NewSector w ref of
                            Some e \<Rightarrow> Some (Some (Errorf ''notifying sealer of the new sector'' e), [])
                          | None \<Rightarrow>
                              (case SendEvent w 0 num of
                                 Some e \<Rightarrow> Some (Some e, [])
                               | None \<Rightarrow> Some (None, [(num, SectorStartCC num spt)])))))))"

section \<open>Matching pieces with open sectors\<close>

record mtch =
  mt_sector :: "u64 \<times> u64"
  mt_deal :: cid
  mt_size :: u64
  mt_padding :: u64

record input_order =
  pend_order :: "cid list"
  open_order :: "cid \<Rightarrow> (u64 \<times> u64) list"
  sort_matches :: "mtch list \<Rightarrow> mtch list"
  busy_pend :: "cid list"
  busy_open :: "(u64 \<times> u64) list"
  sort_avails :: "(u64 \<times> u64 \<Rightarrow> u64) \<Rightarrow> (u64 \<times> u64) list \<Rightarrow> (u64 \<times> u64) list"

text \<open>The two nested loops; the remainder by a zero piece size panics.\<close>

fun match_sectors ::
  "u64 \<Rightarrow> (u64 \<times> u64 \<rightharpoonup> openSector) \<Rightarrow> cid \<Rightarrow> u64 \<Rightarrow> (u64 \<times> u64) list \<Rightarrow> mtch list option" where
  "match_sectors space opens c sz [] = Some []"
| "match_sectors space opens c sz (sid # sids) =
    (case opens sid of
       None \<Rightarrow> match_sectors space opens c sz sids
     | Some os \<Rightarrow>
         let avail = space - os_used os in
         if sz \<le> avail then
           if sz = 0 then None
           else map_option (Cons \<lparr>mt_sector = sid, mt_deal = c, mt_size = sz, mt_padding = avail mod sz\<rparr>)
                  (match_sectors space opens c sz sids)
         else match_sectors space opens c sz sids)"

fun match_pieces :: "u64 \<Rightarrow> input_order \<Rightarrow> input_state \<Rightarrow> cid list \<Rightarrow> (mtch list \<times> cid list) option" where
  "match_pieces space ord m [] = Some ([], [])"
| "match_pieces space ord m (c # cs) =
    (case pendingPieces m c of
       None \<Rightarrow> match_pieces space ord m cs
     | Some piece \<Rightarrow>
         if pp_assigned piece then match_pieces space ord m cs
         else (case (match_sectors space (openSectors m) c (pp_size piece) (open_order ord c),
                     match_pieces space ord m cs) of
             (Some ms, Some (mts, toAssign)) \<Rightarrow> Some (ms @ mts, c # toAssign)
           | _ \<Rightarrow> None))"

text \<open>The comparison of the sort; \<^verbatim>\<open>sort.Slice\<close> gives a permutation in which no element is less than an earlier one.\<close>

definition match_less :: "mtch \<Rightarrow> mtch \<Rightarrow> bool" where
  "match_less x y =
    (if mt_padding x \<noteq> mt_padding y then mt_padding x < mt_padding y
     else if mt_size x \<noteq> mt_size y then mt_size x < mt_size y
     else snd (mt_sector x) < snd (mt_sector y))"

definition slice_sort :: "('a \<Rightarrow> 'a \<Rightarrow> bool) \<Rightarrow> ('a list \<Rightarrow> 'a list) \<Rightarrow> bool" where
  "slice_sort lt f \<longleftrightarrow> (\<forall>xs. mset (f xs) = mset xs \<and> sorted_wrt (\<lambda>x y. \<not> lt y x) (f xs))"

text \<open>
  Assigning: \<open>maybeAccept\<close> appends the piece to the sector's assigned pieces and sends it
  \<open>SectorAddPiece\<close>. A piece that is not pending would be a nil dereference.
\<close>

definition maybeAccept :: "world \<Rightarrow> nat \<Rightarrow> u64 \<times> u64 \<Rightarrow> cid \<Rightarrow> input_state \<Rightarrow> input_state \<times> gerr option" where
  "maybeAccept w i sid c m =
    (m\<lparr>assignedPieces := (assignedPieces m)
         (sid \<mapsto> (case assignedPieces m sid of None \<Rightarrow> [] | Some cs \<Rightarrow> cs) @ [c])\<rparr>,
     SendEvent w i (snd sid))"

fun assign_loop ::
  "world \<Rightarrow> mtch list \<Rightarrow> input_state \<Rightarrow> cid list \<Rightarrow>
     (input_state \<times> cid list \<times> reply list \<times> (u64 \<times> event) list) option" where
  "assign_loop w [] m toAssign = Some (m, toAssign, [], [])"
| "assign_loop w (mt # mts) m toAssign =
    (case pendingPieces m (mt_deal mt) of
       None \<Rightarrow> None
     | Some pp \<Rightarrow>
         if pp_assigned pp then assign_loop w mts m toAssign
         else if openSectors m (mt_sector mt) = None then assign_loop w mts m toAssign
         else (case maybeAccept w (Suc (length mts)) (mt_sector mt) (mt_deal mt) m of
             (m1, err) \<Rightarrow>
               let m2 = m1\<lparr>pendingPieces := (pendingPieces m1)(mt_deal mt \<mapsto> pp\<lparr>pp_assigned := True\<rparr>)\<rparr>;
                   toAssign2 = removeAll (mt_deal mt) toAssign
               in case err of
                    Some e \<Rightarrow>
                      map_option (\<lambda>(m', ta, rs, es). (m', ta, (mt_deal mt, snd (mt_sector mt), 0, Some e) # rs, es))
                        (assign_loop w mts m2 toAssign2)
                  | None \<Rightarrow>
                      map_option (\<lambda>(m', ta, rs, es). (m', ta, rs, (snd (mt_sector mt), SectorAddPiece) # es))
                        (assign_loop w mts (m2\<lparr>openSectors := (openSectors m2)(mt_sector mt := None)\<rparr>) toAssign2)))"

record update_result =
  ui_state :: input_state
  ui_err :: "input_err option"
  ui_replies :: "reply list"
  ui_sent :: "(u64 \<times> event) list"

definition updateInput ::
  "world \<Rightarrow> address \<Rightarrow> limits \<Rightarrow> int \<Rightarrow> input_order \<Rightarrow> input_state \<Rightarrow> update_result option" where
  "updateInput w a lim sp ord m =
    (case SectorSize w sp of
       Inl e \<Rightarrow> Some \<lparr>ui_state = m, ui_err = Some (InputErr e), ui_replies = [], ui_sent = []\<rparr>
     | Inr ssize \<Rightarrow>
         (case match_pieces (Unpadded w ssize) ord m (pend_order ord) of
            None \<Rightarrow> None
          | Some (matches, toAssign) \<Rightarrow>
              (case assign_loop w (sort_matches ord matches) m toAssign of
                 None \<Rightarrow> None
               | Some (m1, toAssign1, replies, sent) \<Rightarrow>
                   if toAssign1 \<noteq> [] then
                     (case tryCreateDealSector w a lim sp of
                        None \<Rightarrow> None
                      | Some (err, created) \<Rightarrow>
                          Some \<lparr>ui_state = m1, ui_err = err, ui_replies = replies, ui_sent = sent @ created\<rparr>)
                   else Some \<lparr>ui_state = m1, ui_err = None, ui_replies = replies, ui_sent = sent\<rparr>)))"

definition handleWaitDeals ::
  "world \<Rightarrow> address \<Rightarrow> limits \<Rightarrow> input_order \<Rightarrow> input_state \<Rightarrow> SectorInfo \<Rightarrow>
     hres \<times> input_state \<times> reply list \<times> (u64 \<times> event) list" where
  "handleWaitDeals w a lim ord m sector =
    (let used = sum_list (existingPieceSizes (Unpadded w) sector) in
     case minerSectorID w a (SectorNumber sector) of
       None \<Rightarrow> (HPanic, m, [], [])
     | Some sid \<Rightarrow>
         (case maybeStartSealing w sid sector used m of
            (Started, m1) \<Rightarrow>
              (Sent SectorStartPacking, m1\<lparr>openSectors := (openSectors m1)(sid := None)\<rparr>, [], [])
          | (StartFailed e, m1) \<Rightarrow>
              (Failed e, m1\<lparr>openSectors := (openSectors m1)(sid := None)\<rparr>, [], [])
          | (NotStarted, m1) \<Rightarrow>
              (case updateInput w a lim (SectorType sector) ord
                      (m1\<lparr>openSectors := (openSectors m1)(sid \<mapsto> \<lparr>os_used = used\<rparr>)\<rparr>) of
                 None \<Rightarrow> (HPanic, m1, [], [])
               | Some u \<Rightarrow> (Stop, ui_state u, ui_replies u, ui_sent u))))"

section \<open>Accepting a deal\<close>

text \<open>
  \<open>checkSealingBusy\<close>: when the limits are reached, the deal is refused unless every waiting
  piece and then the new one fit into the open sectors. \<open>adjust\<close> sorts the sectors by the
  space they have left, by \<open>sort_avails\<close>.
\<close>

fun place_pending ::
  "input_order \<Rightarrow> input_state \<Rightarrow> cid list \<Rightarrow> (u64 \<times> u64 \<Rightarrow> u64) \<Rightarrow> (u64 \<times> u64) list \<Rightarrow> nat \<Rightarrow>
     nat \<times> (u64 \<times> u64 \<Rightarrow> u64) \<times> (u64 \<times> u64) list" where
  "place_pending ord m [] av ids miss = (miss, av, ids)"
| "place_pending ord m (c # cs) av ids miss =
    (case pendingPieces m c of
       None \<Rightarrow> place_pending ord m cs av ids miss
     | Some piece \<Rightarrow>
         if pp_assigned piece then place_pending ord m cs av ids miss
         else (case List.find (\<lambda>sid. pp_size piece \<le> av sid) ids of
             Some sid \<Rightarrow>
               let av' = av(sid := av sid - pp_size piece) in place_pending ord m cs av' (sort_avails ord av' ids) miss
           | None \<Rightarrow> place_pending ord m cs av ids (miss + 1)))"

definition checkSealingBusy ::
  "world \<Rightarrow> limits \<Rightarrow> int \<Rightarrow> u64 \<Rightarrow> input_order \<Rightarrow> input_state \<Rightarrow> gerr + bool" where
  "checkSealingBusy w lim sp need ord m =
    (case lim_config lim of
       Inl e \<Rightarrow> Inl (Errorf ''getting storage config'' e)
     | Inr cfg \<Rightarrow>
         if (MaxSealingSectorsForDeals cfg > 0 \<and> curSealing (lim_sealing lim) \<ge> MaxSealingSectorsForDeals cfg) \<or>
            (MaxWaitDealsSectors cfg > 0 \<and> curStaging (lim_staging lim) \<ge> MaxWaitDealsSectors cfg) then
           (case SectorSize w sp of
              Inl e \<Rightarrow> Inl e
            | Inr ssize \<Rightarrow>
                let av = (\<lambda>sid. case openSectors m sid of None \<Rightarrow> 0 | Some os \<Rightarrow> Unpadded w ssize - os_used os) in
                (case place_pending ord m (busy_pend ord) av (sort_avails ord av (busy_open ord)) 0 of
                   (miss, av', ids) \<Rightarrow>
                     if miss > 0 then Inr True
                     else if \<exists>sid \<in> set ids. need \<le> av' sid then Inr False
                     else Inr True))
         else Inr False)"

record add_result =
  ap_state :: input_state
  ap_err :: "input_err option"
  ap_replies :: "reply list"
  ap_sent :: "(u64 \<times> event) list"

text \<open>
  \<open>AddPieceToAnySector\<close>: an error at once, or the piece is registered and \<open>updateInput\<close> runs;
  the caller then waits for the reply to its piece. When no sector can be created because the limits
  are reached the piece is withdrawn, also if it has just been assigned, and the caller gets that error
  as its reply. \<open>lim\<close> is what \<open>checkSealingBusy\<close> reads, \<open>lim'\<close> what \<open>tryCreateDealSector\<close> reads later.
\<close>

definition register_piece ::
  "world \<Rightarrow> address \<Rightarrow> limits \<Rightarrow> int \<Rightarrow> cid \<Rightarrow> u64 \<Rightarrow> DealInfo \<Rightarrow> input_order \<Rightarrow> input_state \<Rightarrow>
     add_result option" where
  "register_piece w a lim' sp c sz deal ord m =
    (let m1 = m\<lparr>pendingPieces := (pendingPieces m)
                  (c \<mapsto> \<lparr>pp_size = sz, pp_deal = deal, pp_assigned = False\<rparr>)\<rparr> in
     case updateInput w a lim' sp ord m1 of
       None \<Rightarrow> None
     | Some u \<Rightarrow>
         if ui_err u = Some ErrTooManySectorsSealing
         then Some \<lparr>ap_state = (ui_state u)\<lparr>pendingPieces := (pendingPieces (ui_state u))(c := None)\<rparr>,
                    ap_err = None,
                    ap_replies = ui_replies u @ [(c, 0, 0, Some ''too many sectors sealing'')],
                    ap_sent = ui_sent u\<rparr>
         else Some \<lparr>ap_state = ui_state u, ap_err = None, ap_replies = ui_replies u, ap_sent = ui_sent u\<rparr>)"

definition AddPieceToAnySector ::
  "world \<Rightarrow> address \<Rightarrow> limits \<Rightarrow> limits \<Rightarrow> u64 \<Rightarrow> DealInfo \<Rightarrow> input_order \<Rightarrow> input_state \<Rightarrow>
     add_result option" where
  "AddPieceToAnySector w a lim lim' sz deal ord m =
    (let refuse = (\<lambda>e. Some \<lparr>ap_state = m, ap_err = Some e, ap_replies = [], ap_sent = []\<rparr>) in
     if PaddedSize w sz \<noteq> sz then refuse (InputErr ''cannot allocate unpadded piece'')
     else case currentSealProof w a of
         Inl e \<Rightarrow> refuse (InputErr (Errorf ''getting current seal proof type'' e))
       | Inr sp \<Rightarrow>
           (case SectorSize w sp of
              Inl e \<Rightarrow> refuse (InputErr e)
            | Inr ssize \<Rightarrow>
                if sz > Unpadded w ssize then refuse (InputErr ''piece cannot fit into a sector'')
                else (case ProposalCid w deal of
                    Inl e \<Rightarrow> refuse (InputErr (Errorf ''getting proposal CID'' e))
                  | Inr c \<Rightarrow>
                      if pendingPieces m c \<noteq> None then refuse (InputErr ''piece for deal already pending'')
                      else (case checkSealingBusy w lim sp sz ord m of
                          Inl e \<Rightarrow> refuse (InputErr (Errorf ''failed to check sealing busy'' e))
                        | Inr True \<Rightarrow> refuse ErrTooManySectorsSealing
                        | Inr False \<Rightarrow> register_piece w a lim' sp c sz deal ord m))))"

section \<open>Writing the assigned pieces\<close>

datatype add_out = Added "Piece list" | AddFailed gerr | AddError gerr | AddPanic

text \<open>Writing the pad pieces one by one.\<close>

fun write_pads :: "world \<Rightarrow> (u64 \<times> u64) \<times> int \<Rightarrow> u64 list \<Rightarrow> u64 list \<Rightarrow> gerr + u64 list \<times> Piece list" where
  "write_pads w ref sizes [] = Inr (sizes, [])"
| "write_pads w ref sizes (p # ps) =
    (case SealerAddPiece w (Some DealSectorPriority) ref sizes (Unpadded w p) of
       Inl e \<Rightarrow> Inl (Errorf ''writing padding piece'' e)
     | Inr ppi \<Rightarrow>
         (case write_pads w ref (sizes @ [Unpadded w p]) ps of
            Inl e \<Rightarrow> Inl e
          | Inr (sizes', out) \<Rightarrow> Inr (sizes', \<lparr>p_Piece = ppi, p_DealInfo = None\<rparr> # out)))"

text \<open>
  The loop over the assigned pieces: \<open>nd\<close> deals in the sector before, \<open>i\<close> pieces seen,
  \<open>offset\<close> and \<open>sizes\<close> as in the code.
\<close>

fun addPiece_loop ::
  "world \<Rightarrow> (u64 \<times> u64) \<times> int \<Rightarrow> u64 \<Rightarrow> nat \<Rightarrow> (cid \<rightharpoonup> pendingPiece) \<Rightarrow> u64 \<Rightarrow> nat \<Rightarrow> u64 list \<Rightarrow>
     Piece list \<Rightarrow> cid list \<Rightarrow> add_out \<times> reply list" where
  "addPiece_loop w ref ssize nd pend offset i sizes new [] = (Added new, [])"
| "addPiece_loop w ref ssize nd pend offset i sizes new (c # cs) =
    (let num = snd (fst ref) in
     case pend c of
       None \<Rightarrow> (AddError ''piece assigned to sector not found'', [])
     | Some deal \<Rightarrow>
         if nd + (i + 1) > getDealPerSectorLimit ssize then
           (case addPiece_loop w ref ssize nd pend offset (i + 1) sizes new cs of
              (r, rs) \<Rightarrow> (r, (c, num, offset, Some ''too many deals assigned to sector'') # rs))
         else
           (case GetRequiredPadding (Padded w offset) (Padded w (pp_size deal)) of
              None \<Rightarrow> (AddPanic, [])
            | Some (pads, padLength) \<Rightarrow>
                if Padded w offset + padLength + Padded w (pp_size deal) > ssize then
                  (case addPiece_loop w ref ssize nd pend offset (i + 1) sizes new cs of
                     (r, rs) \<Rightarrow> (r, (c, num, offset, Some ''piece assigned to sector with not enough space'') # rs))
                else
                  let offset1 = offset + Unpadded w padLength in
                  case write_pads w ref sizes pads of
                    Inl e \<Rightarrow> (AddFailed e, [(c, num, offset1, Some e)])
                  | Inr (sizes1, padPieces) \<Rightarrow>
                      (case SealerAddPiece w (Some DealSectorPriority) ref sizes1 (pp_size deal) of
                         Inl e \<Rightarrow>
                           (AddFailed (Errorf ''writing piece'' e),
                            [(c, num, offset1, Some (Errorf ''writing piece'' e))])
                       | Inr ppi \<Rightarrow>
                           (case addPiece_loop w ref ssize nd pend (offset1 + pp_size deal) (i + 1)
                                   (sizes1 @ [pp_size deal])
                                   (new @ padPieces @ [\<lparr>p_Piece = ppi, p_DealInfo = Some (pp_deal deal)\<rparr>]) cs of
                              (r, rs) \<Rightarrow> (r, (c, num, offset1, None) # rs)))))"

definition handleAddPiece ::
  "world \<Rightarrow> address \<Rightarrow> input_state \<Rightarrow> SectorInfo \<Rightarrow> hres \<times> input_state \<times> reply list" where
  "handleAddPiece w a m sector =
    (case SectorSize w (SectorType sector) of
       Inl e \<Rightarrow> (Failed e, m, [])
     | Inr ssize \<Rightarrow>
         (case minerSector w a (SectorType sector) (SectorNumber sector) of
            None \<Rightarrow> (HPanic, m, [])
          | Some ref \<Rightarrow>
              (case assignedPieces m (fst ref) of
                 None \<Rightarrow> (Sent (SectorPieceAdded []), m, [])
               | Some pending \<Rightarrow>
                   let m1 = m\<lparr>assignedPieces := (assignedPieces m)(fst ref := None)\<rparr>;
                       sizes = existingPieceSizes (Unpadded w) sector
                   in case addPiece_loop w ref ssize (length (dealIDs sector)) (pendingPieces m1)
                             (sum_list sizes) 0 sizes [] pending of
                        (Added new, rs) \<Rightarrow> (Sent (SectorPieceAdded new), m1, rs)
                      | (AddFailed e, rs) \<Rightarrow> (Sent (SectorAddPieceFailed e), m1, rs)
                      | (AddError e, rs) \<Rightarrow> (Failed e, m1, rs)
                      | (AddPanic, rs) \<Rightarrow> (HPanic, m1, rs))))"

definition handleAddPieceFailed :: "SectorInfo \<Rightarrow> hres" where
  "handleAddPieceFailed sector = Stop"

end
