(* ===== verification/Sealing_Invariant.thy ===== *)
theory Sealing_Invariant
  imports Sealing_FSM
begin

text \<open>
  The invariant of a sector and its preservation by the planners of \<^verbatim>\<open>fsm.go\<close>.

  Every state requires some facts of the sector (\<open>needs\<close>): commitments computed, messages sent,
  a bounded failure counter, a return state set. Every event establishes facts (\<open>gives\<close>) when it
  is acceptable (\<open>ok_event\<close>). The planner table is checked edge by edge: the target of a
  transition needs nothing that the event does not give and the source state does not already
  guarantee by a stable fact (\<open>fsmPlanners_edges\<close>). Preservation of the invariant by every
  planner follows (\<open>planner_inv\<close>).
\<close>

section \<open>What a state requires\<close>

datatype fact = Sealed | HasPreCommit | HasCommitMsg | HasFaultMsg | P2Low | ReturnOk

definition sealed :: "SectorInfo \<Rightarrow> bool" where
  "sealed si \<longleftrightarrow> CommR si \<noteq> None \<and> CommD si \<noteq> None"

definition valid_return :: "ReturnState \<Rightarrow> bool" where
  "valid_return r \<longleftrightarrow> r \<in> {RetPreCommit1, RetPreCommitting, RetPreCommitFailed, RetCommitFailed}"

definition holds :: "fact \<Rightarrow> SectorInfo \<Rightarrow> bool" where
  "holds f si \<longleftrightarrow> (case f of
      Sealed \<Rightarrow> sealed si
    | HasPreCommit \<Rightarrow> PreCommitMessage si \<noteq> None
    | HasCommitMsg \<Rightarrow> CommitMessage si \<noteq> None
    | HasFaultMsg \<Rightarrow> FaultReportMsg si \<noteq> None
    | P2Low \<Rightarrow> PreCommit2Fails si \<le> 3
    | ReturnOk \<Rightarrow> valid_return (Return si) \<and> (Return si \<noteq> RetPreCommit1 \<longrightarrow> sealed si))"

definition needs :: "SectorState \<Rightarrow> fact list" where
  "needs st =
    (if st \<in> {PreCommitting, WaitSeed, Committing, SubmitCommit, PreCommitFailed, ComputeProofFailed,
              CommitFailed} then [Sealed]
     else if st = PreCommitWait then [Sealed, HasPreCommit]
     else if st \<in> {CommitWait, FinalizeSector, FinalizeFailed, Proving, Faulty} then [Sealed, HasCommitMsg]
     else if st = FaultReported then [Sealed, HasCommitMsg, HasFaultMsg]
     else if st = PreCommit2 then [P2Low]
     else if st = RecoverDealIDs then [ReturnOk]
     else [])"

definition stable :: "fact \<Rightarrow> bool" where
  "stable f \<longleftrightarrow> f \<in> {Sealed, HasPreCommit, HasCommitMsg, HasFaultMsg}"

definition gives :: "event \<Rightarrow> fact list" where
  "gives e = (case e of
      SectorPreCommit1 _ \<Rightarrow> [P2Low]
    | SectorPreCommit2 _ _ \<Rightarrow> [Sealed]
    | SectorPreCommitted _ _ \<Rightarrow> [HasPreCommit]
    | SectorCommitSubmitted _ \<Rightarrow> [HasCommitMsg]
    | SectorCommitFailed _ \<Rightarrow> [Sealed]
    | SectorRetrySealPreCommit2 \<Rightarrow> [P2Low]
    | SectorRetryPreCommitWait \<Rightarrow> [HasPreCommit]
    | SectorRetryCommitWait \<Rightarrow> [HasCommitMsg]
    | SectorInvalidDealIDs _ \<Rightarrow> [ReturnOk]
    | SectorFaultReported _ \<Rightarrow> [HasFaultMsg]
    | _ \<Rightarrow> [])"

definition sector_inv :: "SectorInfo \<Rightarrow> bool" where
  "sector_inv si \<longleftrightarrow>
    (\<forall>f \<in> set (needs (State si)). holds f si) \<and>
    (CommitMessage si \<noteq> None \<longrightarrow> sealed si) \<and> PreCommit2Fails si \<le> 4 \<and>
    (State si \<noteq> UndefinedSectorState \<longrightarrow> Logs si \<noteq> [])"

definition ok_event :: "SectorInfo \<Rightarrow> event \<Rightarrow> bool" where
  "ok_event si e \<longleftrightarrow> (case e of
      SectorForceState _ \<Rightarrow> False
    | SectorCommitFailed _ \<Rightarrow> sealed si
    | SectorCommitSubmitted _ \<Rightarrow> sealed si
    | SectorRetryCommitWait \<Rightarrow> CommitMessage si \<noteq> None
    | SectorRetryPreCommitWait \<Rightarrow> PreCommitMessage si \<noteq> None
    | SectorInvalidDealIDs r \<Rightarrow> valid_return r \<and> (r \<noteq> RetPreCommit1 \<longrightarrow> sealed si)
    | SectorSealPreCommit2Failed _ \<Rightarrow> PreCommit2Fails si \<le> 3
    | SectorRetrySealPreCommit2 \<Rightarrow> PreCommit2Fails si \<le> 3
    | _ \<Rightarrow> True)"

lemma u64_succ_le4: "(x::u64) \<le> 3 \<Longrightarrow> x + 1 \<le> 4"
  by (simp add: word_le_nat_alt unat_word_ariths)

section \<open>Applying one event\<close>

lemma gives_TypeOf: "TypeOf e = TypeOf m \<Longrightarrow> gives e = gives m"
  by (cases m) (auto simp: TypeOf_con TypeOf_eq gives_def)

lemma apply_gives:
  "apply_mut t e si = Some si0 \<Longrightarrow> ok_event si e \<Longrightarrow> f \<in> set (gives e) \<Longrightarrow> holds f si0"
  by (cases e) (auto simp: apply_mut_con apply_defs gives_def holds_def ok_event_def sealed_def)

lemma apply_keeps:
  "apply_mut t e si = Some si0 \<Longrightarrow> stable f \<Longrightarrow> holds f si \<Longrightarrow> holds f si0"
  by (cases e) (auto simp: apply_mut_con apply_defs SectorPacked_apply_eq SectorUpdateDealIDs_apply_Some
      stable_def holds_def sealed_def split: if_splits)

lemma apply_frame:
  "apply_mut t e si = Some si0 \<Longrightarrow> ok_event si e \<Longrightarrow> PreCommit2Fails si \<le> 4 \<Longrightarrow>
   (CommitMessage si \<noteq> None \<longrightarrow> sealed si) \<Longrightarrow>
    PreCommit2Fails si0 \<le> 4 \<and> (CommitMessage si0 \<noteq> None \<longrightarrow> sealed si0) \<and> Logs si0 = Logs si"
  by (cases e) (auto simp: apply_mut_con apply_defs SectorPacked_apply_eq SectorUpdateDealIDs_apply_Some
      ok_event_def sealed_def u64_succ_le4 split: if_splits)

lemma apply_inv:
  assumes "apply_mut t e si = Some si0" "ok_event si e" "sector_inv si" "Logs si \<noteq> []"
    and "\<forall>f \<in> set (needs st). f \<in> set (gives e) \<or> stable f \<and> f \<in> set (needs (State si))"
  shows "sector_inv (si0\<lparr>State := st\<rparr>)"
proof -
  have h: "holds f (si0\<lparr>State := st\<rparr>) = holds f si0" for f
    by (simp add: holds_def sealed_def split: fact.splits)
  have "holds f si0" if "f \<in> set (needs st)" for f
    using that assms apply_gives [OF assms(1,2)] apply_keeps [OF assms(1)]
    by (auto simp: sector_inv_def)
  with h apply_frame [OF assms(1,2)] assms(3,4) show ?thesis
    by (auto simp: sector_inv_def sealed_def)
qed

section \<open>The planner table\<close>

lemma fst_on [simp]: "fst (on m s) = m"
  by (simp add: on_def)

lemma on_inject [simp]: "on m s = on m' s' \<longleftrightarrow> m = m' \<and> s = s'"
proof
  assume e: "on m s = on m' s'"
  then have "snd (on m s) zero_SectorInfo = snd (on m' s') zero_SectorInfo" by simp
  then have "State (zero_SectorInfo\<lparr>State := s\<rparr>) = State (zero_SectorInfo\<lparr>State := s'\<rparr>)"
    by (simp add: on_def)
  with e show "m = m' \<and> s = s'" by (simp add: on_def)
qed simp

definition edge_ok :: "SectorState \<Rightarrow> trans \<Rightarrow> bool" where
  "edge_ok st tr \<longleftrightarrow> (\<exists>s. tr = on (fst tr) s \<and>
     (\<forall>f \<in> set (needs s). f \<in> set (gives (fst tr)) \<or> stable f \<and> f \<in> set (needs st)))"

lemma edge_ok_on [simp]:
  "edge_ok st (on m s) \<longleftrightarrow>
    list_all (\<lambda>f. f \<in> set (gives m) \<or> stable f \<and> f \<in> set (needs st)) (needs s)"
  by (simp add: edge_ok_def list_all_iff)


lemma fsmPlanners_edges:
  assumes "fsmPlanners st = Some p" and "st \<notin> {AddPiece, Committing, RecoverDealIDs}"
  shows "p = final \<or> (\<exists>ts. p = planOne ts \<and> list_all (edge_ok st) ts)"
proof -
  have *: "planOne ts = p \<Longrightarrow> list_all (edge_ok s) ts \<Longrightarrow>
      p = final \<or> (\<exists>ts. p = planOne ts \<and> list_all (edge_ok s) ts)" for s ts by blast
  show ?thesis
    by (insert assms, cases st; simp only: fsmPlanners_def SectorState.case option.inject option.distinct;
        (rule disjI1, erule sym)?; (erule *)?; simp add: needs_def gives_def stable_def)
qed

lemma edge_inv:
  assumes "edge_ok (State si) tr" and "TypeOf e = TypeOf (fst tr)" and "apply_mut t e si = Some si0"
    and "snd tr si0 = (mr, err, si1)" and "ok_event si e" "sector_inv si" "Logs si \<noteq> []"
  shows "\<not> mr \<and> err = None \<and> sector_inv si1"
proof -
  obtain s where s: "tr = on (fst tr) s"
    and n: "\<forall>f \<in> set (needs s). f \<in> set (gives (fst tr)) \<or> stable f \<and> f \<in> set (needs (State si))"
    using assms(1) by (auto simp: edge_ok_def)
  have "snd tr = snd (on (fst tr) s)" using s by (rule arg_cong)
  then have "\<not> mr \<and> err = None \<and> si1 = si0\<lparr>State := s\<rparr>" using assms(4) by (simp add: on_def)
  with apply_inv [OF assms(3,5,6,7)] n gives_TypeOf [OF assms(2)] show ?thesis by simp
qed

lemma edges_inner_inv:
  assumes "list_all (edge_ok (State si)) ts" "ok_event si e" "sector_inv si" "Logs si \<noteq> []"
  shows "(planOne_inner t ts e si = Returned err si1 \<longrightarrow> sector_inv si1) \<and>
    (planOne_inner t ts e si = FellThrough si1 \<longrightarrow> si1 = si)"
  using assms(1)
proof (induction ts)
  case (Cons tr ts)
  show ?case
  proof (cases "TypeOf e = TypeOf (fst tr)")
    case True
    show ?thesis
    proof (cases "apply_mut t e si")
      case (Some si0)
      obtain mr er s1 where "snd tr si0 = (mr, er, s1)" by (cases "snd tr si0") auto
      with edge_inv [OF _ True Some _ assms(2-4)] Cons.prems True Some show ?thesis
        by (cases tr) auto
    qed (use True in \<open>cases tr; simp\<close>)
  qed (use Cons in \<open>cases tr; simp\<close>)
qed simp

lemma global_inv:
  assumes "applyGlobal e si = Some (si1, b)" "ok_event si e" "sector_inv si" "Logs si \<noteq> []"
  shows "sector_inv si1"
proof -
  have "needs Terminating = []" "needs Removing = []" by (simp_all add: needs_def)
  with assms(1,2) consider "si1 = si" | s where "si1 = si\<lparr>State := s\<rparr>" "needs s = []"
    by (fastforce simp: applyGlobal_Some ok_event_def)
  then show ?thesis using assms(3,4) by cases (auto simp: sector_inv_def sealed_def)
qed

lemma edges_planOne_inv:
  assumes "planOne ts t [e] si = Some (n, None, si1)"
    and "list_all (edge_ok (State si)) ts" "ok_event si e" "sector_inv si" "Logs si \<noteq> []"
  shows "sector_inv si1"
  using assms(1) global_inv [OF _ assms(3-5)] edges_inner_inv [OF assms(2-5)] assms(4)
  by (auto simp: planOne_def split: option.splits inner.splits if_splits)

lemma AddPiece_inv:
  assumes "planOne [on (SectorPieceAdded []) WaitDeals, apply_tr SectorStartPacking,
      on (SectorAddPieceFailed '''') AddPieceFailed] t [e] si = Some (n, None, si1)"
    and "ok_event si e" "sector_inv si" "Logs si \<noteq> []"
  shows "sector_inv si1"
proof -
  have "sector_inv s1" if "apply_mut t e si = Some si0"
    "s1 = si0\<lparr>State := WaitDeals\<rparr> \<or> s1 = si0\<lparr>State := AddPieceFailed\<rparr>" for si0 s1
    using apply_inv [OF that(1) assms(2-4)] that(2) by (auto simp: needs_def)
  with assms global_inv [OF _ assms(2-4)] show ?thesis
    by (auto simp: planOne_def on_def apply_tr_def TypeOf_con TypeOf_eq apply_mut_con is_Ignorable_iff
        split: option.splits inner.splits if_splits)
qed

lemma RecoverDealIDs_inv:
  assumes "planOne [onReturning (SectorUpdateDealIDs [])] t [e] si = Some (n, None, si1)"
    and "State si = RecoverDealIDs" "ok_event si e" "sector_inv si" "Logs si \<noteq> []"
  shows "sector_inv si1"
proof -
  have "sector_inv (si\<lparr>Pieces := ps, State := Return si, Return := UndefinedSectorState\<rparr>)" for ps
    using assms(2,4,5) by (auto simp: sector_inv_def needs_def holds_def valid_return_def Ret_defs sealed_def)
  with assms global_inv [OF _ assms(3-5)] show ?thesis
    by (auto simp: planOne_def onReturning_def TypeOf_con TypeOf_eq apply_mut_con is_Ignorable_iff
        SectorUpdateDealIDs_apply_Some split: option.splits inner.splits if_splits)
qed

lemma planCommitting_inv:
  assumes "planCommitting t [e] si = Some (n, None, si1)"
    and "State si = Committing" "ok_event si e" "sector_inv si" "Logs si \<noteq> []"
  shows "sector_inv si1"
proof (cases "is_globalMutator e")
  case False
  then have g: "applyGlobal e si = None" by (simp add: applyGlobal_None)
  have to: "sector_inv (si0\<lparr>State := st\<rparr>)" if "apply_mut t e si = Some si0"
    and "st \<in> {SubmitCommit, Committing, ComputeProofFailed, SealPreCommit1Failed, CommitFailed} \<or>
         st = CommitWait \<and> e = SectorRetryCommitWait" for si0 st
    using apply_inv [OF that(1) assms(3-5)] that(2) assms(2) by (auto simp: needs_def gives_def stable_def)
  have failed: "sector_inv (si\<lparr>State := SealPreCommit1Failed\<rparr>)"
    using assms(4,5) by (simp add: sector_inv_def sealed_def needs_def)
  show ?thesis
    using assms(1,4) g failed
    by (cases e) (auto simp: planCommitting_def apply_mut_con intro!: to split: if_splits)
next
  case True
  with assms(1) have "\<exists>b. applyGlobal e si = Some (si1, b)"
    by (cases e) (auto simp: planCommitting_def applyGlobal_def is_globalMutator_def)
  then show ?thesis using global_inv [OF _ assms(3-5)] by blast
qed

lemma final_inv:
  assumes "final t [e] si = Some (n, None, si1)"
    and "ok_event si e" "sector_inv si" "Logs si \<noteq> []"
  shows "sector_inv si1"
  using assms global_inv [OF _ assms(2-4)] by (auto simp: final_def split: option.splits)

lemma planner_inv:
  assumes "fsmPlanners (State si) = Some p" and "p t [e] si = Some (n, None, si1)"
    and "ok_event si e" "sector_inv si" "Logs si \<noteq> []"
  shows "sector_inv si1"
proof -
  consider "State si = AddPiece" | "State si = Committing" | "State si = RecoverDealIDs"
    | "State si \<notin> {AddPiece, Committing, RecoverDealIDs}" by blast
  then show ?thesis
  proof cases
    case 4
    from fsmPlanners_edges [OF assms(1) 4] assms show ?thesis
      by (auto intro: edges_planOne_inv final_inv)
  qed (use assms in \<open>auto simp: fsmPlanners_def intro: AddPiece_inv RecoverDealIDs_inv planCommitting_inv\<close>)
qed

end
