(* ===== verification/Sealing_Dispatch.thy ===== *)
theory Sealing_Dispatch
  imports Sealing_Recovery Sealing_Input Sealing_Invariant
begin

text \<open>
  Which handler runs in which state (\<open>run_handler\<close> follows the handler that \<open>plan\<close> selects) and
  which events each handler may send (\<open>may_send\<close>). \<open>handler_sends_may_send\<close> collects one lemma
  per handler of \<^verbatim>\<open>states_sealing.go\<close>, \<^verbatim>\<open>states_failed.go\<close>, \<^verbatim>\<open>states_proving.go\<close> and \<^verbatim>\<open>input.go\<close>;
  \<open>may_send_ok\<close> and \<open>may_send_accepted\<close> relate them to the invariant and to the planners.
\<close>

section \<open>Handlers send only acceptable events\<close>

record handler_env =
  he_W :: "nat \<Rightarrow> world"
  he_polls :: nat
  he_addr :: address
  he_limits :: limits
  he_order :: input_order
  he_input :: input_state

definition run_handler :: "handler \<Rightarrow> handler_env \<Rightarrow> SectorInfo \<Rightarrow> hres option" where
  "run_handler h env si =
    (let W = he_W env; a = he_addr env in
     case h of
       do_handleWaitDeals \<Rightarrow> Some (fst (handleWaitDeals (W 0) a (he_limits env) (he_order env) (he_input env) si))
     | do_handleAddPiece \<Rightarrow> Some (fst (handleAddPiece (W 0) a (he_input env) si))
     | do_handlePacking \<Rightarrow> Some (fst (handlePacking (W 0) a (he_input env) si))
     | do_handleGetTicket \<Rightarrow> Some (handleGetTicket W a si)
     | do_handlePreCommit1 \<Rightarrow> Some (handlePreCommit1 W a si)
     | do_handlePreCommit2 \<Rightarrow> Some (handlePreCommit2 (W 0) a si)
     | do_handlePreCommitting \<Rightarrow> Some (handlePreCommitting W a si)
     | do_handlePreCommitWait \<Rightarrow> Some (handlePreCommitWait (W 0) si)
     | do_handleWaitSeed \<Rightarrow> Some (handleWaitSeed (W 0) a si)
     | do_handleCommitting \<Rightarrow> Some (handleCommitting (W 0) a si)
     | do_handleSubmitCommit \<Rightarrow> Some (handleSubmitCommit W a si)
     | do_handleCommitWait \<Rightarrow> Some (handleCommitWait (W 0) a si)
     | do_handleFinalizeSector \<Rightarrow> Some (handleFinalizeSector (W 0) a si)
     | do_handleSealPrecommit1Failed \<Rightarrow> Some (handleSealPrecommit1Failed (W 0) si)
     | do_handleSealPrecommit2Failed \<Rightarrow> Some (handleSealPrecommit2Failed (W 0) si)
     | do_handlePreCommitFailed \<Rightarrow> Some (handlePreCommitFailed W a si)
     | do_handleComputeProofFailed \<Rightarrow> Some (handleComputeProofFailed (W 0) si)
     | do_handleCommitFailed \<Rightarrow> Some (handleCommitFailed W a si)
     | do_handleFinalizeFailed \<Rightarrow> Some (handleFinalizeFailed (W 0) si)
     | do_handleDealsExpired \<Rightarrow> Some (handleDealsExpired (W 0) a si)
     | do_handleRecoverDealIDs \<Rightarrow> Some (handleRecoverDealIDs W a si)
     | do_handleProvingSector \<Rightarrow> Some (handleProvingSector (W 0) a si)
     | do_handleTerminating \<Rightarrow> Some (handleTerminating W a si)
     | do_handleTerminateWait \<Rightarrow> Some (handleTerminateWait (W 0) si)
     | do_handleTerminateFinality \<Rightarrow> handleTerminateFinality (map W [0..<he_polls env]) si
     | do_handleTerminateFailed \<Rightarrow> Some (handleTerminateFailed (W 0) a si)
     | do_handleRemoving \<Rightarrow> Some (handleRemoving (W 0) a si)
     | do_handleRemoveFailed \<Rightarrow> Some (handleRemoveFailed (W 0) si)
     | do_handleFaulty \<Rightarrow> Some (handleFaulty si)
     | do_handleFaultReported \<Rightarrow> Some (handleFaultReported (W 0) si))"

definition handler_sends :: "SectorInfo \<Rightarrow> event \<Rightarrow> bool" where
  "handler_sends si e \<longleftrightarrow>
    (\<exists>h env. fst (select_handler si) = Some h \<and> run_handler h env si = Some (Sent e)) \<or>
    (\<exists>W a height. State si = WaitSeed \<and> handleWaitSeed (W (0::nat)) a si = AwaitHeight height \<and>
       waitSeed_callback (W 1) a height = Sent e)"

definition accepts :: "int \<Rightarrow> SectorInfo \<Rightarrow> event \<Rightarrow> bool" where
  "accepts t si e \<longleftrightarrow> (case fsmPlanners (State si) of
     None \<Rightarrow> False
   | Some p \<Rightarrow> (case p t [e] si of Some (_, None, _) \<Rightarrow> True | _ \<Rightarrow> False))"

lemma checkPieces_loop_errs:
  "checkPieces_loop w a tok height ps = Some e \<Longrightarrow>
    (\<exists>x. e = ErrInvalidDeals x \<or> e = ErrExpiredDeals x \<or> e = ErrInvalidPiece x)"
  by (induction ps) (auto split: option.splits sum.splits if_splits)

lemma checkPieces_errs:
  "checkPieces w a si = Some e \<Longrightarrow>
    (\<exists>x. e = ErrApi x \<or> e = ErrInvalidDeals x \<or> e = ErrExpiredDeals x \<or> e = ErrInvalidPiece x)"
  by (auto simp: checkPieces_def split: sum.splits prod.splits dest: checkPieces_loop_errs)

lemma checkCommit_not_on_chain: "checkCommit w a si prf tok \<noteq> CErr (ErrPrecommitOnChain x)"
  by (auto simp: checkCommit_def split: sum.splits option.splits api_err.splits prod.splits if_splits
      dest: checkPieces_errs)

lemma after_cooldown_Sent: "after_cooldown w si r = Sent e \<Longrightarrow> r = Sent e"
  by (simp add: after_cooldown_def split: cool.splits)

definition may_send :: "SectorState \<Rightarrow> SectorInfo \<Rightarrow> event \<Rightarrow> bool" where
  "may_send st si e \<longleftrightarrow> (case st of
      Empty \<Rightarrow> e = SectorStartPacking
    | WaitDeals \<Rightarrow> e = SectorStartPacking
    | AddPiece \<Rightarrow> (case e of SectorPieceAdded _ \<Rightarrow> True | SectorAddPieceFailed _ \<Rightarrow> True | _ \<Rightarrow> False)
    | Packing \<Rightarrow> (case e of SectorPacked _ \<Rightarrow> True | _ \<Rightarrow> False)
    | GetTicket \<Rightarrow> (case e of SectorTicket _ _ \<Rightarrow> True | SectorCommitFailed _ \<Rightarrow> CommitMessage si \<noteq> None
        | SectorRemove \<Rightarrow> True | SectorSealPreCommit1Failed _ \<Rightarrow> True | _ \<Rightarrow> False)
    | PreCommit1 \<Rightarrow> (case e of SectorInvalidDealIDs r \<Rightarrow> r = RetPreCommit1 | SectorDealsExpired _ \<Rightarrow> True
        | SectorOldTicket \<Rightarrow> True | SectorSealPreCommit1Failed _ \<Rightarrow> True | SectorPreCommit1 _ \<Rightarrow> True | _ \<Rightarrow> False)
    | PreCommit2 \<Rightarrow> (case e of SectorSealPreCommit2Failed _ \<Rightarrow> True | SectorSealPreCommit1Failed _ \<Rightarrow> True
        | SectorPreCommit2 _ u \<Rightarrow> u \<noteq> '''' | _ \<Rightarrow> False)
    | PreCommitting \<Rightarrow> (case e of SectorSealPreCommit1Failed _ \<Rightarrow> True
        | SectorInvalidDealIDs r \<Rightarrow> r = RetPreCommitting | SectorDealsExpired _ \<Rightarrow> True
        | SectorPreCommitLanded _ \<Rightarrow> True | SectorChainPreCommitFailed _ \<Rightarrow> True
        | SectorPreCommitted _ _ \<Rightarrow> True | _ \<Rightarrow> False)
    | PreCommitWait \<Rightarrow> (case e of SectorChainPreCommitFailed _ \<Rightarrow> True | SectorPreCommitLanded _ \<Rightarrow> True
        | SectorRetryPreCommit \<Rightarrow> True | _ \<Rightarrow> False)
    | WaitSeed \<Rightarrow> (case e of SectorChainPreCommitFailed _ \<Rightarrow> True | SectorSeedReady _ _ \<Rightarrow> True | _ \<Rightarrow> False)
    | Committing \<Rightarrow> (case e of SectorRetryCommitWait \<Rightarrow> CommitMessage si \<noteq> None | SectorCommitFailed _ \<Rightarrow> \<not> sealed si
        | SectorComputeProofFailed _ \<Rightarrow> True | SectorCommitted _ \<Rightarrow> True | _ \<Rightarrow> False)
    | SubmitCommit \<Rightarrow> (case e of SectorCommitFailed _ \<Rightarrow> True | SectorCommitSubmitted _ \<Rightarrow> True | _ \<Rightarrow> False)
    | CommitWait \<Rightarrow> (case e of SectorCommitFailed _ \<Rightarrow> True | SectorRetrySubmitCommit \<Rightarrow> True
        | SectorProving \<Rightarrow> CommitMessage si \<noteq> None | _ \<Rightarrow> False)
    | FinalizeSector \<Rightarrow> (case e of SectorFinalizeFailed _ \<Rightarrow> True | SectorFinalized \<Rightarrow> True | _ \<Rightarrow> False)
    | SealPreCommit1Failed \<Rightarrow> e = SectorRetrySealPreCommit1
    | SealPreCommit2Failed \<Rightarrow> (case e of SectorRetrySealPreCommit1 \<Rightarrow> PreCommit2Fails si > 3
        | SectorRetrySealPreCommit2 \<Rightarrow> PreCommit2Fails si \<le> 3 | _ \<Rightarrow> False)
    | PreCommitFailed \<Rightarrow> (case e of SectorRetryPreCommitWait \<Rightarrow> PreCommitMessage si \<noteq> None
        | SectorRetryPreCommit \<Rightarrow> True | SectorSealPreCommit1Failed _ \<Rightarrow> True
        | SectorInvalidDealIDs r \<Rightarrow> r = RetPreCommitFailed | SectorDealsExpired _ \<Rightarrow> True
        | SectorPreCommitLanded _ \<Rightarrow> PreCommitMessage si = None
        | SectorRetryWaitSeed \<Rightarrow> PreCommitMessage si \<noteq> None | _ \<Rightarrow> False)
    | ComputeProofFailed \<Rightarrow> (case e of SectorSealPreCommit1Failed _ \<Rightarrow> InvalidProofs si > 1
        | SectorRetryComputeProof \<Rightarrow> InvalidProofs si \<le> 1 | _ \<Rightarrow> False)
    | CommitFailed \<Rightarrow> (case e of SectorRetryCommitWait \<Rightarrow> CommitMessage si \<noteq> None
        | SectorRetrySubmitCommit \<Rightarrow> CommitMessage si \<noteq> None
        | SectorSealPreCommit1Failed _ \<Rightarrow> True | SectorTicketExpired _ \<Rightarrow> True
        | SectorInvalidDealIDs r \<Rightarrow> r = RetCommitFailed | SectorDealsExpired _ \<Rightarrow> True
        | SectorRetryWaitSeed \<Rightarrow> True | SectorRetryInvalidProof \<Rightarrow> InvalidProofs si = 0
        | SectorRetryPreCommit \<Rightarrow> True | SectorRetryComputeProof \<Rightarrow> True | _ \<Rightarrow> False)
    | FinalizeFailed \<Rightarrow> e = SectorRetryFinalize
    | DealsExpired \<Rightarrow> e = SectorRemove
    | PackingFailed \<Rightarrow> e = SectorRemove
    | RecoverDealIDs \<Rightarrow> (case e of SectorRemove \<Rightarrow> True
        | SectorUpdateDealIDs us \<Rightarrow> update_DealIDs us (Pieces si) \<noteq> None | _ \<Rightarrow> False)
    | Terminating \<Rightarrow> (case e of SectorTerminateFailed _ \<Rightarrow> True | SectorRemove \<Rightarrow> True
        | SectorTerminating _ \<Rightarrow> True | _ \<Rightarrow> False)
    | TerminateWait \<Rightarrow> (case e of SectorTerminateFailed _ \<Rightarrow> True
        | SectorTerminated _ \<Rightarrow> TerminateMessage si \<noteq> None | _ \<Rightarrow> False)
    | TerminateFinality \<Rightarrow> (case e of SectorTerminateFailed _ \<Rightarrow> True | SectorRemove \<Rightarrow> True | _ \<Rightarrow> False)
    | TerminateFailed \<Rightarrow> e = SectorTerminate
    | Removing \<Rightarrow> (case e of SectorRemoveFailed _ \<Rightarrow> True | SectorRemoved \<Rightarrow> True | _ \<Rightarrow> False)
    | RemoveFailed \<Rightarrow> e = SectorRemove
    | FaultReported \<Rightarrow> e = SectorFaultedFinal \<and> FaultReportMsg si \<noteq> None
    | _ \<Rightarrow> False)"

text \<open>The case distinctions of the handlers, and the order tests they make.\<close>

lemmas handler_splits = sum.splits option.splits prod.splits api_err.splits check_err.splits
  check_res.splits if_splits hres.splits

lemma WaitDeals_sends: "fst (handleWaitDeals w a stats ord m si) = Sent e \<Longrightarrow> e = SectorStartPacking"
  by (auto simp: handleWaitDeals_def Let_def split: option.splits prod.splits start_res.splits)

lemma AddPiece_sends: "fst (handleAddPiece w a m si) = Sent e \<Longrightarrow> may_send AddPiece si e"
  by (auto simp: handleAddPiece_def may_send_def Let_def split: option.splits sum.splits prod.splits add_out.splits)

lemma Packing_sends: "fst (handlePacking w a m si) = Sent e \<Longrightarrow> may_send Packing si e"
  by (auto simp: handlePacking_def may_send_def Let_def split: option.splits sum.splits prod.splits if_splits)

lemma GetTicket_sends: "handleGetTicket W a si = Sent e \<Longrightarrow> may_send GetTicket si e"
  by (auto simp: handleGetTicket_def may_send_def split: sum.splits prod.splits if_splits)

lemma PreCommit1_sends: "handlePreCommit1 W a si = Sent e \<Longrightarrow> may_send PreCommit1 si e"
  by (auto simp: handlePreCommit1_def may_send_def split: handler_splits)

lemma PreCommit2_sends: "handlePreCommit2 w a si = Sent e \<Longrightarrow> may_send PreCommit2 si e"
  by (auto simp: handlePreCommit2_def may_send_def split: handler_splits)

lemma submitPreCommit_sends: "submitPreCommit w a mi si = Sent e \<Longrightarrow>
    (\<exists>x. e = SectorChainPreCommitFailed x) \<or> (\<exists>c i. e = SectorPreCommitted c i)"
  by (auto simp: submitPreCommit_def Let_def split: handler_splits)

lemma PreCommitting_sends: "handlePreCommitting W a si = Sent e \<Longrightarrow> may_send PreCommitting si e"
  by (auto simp: handlePreCommitting_def may_send_def split: handler_splits dest: submitPreCommit_sends)

lemma PreCommitWait_sends: "handlePreCommitWait w si = Sent e \<Longrightarrow> may_send PreCommitWait si e"
  by (auto simp: handlePreCommitWait_def may_send_def Let_def split: handler_splits)

lemma WaitSeed_sends: "handleWaitSeed w a si = Sent e \<Longrightarrow> may_send WaitSeed si e"
  by (auto simp: handleWaitSeed_def may_send_def split: handler_splits)

lemma callback_sends: "waitSeed_callback w a ht = Sent e \<Longrightarrow> may_send WaitSeed si e"
  by (auto simp: waitSeed_callback_def may_send_def split: handler_splits)

lemma Committing_sends: "handleCommitting w a si = Sent e \<Longrightarrow> may_send Committing si e"
  by (auto simp: handleCommitting_def computeProof_def may_send_def sealed_def split: handler_splits)

lemma SubmitCommit_sends: "handleSubmitCommit W a si = Sent e \<Longrightarrow> may_send SubmitCommit si e"
  by (auto simp: handleSubmitCommit_def may_send_def Let_def split: handler_splits)

lemma CommitWait_sends: "handleCommitWait w a si = Sent e \<Longrightarrow> may_send CommitWait si e"
  by (auto simp: handleCommitWait_def may_send_def Let_def split: handler_splits)

lemma FinalizeSector_sends: "handleFinalizeSector w a si = Sent e \<Longrightarrow> may_send FinalizeSector si e"
  by (auto simp: handleFinalizeSector_def may_send_def split: handler_splits)

lemma SealPreCommit1Failed_sends:
  "handleSealPrecommit1Failed w si = Sent e \<Longrightarrow> may_send SealPreCommit1Failed si e"
  by (auto simp: handleSealPrecommit1Failed_def may_send_def dest: after_cooldown_Sent)

lemma SealPreCommit2Failed_sends:
  "handleSealPrecommit2Failed w si = Sent e \<Longrightarrow> may_send SealPreCommit2Failed si e"
  by (auto simp: handleSealPrecommit2Failed_def may_send_def split: if_splits dest!: after_cooldown_Sent)

lemma retryPreCommitted_sends: "retryPreCommitted w a tok si = Sent e \<Longrightarrow> may_send PreCommitFailed si e"
  by (auto simp: retryPreCommitted_def may_send_def split: handler_splits bool.splits dest!: after_cooldown_Sent)

lemma recheckPreCommit_sends:
  "recheckPreCommit W a tok height si = Sent e \<Longrightarrow> may_send PreCommitFailed si e"
  unfolding recheckPreCommit_def
  by (auto split: option.splits check_err.splits dest: retryPreCommitted_sends) (auto simp: may_send_def)

lemma PreCommitFailed_sends: "handlePreCommitFailed W a si = Sent e \<Longrightarrow> may_send PreCommitFailed si e"
  unfolding handlePreCommitFailed_def
  by (auto split: sum.splits option.splits prod.splits if_splits dest: recheckPreCommit_sends
      dest!: after_cooldown_Sent) (auto simp: may_send_def)

lemma ComputeProofFailed_sends:
  "handleComputeProofFailed w si = Sent e \<Longrightarrow> may_send ComputeProofFailed si e"
  by (auto simp: handleComputeProofFailed_def may_send_def split: if_splits dest!: after_cooldown_Sent)

lemma recheckCommit_sends: "recheckCommit w a tok si = Sent e \<Longrightarrow> may_send CommitFailed si e"
proof -
  have "CommitMessage si \<noteq> None" if "checkCommit w a si pr tok = CErr (ErrCommitWaitFailed x)" for pr x
    using that by (auto simp: checkCommit_def split: handler_splits dest: checkPieces_errs)
  then show "recheckCommit w a tok si = Sent e \<Longrightarrow> may_send CommitFailed si e"
    unfolding recheckCommit_def
    by (auto simp: checkCommit_not_on_chain may_send_def word_gt_0 split: check_res.splits check_err.splits if_splits
        dest!: after_cooldown_Sent)
qed

lemma recheckBeforeCommit_sends:
  "recheckBeforeCommit W a tok height si = Sent e \<Longrightarrow> may_send CommitFailed si e"
  unfolding recheckBeforeCommit_def
  by (auto split: option.splits check_err.splits dest: recheckCommit_sends) (auto simp: may_send_def)

lemma CommitFailed_sends: "handleCommitFailed W a si = Sent e \<Longrightarrow> may_send CommitFailed si e"
  unfolding handleCommitFailed_def
  by (auto split: sum.splits option.splits prod.splits if_splits dest: recheckBeforeCommit_sends
      dest!: after_cooldown_Sent) (auto simp: may_send_def)

lemma cooldown_sends:
  "handleFinalizeFailed w si = Sent e \<Longrightarrow> may_send FinalizeFailed si e"
  "handleRemoveFailed w si = Sent e \<Longrightarrow> may_send RemoveFailed si e"
  "handleTerminateFailed w a si = Sent e \<Longrightarrow> may_send TerminateFailed si e"
  by (auto simp: handleFinalizeFailed_def handleRemoveFailed_def handleTerminateFailed_def may_send_def
      split: sum.splits option.splits dest!: after_cooldown_Sent)

lemma DealsExpired_sends: "handleDealsExpired w a si = Sent e \<Longrightarrow> e = SectorRemove"
  by (auto simp: handleDealsExpired_def split: sum.splits option.splits)

lemma recover_scan_indices:
  "recover_scan w a tok height i ps = Inr (fx, pads) \<Longrightarrow> j \<in> set fx \<Longrightarrow>
    i \<le> j \<and> j < i + length ps \<and> p_DealInfo (ps ! (j - i)) \<noteq> None"
proof (induction ps arbitrary: i fx pads)
  case (Cons p ps)
  have "j = i \<and> p_DealInfo p \<noteq> None \<or> (\<exists>fx' pads'. recover_scan w a tok height (i + 1) ps = Inr (fx', pads') \<and> j \<in> set fx')"
    using Cons.prems by (auto simp: Let_def split: option.splits sum.splits prod.splits if_splits)
  then show ?case
  proof
    assume "\<exists>fx' pads'. recover_scan w a tok height (i + 1) ps = Inr (fx', pads') \<and> j \<in> set fx'"
    with Cons.IH [of "i + 1"] show ?case by (auto simp: Suc_diff_le nth_Cons')
  qed auto
qed simp

lemma recover_fix_keys: "recover_fix w tok ps fx = Fixed failed us \<Longrightarrow> map fst us = fx"
  by (induction fx arbitrary: failed us) (auto split: if_splits option.splits fix_res.splits prod.splits)

lemma update_DealIDs_defined:
  "\<forall>i \<in> fst ` set us. i < length ps \<and> p_DealInfo (ps ! i) \<noteq> None \<Longrightarrow> update_DealIDs us ps \<noteq> None"
proof (induction us arbitrary: ps)
  case (Cons u us)
  obtain i d where u: "u = (i, d)" by (cases u)
  with Cons.prems obtain di where di: "i < length ps" "p_DealInfo (ps ! i) = Some di" by auto
  let ?ps = "ps[i := (ps ! i)\<lparr>p_DealInfo := Some (di\<lparr>DealID := d\<rparr>)\<rparr>]"
  have "\<forall>k \<in> fst ` set us. k < length ?ps \<and> p_DealInfo (?ps ! k) \<noteq> None"
    using Cons.prems di(1) by (auto simp: nth_list_update)
  from Cons.IH [OF this] u di show ?case by (simp add: set_DealID_def)
qed simp

lemma RecoverDealIDs_sends:
  assumes "handleRecoverDealIDs W a si = Sent e"
  shows "may_send RecoverDealIDs si e"
proof -
  have "update_DealIDs us (Pieces si) \<noteq> None"
    if "recover_scan w a tok height 0 (Pieces si) = Inr (fx, pads)"
      "recover_fix w' tok' (Pieces si) fx = Fixed failed us" for w w' tok tok' height fx pads failed us
    using recover_scan_indices [OF that(1)] recover_fix_keys [OF that(2)]
    by (intro update_DealIDs_defined) (auto simp flip: set_map)
  with assms show ?thesis
    by (auto simp: handleRecoverDealIDs_def may_send_def
        split: sum.splits prod.splits fix_res.splits if_splits)
qed

lemma Proving_sends: "handleProvingSector w a si \<noteq> Sent e"
  by (auto simp: handleProvingSector_def split: handler_splits)

lemma FaultReported_sends: "handleFaultReported w si = Sent e \<Longrightarrow> may_send FaultReported si e"
  by (auto simp: handleFaultReported_def may_send_def split: handler_splits)

lemma Terminating_sends: "handleTerminating W a si = Sent e \<Longrightarrow> may_send Terminating si e"
  by (auto simp: handleTerminating_def may_send_def split: handler_splits)

lemma TerminateWait_sends: "handleTerminateWait w si = Sent e \<Longrightarrow> may_send TerminateWait si e"
  by (auto simp: handleTerminateWait_def may_send_def split: handler_splits)

lemma TerminateFinality_sends:
  "handleTerminateFinality ws si = Some (Sent e) \<Longrightarrow> may_send TerminateFinality si e"
  by (induction ws si rule: handleTerminateFinality.induct)
    (auto simp: may_send_def split: sum.splits prod.splits if_splits)

lemma Removing_sends: "handleRemoving w a si = Sent e \<Longrightarrow> may_send Removing si e"
  by (auto simp: handleRemoving_def may_send_def split: handler_splits)

lemmas all_sends = WaitDeals_sends AddPiece_sends Packing_sends GetTicket_sends PreCommit1_sends
  PreCommit2_sends PreCommitting_sends PreCommitWait_sends WaitSeed_sends Committing_sends
  SubmitCommit_sends CommitWait_sends FinalizeSector_sends SealPreCommit1Failed_sends
  SealPreCommit2Failed_sends PreCommitFailed_sends ComputeProofFailed_sends CommitFailed_sends
  cooldown_sends DealsExpired_sends RecoverDealIDs_sends FaultReported_sends Terminating_sends
  TerminateWait_sends TerminateFinality_sends Removing_sends

lemma run_handler_sends:
  assumes "fst (select_handler si) = Some h" "run_handler h env si = Some (Sent e)"
  shows "may_send (State si) si e"
proof -
  have st: "may_send st si SectorStartPacking" if "st = Empty \<or> st = WaitDeals" for st
    using that by (auto simp: may_send_def)
  have rm: "may_send st si SectorRemove" if "st = PackingFailed \<or> st = DealsExpired" for st
    using that by (auto simp: may_send_def)
  show ?thesis
    using assms
    by (cases "State si") (auto simp: select_handler_def run_handler_def Let_def st rm Proving_sends
        handleFaulty_def dest: all_sends)
qed

lemma handler_sends_may_send: "handler_sends si e \<Longrightarrow> may_send (State si) si e"
  by (auto simp: handler_sends_def dest: run_handler_sends callback_sends)

lemma may_send_ok:
  assumes "may_send (State si) si e" "sector_inv si"
  shows "ok_event si e"
  by (cases e; (simp add: ok_event_def; fail)?; insert assms; cases "State si";
      simp add: may_send_def ok_event_def sector_inv_def needs_def holds_def valid_return_def Ret_defs)

lemma return_set: "sector_inv si \<Longrightarrow> State si = RecoverDealIDs \<Longrightarrow> Return si \<noteq> UndefinedSectorState"
  by (auto simp: sector_inv_def needs_def holds_def valid_return_def Ret_defs)

lemma may_send_accepted:
  assumes "may_send (State si) si e" "sector_inv si"
  shows "accepts t si e \<or> (State si = GetTicket \<and> (\<exists>x. e = SectorSealPreCommit1Failed x)) \<or>
    (State si = FaultReported \<and> e = SectorFaultedFinal)"
  by (insert assms return_set [OF assms(2)], cases "State si"; simp add: may_send_def;
      (cases e; simp add: accepts_def fsmPlanners_def planOne_def planCommitting_def on_def apply_tr_def
        onReturning_def TypeOf_con apply_mut_con applyGlobal_def SectorUpdateDealIDs_apply_def
        is_Ignorable_iff; (elim exE; simp)?))

end
