(* ===== verification/Sealing_System.thy ===== *)
theory Sealing_System
  imports Sealing_Dispatch
begin

text \<open>
  Sectors as a system: the states into which the planners lead, and the machine in which external
  events and the events of the handlers are planned one after the other, with its invariant.
\<close>

section \<open>The states a planner leads to\<close>

text \<open>The targets of the planner of each state, read off \<open>fsmPlanners\<close> and \<open>planCommitting\<close> (\<open>planner_next\<close>).\<close>

definition successors :: "SectorState \<Rightarrow> SectorState list" where
  "successors st = (case st of
      UndefinedSectorState \<Rightarrow> [WaitDeals, Packing]
    | Empty \<Rightarrow> [AddPiece, Packing]
    | WaitDeals \<Rightarrow> [AddPiece, Packing]
    | AddPiece \<Rightarrow> [WaitDeals, AddPieceFailed]
    | Packing \<Rightarrow> [GetTicket]
    | GetTicket \<Rightarrow> [PreCommit1, CommitFailed]
    | PreCommit1 \<Rightarrow> [PreCommit2, SealPreCommit1Failed, DealsExpired, RecoverDealIDs, GetTicket]
    | PreCommit2 \<Rightarrow> [PreCommitting, SealPreCommit2Failed, SealPreCommit1Failed]
    | PreCommitting \<Rightarrow> [SealPreCommit1Failed, PreCommitWait, PreCommitFailed, WaitSeed, DealsExpired, RecoverDealIDs]
    | PreCommitWait \<Rightarrow> [PreCommitFailed, WaitSeed, PreCommitting]
    | WaitSeed \<Rightarrow> [Committing, PreCommitFailed]
    | Committing \<Rightarrow> [SubmitCommit, ComputeProofFailed, SealPreCommit1Failed, CommitFailed, CommitWait]
    | SubmitCommit \<Rightarrow> [CommitWait, CommitFailed]
    | CommitWait \<Rightarrow> [FinalizeSector, CommitFailed, SubmitCommit]
    | FinalizeSector \<Rightarrow> [Proving, FinalizeFailed]
    | SealPreCommit1Failed \<Rightarrow> [PreCommit1]
    | SealPreCommit2Failed \<Rightarrow> [PreCommit1, PreCommit2]
    | PreCommitFailed \<Rightarrow> [PreCommitting, PreCommitWait, WaitSeed, SealPreCommit1Failed, DealsExpired, RecoverDealIDs]
    | ComputeProofFailed \<Rightarrow> [Committing, SealPreCommit1Failed]
    | CommitFailed \<Rightarrow> [SealPreCommit1Failed, WaitSeed, Committing, PreCommitWait, PreCommitFailed, PreCommitting,
        CommitWait, SubmitCommit, DealsExpired, RecoverDealIDs, Removing]
    | FinalizeFailed \<Rightarrow> [FinalizeSector]
    | PackingFailed \<Rightarrow> [DealsExpired]
    | RecoverDealIDs \<Rightarrow> [PreCommit1, PreCommitting, PreCommitFailed, CommitFailed]
    | Proving \<Rightarrow> [FaultReported, Faulty]
    | Terminating \<Rightarrow> [TerminateWait, TerminateFailed]
    | TerminateWait \<Rightarrow> [TerminateFinality, TerminateFailed]
    | TerminateFinality \<Rightarrow> [TerminateFailed]
    | Removing \<Rightarrow> [Removed, RemoveFailed]
    | Faulty \<Rightarrow> [FaultReported]
    | _ \<Rightarrow> [])"

definition goes_to :: "SectorState \<Rightarrow> trans \<Rightarrow> bool" where
  "goes_to st tr \<longleftrightarrow> (\<exists>s. tr = on (fst tr) s \<and> s \<in> set (successors st)) \<or> (\<exists>m. tr = apply_tr m)"

lemma goes_to_simps [simp]:
  "goes_to st (on m s) \<longleftrightarrow> s \<in> set (successors st)" "goes_to st (apply_tr m)"
proof -
  have "on m s \<noteq> apply_tr m'" for m'
  proof
    assume "on m s = apply_tr m'"
    then have "snd (on m s) zero_SectorInfo = snd (apply_tr m') zero_SectorInfo" by simp
    then show False by (simp add: on_def apply_tr_def)
  qed
  then show "goes_to st (on m s) \<longleftrightarrow> s \<in> set (successors st)" by (simp add: goes_to_def)
qed (auto simp: goes_to_def)

lemma fsmPlanners_goes_to:
  assumes "fsmPlanners st = Some p" and "st \<notin> {Committing, RecoverDealIDs}"
  shows "p = final \<or> (\<exists>ts. p = planOne ts \<and> list_all (goes_to st) ts)"
proof -
  have *: "planOne ts = p \<Longrightarrow> list_all (goes_to s) ts \<Longrightarrow>
      p = final \<or> (\<exists>ts. p = planOne ts \<and> list_all (goes_to s) ts)" for s ts by blast
  show ?thesis
    by (insert assms, cases st; simp only: fsmPlanners_def SectorState.case option.inject option.distinct;
        (rule disjI1, erule sym)?; (erule *)?; simp add: successors_def)
qed

text \<open>A state reached by planning: the same one, a target of its planner, or one of the two
  that global events force.\<close>

definition next_ok :: "SectorState \<Rightarrow> SectorState \<Rightarrow> bool" where
  "next_ok st st' \<longleftrightarrow> st' = st \<or> st' = Terminating \<or> st' = Removing \<or> st' \<in> set (successors st)"

lemma apply_mut_State: "apply_mut t e si = Some si1 \<Longrightarrow> State si1 = State si"
  by (cases e) (auto simp: apply_mut_con apply_defs SectorPacked_apply_eq SectorUpdateDealIDs_apply_Some
      split: if_splits)

lemma applyGlobal_next:
  "applyGlobal e si = Some (si1, b) \<Longrightarrow> \<forall>st. e \<noteq> SectorForceState st \<Longrightarrow>
    State si1 = State si \<or> State si1 = Terminating \<or> State si1 = Removing"
  by (auto simp: applyGlobal_Some)

lemma inner_goes_to:
  assumes "list_all (goes_to st) ts" "State si = st"
  shows "(planOne_inner t ts e si = Returned err si1 \<longrightarrow> State si1 \<in> set (successors st)) \<and>
    (planOne_inner t ts e si = FellThrough si1 \<longrightarrow> State si1 = st)"
  using assms
proof (induction ts arbitrary: si)
  case (Cons tr ts)
  consider (on) s where "tr = on (fst tr) s" "s \<in> set (successors st)" | (app) m where "tr = apply_tr m"
    using Cons.prems by (auto simp: goes_to_def)
  then show ?case
  proof cases
    case on
    obtain m where tr: "tr = on m s" using on(1) by blast
    show ?thesis using Cons on(2) unfolding tr by (auto simp: on_def split: option.splits)
  next
    case app
    show ?thesis
    proof (cases "apply_mut t e si")
      case (Some si2)
      with Cons.IH [of si] Cons.IH [of si2] Cons.prems apply_mut_State [OF Some] show ?thesis
        unfolding app by (simp add: apply_tr_def)
    qed (use Cons app in \<open>simp add: apply_tr_def\<close>)
  qed
qed auto

lemma planOne_loop_next:
  assumes "planOne_loop ts i t evs si = Some (n, err, si1)" "list_all (goes_to st) ts" "State si = st"
    and "\<forall>s. SectorForceState s \<notin> set evs"
  shows "next_ok st (State si1)"
  using assms(1,3,4)
proof (induction evs arbitrary: i si)
  case (Cons ev evs)
  show ?case
  proof (cases "applyGlobal ev si")
    case (Some r)
    with Cons.prems have "\<exists>b. applyGlobal ev si = Some (si1, b)" by (cases r) simp
    with applyGlobal_next [of ev si si1] Cons.prems(2,3) show ?thesis by (auto simp: next_ok_def)
  next
    case None
    show ?thesis
    proof (cases "planOne_inner t ts ev si")
      case (Returned er s1)
      with inner_goes_to [OF assms(2) Cons.prems(2), of t ev er s1] Cons.prems(1) None
      show ?thesis by (simp add: next_ok_def)
    next
      case (FellThrough s1)
      then have st: "State s1 = st" using inner_goes_to [OF assms(2) Cons.prems(2)] by blast
      show ?thesis
      proof (cases "is_Ignorable ev")
        case True
        with Cons.prems None FellThrough show ?thesis by (intro Cons.IH [OF _ st]) simp_all
      qed (use Cons.prems None FellThrough st in \<open>simp add: next_ok_def\<close>)
    qed (use Cons.prems None in simp)
  qed
qed (simp add: next_ok_def)

lemma planCommitting_loop_next:
  assumes "planCommitting_loop i t evs si = Some (n, err, si1)"
    and "State si \<in> insert Committing (set (successors Committing))"
    and "\<forall>s. SectorForceState s \<notin> set evs"
  shows "next_ok Committing (State si1)"
  using assms
proof (induction evs arbitrary: i si)
  case (Cons ev evs)
  have IH: "planCommitting_loop (Suc i) t evs s = Some (n, err, si1) \<Longrightarrow>
      State s = Committing \<or> State s \<in> set (successors Committing) \<Longrightarrow> next_ok Committing (State si1)" for s
    using Cons.IH Cons.prems(3) by simp
  have nx: "s = Committing \<or> s \<in> set (successors Committing) \<Longrightarrow> next_ok Committing s" for s
    by (auto simp: next_ok_def)
  have mem: "SubmitCommit \<in> set (successors Committing)" "ComputeProofFailed \<in> set (successors Committing)"
    "SealPreCommit1Failed \<in> set (successors Committing)" "CommitFailed \<in> set (successors Committing)"
    "CommitWait \<in> set (successors Committing)"
    by (simp_all add: successors_def)
  have nf: "\<forall>st. ev \<noteq> SectorForceState st" using Cons.prems(3) by auto
  show ?case
  proof (cases "applyGlobal ev si")
    case (Some r)
    obtain s1 b where r: "r = (s1, b)" by (cases r)
    show ?thesis
    proof (cases b)
      case True
      with Some r Cons.prems(1) have "s1 = si1" by simp
      with applyGlobal_next [OF _ nf, of si s1 b] Some r Cons.prems(2) show ?thesis
        by (auto simp: next_ok_def)
    next
      case False
      with Some r have "s1 = si" by (auto simp: applyGlobal_Some)
      with False Some r Cons.prems IH [of s1] show ?thesis by simp
    qed
  next
    case None
    then show ?thesis using Cons.prems(1,2)
      by (cases ev) (auto simp: mem apply_defs nx split: if_splits intro: IH)
  qed
qed (auto simp: next_ok_def)

lemma recover_next:
  assumes "planOne_loop [onReturning (SectorUpdateDealIDs [])] i t evs si = Some (n, None, si1)"
    and "State si = RecoverDealIDs" "valid_return (Return si)" "\<forall>s. SectorForceState s \<notin> set evs"
  shows "next_ok RecoverDealIDs (State si1)"
  using assms
proof (induction evs arbitrary: i)
  case (Cons ev evs)
  have nf: "\<forall>st. ev \<noteq> SectorForceState st" using Cons.prems(4) by auto
  show ?case
  proof (cases "applyGlobal ev si")
    case (Some r)
    with Cons.prems obtain b where "applyGlobal ev si = Some (si1, b)" by (cases r) simp
    from applyGlobal_next [OF this nf] Cons.prems(2) show ?thesis by (auto simp: next_ok_def)
  next
    case None
    have "next_ok RecoverDealIDs (Return si)"
      using Cons.prems(3) by (auto simp: next_ok_def valid_return_def successors_def Ret_defs)
    moreover have "State si1 = Return si" if "TypeOf ev = 40"
      using that Cons.prems None
      by (auto simp: onReturning_def TypeOf_con TypeOf_eq apply_mut_con SectorUpdateDealIDs_apply_Some
          split: option.splits if_splits inner.splits)
    ultimately show ?thesis
      using Cons None by (cases "TypeOf ev = 40") (auto simp: onReturning_def TypeOf_con split: if_splits)
  qed
qed (simp add: next_ok_def)

lemma final_next:
  assumes "final t evs si = Some (n, None, si1)" "\<forall>s. SectorForceState s \<notin> set evs"
  shows "next_ok (State si) (State si1)"
  using assms applyGlobal_next [of "hd evs" si si1]
  by (cases evs) (auto simp: final_def next_ok_def split: option.splits)

lemma planner_next:
  assumes "fsmPlanners (State si) = Some p" and "p t evs si = Some (n, None, si1)"
    and "\<forall>s. SectorForceState s \<notin> set evs" and "State si = RecoverDealIDs \<longrightarrow> valid_return (Return si)"
  shows "next_ok (State si) (State si1)"
proof -
  consider "State si = Committing" | "State si = RecoverDealIDs"
    | "State si \<notin> {Committing, RecoverDealIDs}" by blast
  then show ?thesis
  proof cases
    case 1
    with assms show ?thesis
      using planCommitting_loop_next [of 0 t evs si n None si1]
      by (simp add: fsmPlanners_def planCommitting_def)
  next
    case 2
    with assms show ?thesis
      using recover_next [of 0 t evs si n si1] by (simp add: fsmPlanners_def planOne_def)
  next
    case 3
    from fsmPlanners_goes_to [OF assms(1) 3] assms(2,3) show ?thesis
      by (auto simp: planOne_def intro: planOne_loop_next final_next)
  qed
qed

lemma plan_planner:
  assumes "plan env stats events si = Some r" and "res_err r = None"
  obtains p n si1 where "fsmPlanners (State si) = Some p"
    "p (env_now env) events (logEvents env events si) = Some (n, None, si1)"
    "res_sector r = snd (select_handler si1)" "res_next r = fst (select_handler si1)"
proof -
  have "State (logEvents env events si) = State si" by (subst logEvents_frame) simp
  with assms that show thesis
    by (auto simp: plan_def Let_def split: option.splits prod.splits)
qed

lemma select_handler_sector:
  "snd (select_handler si) = (if State si = PackingFailed then si\<lparr>State := DealsExpired\<rparr> else si)"
  by (simp add: select_handler_def split: SectorState.splits)

lemma into_PackingFailed: "next_ok st PackingFailed \<Longrightarrow> st = PackingFailed"
  by (cases st) (simp_all add: next_ok_def successors_def)

section \<open>The machine of one sector\<close>

text \<open>
  Events that do not come from the handler of the current state: requests of the operator and of
  the deal input, restarts, timers, the PoSt scheduler, and late callbacks of \<open>handleWaitSeed\<close>.
\<close>

definition external_event :: "event \<Rightarrow> bool" where
  "external_event e \<longleftrightarrow> (case e of
      SectorRestart \<Rightarrow> True | SectorFatalError _ \<Rightarrow> True | SectorStart _ _ \<Rightarrow> True
    | SectorStartCC _ _ \<Rightarrow> True | SectorAddPiece \<Rightarrow> True | SectorStartPacking \<Rightarrow> True
    | SectorTerminate \<Rightarrow> True | SectorRemove \<Rightarrow> True | SectorFaulty \<Rightarrow> True
    | SectorFaultReported _ \<Rightarrow> True | SectorSeedReady _ _ \<Rightarrow> True
    | SectorChainPreCommitFailed _ \<Rightarrow> True | _ \<Rightarrow> False)"

text \<open>
  One event planned successfully, in an environment in which events can be marshalled. An event
  the planner refuses leaves the stored sector as it is.
\<close>

definition planned :: "event \<Rightarrow> SectorInfo \<Rightarrow> SectorInfo \<Rightarrow> bool" where
  "planned e si si' \<longleftrightarrow> (\<exists>env stats r. (\<forall>ev. \<exists>t. env_marshal env ev = Inr t) \<and>
     plan env stats [e] si = Some r \<and> res_err r = None \<and> si' = res_sector r)"

abbreviation reachable :: "SectorInfo \<Rightarrow> bool" where
  "reachable \<equiv> machine_reach zero_SectorInfo external_event handler_sends planned"

lemma sector_inv_Logs: "sector_inv si \<Longrightarrow> l \<noteq> [] \<Longrightarrow> sector_inv (si\<lparr>Logs := l\<rparr>)"
  by (auto simp: sector_inv_def holds_def sealed_def split: fact.splits)

lemma ok_event_Logs: "ok_event (si\<lparr>Logs := l\<rparr>) e = ok_event si e"
  by (simp add: ok_event_def sealed_def split: event.splits)

lemma sector_inv_DealsExpired: "sector_inv si \<Longrightarrow> Logs si \<noteq> [] \<Longrightarrow> sector_inv (si\<lparr>State := DealsExpired\<rparr>)"
  by (simp add: sector_inv_def needs_def sealed_def)

lemma planned_inv:
  assumes "sector_inv si" "ok_event si e" "planned e si si'"
  shows "sector_inv si'"
proof -
  obtain env stats r where m: "\<forall>ev. \<exists>t. env_marshal env ev = Inr t"
    and r: "plan env stats [e] si = Some r" "res_err r = None" and si': "si' = res_sector r"
    using assms(3) by (auto simp: planned_def)
  let ?si = "logEvents env [e] si"
  obtain p n si1 where p: "fsmPlanners (State si) = Some p"
    "p (env_now env) [e] ?si = Some (n, None, si1)" "res_sector r = snd (select_handler si1)"
    using plan_planner [OF r] by blast
  have st: "State ?si = State si" by (subst logEvents_frame) simp
  show ?thesis
  proof (cases "Logs ?si = []")
    case True
    then have l: "Logs si = []" using logEvents_keeps_nonempty by blast
    have e: "e = SectorRestart" using True m logEvents_nonempty by blast
    from l assms(1) have u: "State si = UndefinedSectorState" by (auto simp: sector_inv_def)
    from e m have "?si = si" by (simp split: sum.splits)
    with u e p(1,2) have "si1 = si" by (auto simp: fsmPlanners_def planOne_def applyGlobal_def)
    with u p(3) assms(1) si' show ?thesis by (simp add: select_handler_sector)
  next
    case False
    have i: "sector_inv ?si"
      using sector_inv_Logs [OF assms(1) False] logEvents_frame [of env "[e]" si] by simp
    have o: "ok_event ?si e"
      using assms(2) ok_event_Logs [of "Logs ?si" si e] logEvents_frame [of env "[e]" si] by simp
    have i1: "sector_inv si1" using planner_inv [of ?si p "env_now env" e n si1] st p(1,2) o i False by simp
    have "State si1 \<noteq> UndefinedSectorState \<longrightarrow> Logs si1 \<noteq> []" using i1 by (simp add: sector_inv_def)
    with i1 p(3) si' show ?thesis by (auto simp: select_handler_sector intro: sector_inv_DealsExpired)
  qed
qed

interpretation sector: event_machine zero_SectorInfo external_event handler_sends planned sector_inv ok_event
proof
  show "sector_inv zero_SectorInfo"
    by (simp add: sector_inv_def zero_SectorInfo_def needs_def)
  show "external_event e \<Longrightarrow> sector_inv s \<Longrightarrow> ok_event s e" for e s
    by (cases e) (simp_all add: external_event_def ok_event_def)
  show "sector_inv s \<Longrightarrow> handler_sends s e \<Longrightarrow> ok_event s e" for s e
    by (rule may_send_ok [OF handler_sends_may_send])
  show "sector_inv s \<Longrightarrow> ok_event s e \<Longrightarrow> planned e s s' \<Longrightarrow> sector_inv s'" for s s' e
    by (rule planned_inv)
qed

lemmas reachable_inv = sector.reach_inv

end
