(* ===== verification/Sealing_Matching.thy ===== *)
theory Sealing_Matching
  imports Sealing_Input
begin

text \<open>
  Correctness of the deal input of \<^verbatim>\<open>input.go\<close>: what \<open>updateInput\<close> establishes, the invariant of
  the assignment maps under every input operation, and the admission of deals. The operations of
  several sectors form a machine (theory \<open>Prelude\<close>) whose events are the input operations.
\<close>

text \<open>Sector identifiers are pairs, and quantifiers over them are better kept whole.\<close>

declare split_paired_All [simp del] split_paired_Ex [simp del]

section \<open>What the matching loops compute\<close>

lemma match_sectors_defined: "sz \<noteq> 0 \<Longrightarrow> match_sectors space opens c sz ids \<noteq> None"
  by (induction ids) (auto simp: Let_def split: option.splits)

definition is_match ::
  "u64 \<Rightarrow> (u64 \<times> u64 \<rightharpoonup> openSector) \<Rightarrow> (u64 \<times> u64) list \<Rightarrow> cid \<Rightarrow> u64 \<Rightarrow> mtch \<Rightarrow> bool" where
  "is_match space opens ids c sz mt \<longleftrightarrow> (\<exists>sid os. sid \<in> set ids \<and> opens sid = Some os \<and>
     sz \<le> space - os_used os \<and>
     mt = \<lparr>mt_sector = sid, mt_deal = c, mt_size = sz, mt_padding = (space - os_used os) mod sz\<rparr>)"

lemma match_sectors_mem:
  "match_sectors space opens c sz ids = Some ms \<Longrightarrow> mt \<in> set ms \<longleftrightarrow> is_match space opens ids c sz mt"
proof (induction ids arbitrary: ms)
  case (Cons sid ids)
  have e: "is_match space opens (sid # ids) c sz mt \<longleftrightarrow>
      is_match space opens [sid] c sz mt \<or> is_match space opens ids c sz mt"
    unfolding is_match_def by (auto simp del: split_paired_Ex)
  show ?case
  proof (cases "\<exists>os. opens sid = Some os \<and> sz \<le> space - os_used os")
    case False
    with Cons.prems have "match_sectors space opens c sz ids = Some ms"
      by (auto simp: Let_def split: option.splits)
    moreover have "\<not> is_match space opens [sid] c sz mt" using False by (auto simp: is_match_def)
    ultimately show ?thesis using Cons.IH e by simp
  next
    case True
    then obtain os where os: "opens sid = Some os" "sz \<le> space - os_used os" by blast
    with Cons.prems obtain ms' where ms': "match_sectors space opens c sz ids = Some ms'"
      "ms = \<lparr>mt_sector = sid, mt_deal = c, mt_size = sz, mt_padding = (space - os_used os) mod sz\<rparr> # ms'"
      by (auto simp: Let_def split: if_splits)
    have "is_match space opens [sid] c sz mt \<longleftrightarrow>
        mt = \<lparr>mt_sector = sid, mt_deal = c, mt_size = sz, mt_padding = (space - os_used os) mod sz\<rparr>"
      using os by (simp add: is_match_def)
    with Cons.IH [OF ms'(1)] ms'(2) e show ?thesis by simp
  qed
qed (simp add: is_match_def)

definition waiting :: "input_state \<Rightarrow> cid \<Rightarrow> u64 \<Rightarrow> bool" where
  "waiting m c sz \<longleftrightarrow> (\<exists>pp. pendingPieces m c = Some pp \<and> \<not> pp_assigned pp \<and> pp_size pp = sz)"

lemma match_pieces_spec:
  assumes "match_pieces space ord m cs = Some (ms, ta)"
  shows "set ta = {c \<in> set cs. \<exists>sz. waiting m c sz} \<and>
    (\<forall>mt. mt \<in> set ms \<longleftrightarrow> (\<exists>c \<in> set cs. \<exists>sz. waiting m c sz \<and>
       is_match space (openSectors m) (open_order ord c) c sz mt))"
  using assms
proof (induction cs arbitrary: ms ta)
  case (Cons c cs)
  show ?case
  proof (cases "\<exists>sz. waiting m c sz")
    case False
    then have "match_pieces space ord m cs = Some (ms, ta)"
      using Cons.prems by (auto simp: waiting_def split: option.splits if_splits)
    from Cons.IH [OF this] False show ?thesis by auto
  next
    case True
    then obtain sz where w: "waiting m c sz" ..
    then obtain ms1 ms2 ta' where
      1: "match_sectors space (openSectors m) c sz (open_order ord c) = Some ms1"
      "match_pieces space ord m cs = Some (ms2, ta')" "ms = ms1 @ ms2" "ta = c # ta'"
      using Cons.prems by (auto simp: waiting_def split: option.splits if_splits)
    have u: "waiting m c sz' \<longleftrightarrow> sz' = sz" for sz' using w by (auto simp: waiting_def)
    show ?thesis
      using Cons.IH [OF 1(2)] match_sectors_mem [OF 1(1)] 1(3,4) u by auto
  qed
qed simp

lemma match_pieces_defined:
  assumes "\<forall>c pp. pendingPieces m c = Some pp \<longrightarrow> pp_size pp \<noteq> 0"
  shows "match_pieces space ord m cs \<noteq> None"
proof (induction cs)
  case (Cons c cs)
  show ?case
  proof (cases "pendingPieces m c")
    case (Some pp)
    with assms match_sectors_defined [of "pp_size pp" space "openSectors m" c "open_order ord c"] Cons
    show ?thesis by auto
  qed (use Cons in simp)
qed simp

lemma set_slice_sort: "slice_sort lt f \<Longrightarrow> set (f xs) = set xs"
  by (metis mset_eq_setD slice_sort_def)

text \<open>Insertion is one such sort, when the order is transitive and total on different elements.\<close>

primrec insertion :: "('a \<Rightarrow> 'a \<Rightarrow> bool) \<Rightarrow> 'a \<Rightarrow> 'a list \<Rightarrow> 'a list" where
  "insertion lt x [] = [x]"
| "insertion lt x (y # ys) = (if lt y x then y # insertion lt x ys else x # y # ys)"

definition insertion_sort :: "('a \<Rightarrow> 'a \<Rightarrow> bool) \<Rightarrow> 'a list \<Rightarrow> 'a list" where
  "insertion_sort lt xs = foldr (insertion lt) xs []"

lemma mset_insertion: "mset (insertion lt x ys) = add_mset x (mset ys)"
  by (induction ys) auto

lemma set_insertion: "set (insertion lt x ys) = insert x (set ys)"
  by (induction ys) auto

lemma sorted_insertion:
  assumes "\<And>x y. lt x y \<Longrightarrow> \<not> lt y x" "\<And>x y z. \<not> lt y x \<Longrightarrow> \<not> lt z y \<Longrightarrow> \<not> lt z x"
  shows "sorted_wrt (\<lambda>x y. \<not> lt y x) ys \<Longrightarrow> sorted_wrt (\<lambda>x y. \<not> lt y x) (insertion lt x ys)"
proof (induction ys)
  case (Cons y ys)
  have "\<not> lt z x" if "\<not> lt y x" "z \<in> set ys" for z using assms(2) [OF that(1)] Cons.prems that(2) by simp
  then show ?case using Cons assms(1) [of y x] by (simp add: set_insertion)
qed simp

lemma slice_sort_insertion:
  assumes "\<And>x y. lt x y \<Longrightarrow> \<not> lt y x" "\<And>x y z. \<not> lt y x \<Longrightarrow> \<not> lt z y \<Longrightarrow> \<not> lt z x"
  shows "slice_sort lt (insertion_sort lt)"
proof -
  have "mset (foldr (insertion lt) xs []) = mset xs \<and> sorted_wrt (\<lambda>x y. \<not> lt y x) (foldr (insertion lt) xs [])" for xs
  proof (induction xs)
    case (Cons x xs)
    have "sorted_wrt (\<lambda>x y. \<not> lt y x) (insertion lt x (foldr (insertion lt) xs []))"
      by (rule sorted_insertion [where lt = lt]) (fact assms, fact assms, simp add: Cons)
    then show ?case using Cons by (simp add: mset_insertion)
  qed simp
  then show ?thesis by (simp add: slice_sort_def insertion_sort_def)
qed

lemma slice_sort_instances:
  "slice_sort match_less (insertion_sort match_less)" "slice_sort (\<lambda>x y. av x < av y) (insertion_sort (\<lambda>x y. av x < (av y :: u64)))"
  by (rule slice_sort_insertion; auto simp: match_less_def split: if_splits)+

section \<open>The assignment loop\<close>

text \<open>The state after a piece was assigned; \<open>closed\<close> tells whether the sector was closed for it.\<close>

definition assigned_state :: "mtch \<Rightarrow> pendingPiece \<Rightarrow> bool \<Rightarrow> input_state \<Rightarrow> input_state" where
  "assigned_state mt pp closed m = m\<lparr>
     assignedPieces := (assignedPieces m)(mt_sector mt \<mapsto>
       (case assignedPieces m (mt_sector mt) of None \<Rightarrow> [] | Some cs \<Rightarrow> cs) @ [mt_deal mt]),
     pendingPieces := (pendingPieces m)(mt_deal mt \<mapsto> pp\<lparr>pp_assigned := True\<rparr>),
     openSectors := (if closed then (openSectors m)(mt_sector mt := None) else openSectors m)\<rparr>"

lemma assign_loop_assign:
  assumes "pendingPieces m (mt_deal mt) = Some pp" "\<not> pp_assigned pp" "openSectors m (mt_sector mt) \<noteq> None"
    and "assign_loop w (mt # mts) m ta = Some (m', ta', rs, es)"
  shows "\<exists>rs' es'. assign_loop w mts (assigned_state mt pp (SendEvent w (Suc (length mts)) (snd (mt_sector mt)) = None) m)
    (removeAll (mt_deal mt) ta) = Some (m', ta', rs', es')"
proof -
  let ?m = "m\<lparr>assignedPieces := (assignedPieces m)(mt_sector mt \<mapsto>
       (case assignedPieces m (mt_sector mt) of None \<Rightarrow> [] | Some cs \<Rightarrow> cs) @ [mt_deal mt]),
     pendingPieces := (pendingPieces m)(mt_deal mt \<mapsto> pp\<lparr>pp_assigned := True\<rparr>)\<rparr>"
  have t: "?m\<lparr>openSectors := (openSectors m)(mt_sector mt := None)\<rparr> = assigned_state mt pp True m"
    by (simp add: assigned_state_def)
  have f: "?m = assigned_state mt pp False m" by (cases m) (simp add: assigned_state_def)
  show ?thesis
  proof (cases "SendEvent w (Suc (length mts)) (snd (mt_sector mt))")
    case None
    with assms t show ?thesis by (auto simp: maybeAccept_def Let_def simp del: fun_upd_apply)
  next
    case (Some e)
    with assms f show ?thesis by (auto simp: maybeAccept_def Let_def simp del: fun_upd_apply)
  qed
qed

lemma assign_loop_induct [consumes 1, case_names nil skip assign]:
  assumes "assign_loop w mts m ta = Some (m', ta', rs, es)"
    and "\<And>m ta. P [] m ta m ta"
    and "\<And>mt mts m ta m' ta'. \<forall>sz. waiting m (mt_deal mt) sz \<longrightarrow> openSectors m (mt_sector mt) = None \<Longrightarrow>
      P mts m ta m' ta' \<Longrightarrow> P (mt # mts) m ta m' ta'"
    and "\<And>mt mts m ta m' ta' pp b. pendingPieces m (mt_deal mt) = Some pp \<Longrightarrow> \<not> pp_assigned pp \<Longrightarrow>
      openSectors m (mt_sector mt) \<noteq> None \<Longrightarrow>
      P mts (assigned_state mt pp b m) (removeAll (mt_deal mt) ta) m' ta' \<Longrightarrow> P (mt # mts) m ta m' ta'"
  shows "P mts m ta m' ta'"
  using assms(1)
proof (induction mts arbitrary: m ta rs es)
  case Nil
  then show ?case using assms(2) by simp
next
  case (Cons mt mts)
  obtain pp where pp: "pendingPieces m (mt_deal mt) = Some pp"
    using Cons.prems by (auto split: option.splits)
  show ?case
  proof (cases "pp_assigned pp \<or> openSectors m (mt_sector mt) = None")
    case True
    with pp Cons.prems have "assign_loop w mts m ta = Some (m', ta', rs, es)" by (auto split: if_splits)
    then show ?thesis using True pp by (intro assms(3) Cons.IH) (auto simp: waiting_def)
  next
    case False
    then obtain b rs' es' where
      "assign_loop w mts (assigned_state mt pp b m) (removeAll (mt_deal mt) ta) = Some (m', ta', rs', es')"
      using assign_loop_assign [OF pp _ _ Cons.prems] by blast
    with False pp show ?thesis by (intro assms(4) Cons.IH) auto
  qed
qed

lemma assign_loop_defined:
  "\<forall>mt \<in> set mts. pendingPieces m (mt_deal mt) \<noteq> None \<Longrightarrow> assign_loop w mts m ta \<noteq> None"
proof (induction mts arbitrary: m ta)
  case (Cons mt mts)
  from Cons.prems obtain pp where pp: "pendingPieces m (mt_deal mt) = Some pp" by auto
  have D: "assign_loop w mts m1 ta1 = None \<Longrightarrow> dom (pendingPieces m) \<subseteq> dom (pendingPieces m1) \<Longrightarrow> False" for m1 ta1
    using Cons.prems Cons.IH [of m1 ta1] by (fastforce simp: subset_iff)
  show ?case
  proof
    assume "assign_loop w (mt # mts) m ta = None"
    with pp show False
      by (auto simp: maybeAccept_def Let_def split: option.splits if_splits dest!: D)
  qed
qed simp

text \<open>Assigning only sets flags and closes sectors.\<close>

lemma waiting_assigned:
  "pendingPieces m (mt_deal mt) = Some pp \<Longrightarrow>
    waiting (assigned_state mt pp b m) c sz \<longleftrightarrow> waiting m c sz \<and> c \<noteq> mt_deal mt"
  by (auto simp: waiting_def assigned_state_def)

lemma open_assigned:
  "openSectors (assigned_state mt pp b m) sid = Some os \<Longrightarrow> openSectors m sid = Some os"
  by (auto simp: assigned_state_def split: if_splits)

lemma assign_loop_frame:
  assumes "assign_loop w mts m ta = Some (m', ta', rs, es)"
  shows "(\<forall>c sz. waiting m' c sz \<longrightarrow> waiting m c sz) \<and>
    (\<forall>sid os. openSectors m' sid = Some os \<longrightarrow> openSectors m sid = Some os) \<and>
    map_option pp_size \<circ> pendingPieces m' = map_option pp_size \<circ> pendingPieces m"
  using assms
proof (induction rule: assign_loop_induct)
  case (assign mt mts m ta m' ta' pp b)
  have "map_option pp_size \<circ> pendingPieces (assigned_state mt pp b m) = map_option pp_size \<circ> pendingPieces m"
    using assign(1) by (auto simp: assigned_state_def)
  moreover have "openSectors m' sid = Some os \<Longrightarrow> openSectors m sid = Some os" for sid os
    using assign(4) open_assigned by blast
  ultimately show ?case using assign(1,4) by (simp add: waiting_assigned)
qed simp_all

lemma assign_loop_settles:
  assumes "assign_loop w mts m ta = Some (m', ta', rs, es)"
  shows "\<forall>mt \<in> set mts. \<forall>sz os. waiting m' (mt_deal mt) sz \<longrightarrow> openSectors m' (mt_sector mt) = None"
  using assms
proof -
  have "(\<forall>c sz. waiting m' c sz \<longrightarrow> waiting m c sz) \<and>
    (\<forall>sid os. openSectors m' sid = Some os \<longrightarrow> openSectors m sid = Some os) \<and>
    (\<forall>mt \<in> set mts. \<forall>sz. waiting m' (mt_deal mt) sz \<longrightarrow> openSectors m' (mt_sector mt) = None)"
    using assms
  proof (induction rule: assign_loop_induct)
    case (skip mt mts m ta m' ta')
    then have "waiting m' (mt_deal mt) sz \<Longrightarrow> openSectors m' (mt_sector mt) = None" for sz
      by (metis not_None_eq)
    with skip show ?case by auto
  next
    case (assign mt mts m ta m' ta' pp b)
    then have "openSectors m' sid = Some os \<Longrightarrow> openSectors m sid = Some os" for sid os
      using open_assigned by blast
    with assign show ?case by (auto simp: waiting_assigned)
  qed simp
  then show ?thesis by blast
qed

lemma assign_loop_toAssign:
  assumes "assign_loop w mts m ta = Some (m', ta', rs, es)"
    and "\<forall>c \<in> set ta. \<exists>sz. waiting m c sz"
  shows "set ta' = {c \<in> set ta. \<exists>sz. waiting m' c sz}"
proof -
  have "(\<forall>c sz. waiting m' c sz \<longrightarrow> waiting m c sz) \<and>
    ((\<forall>c \<in> set ta. \<exists>sz. waiting m c sz) \<longrightarrow> set ta' = {c \<in> set ta. \<exists>sz. waiting m' c sz})"
    using assms(1)
  proof (induction rule: assign_loop_induct)
    case (assign mt mts m ta m' ta' pp b)
    then have "\<not> waiting m' (mt_deal mt) sz" for sz by (auto simp: waiting_assigned)
    with assign show ?case by (auto simp: waiting_assigned)
  qed auto
  with assms(2) show ?thesis by blast
qed

section \<open>The assignment maps\<close>

text \<open>
  Every piece assigned to a sector is pending and marked, and is assigned to one sector, once.
\<close>

definition assigned_ok :: "input_state \<Rightarrow> bool" where
  "assigned_ok m \<longleftrightarrow>
    (\<forall>sid cs. assignedPieces m sid = Some cs \<longrightarrow> distinct cs \<and>
       (\<forall>c \<in> set cs. \<exists>pp. pendingPieces m c = Some pp \<and> pp_assigned pp)) \<and>
    (\<forall>s1 s2 cs1 cs2. s1 \<noteq> s2 \<longrightarrow> assignedPieces m s1 = Some cs1 \<longrightarrow> assignedPieces m s2 = Some cs2 \<longrightarrow>
       set cs1 \<inter> set cs2 = {})"

lemma assigned_okD:
  assumes "assigned_ok m" "assignedPieces m sid = Some cs"
  shows "distinct cs" "c \<in> set cs \<Longrightarrow> \<exists>pp. pendingPieces m c = Some pp \<and> pp_assigned pp"
    "sid \<noteq> sid' \<Longrightarrow> assignedPieces m sid' = Some cs' \<Longrightarrow> set cs \<inter> set cs' = {}"
  using assms unfolding assigned_ok_def by blast+

lemma assigned_state_ok:
  assumes "assigned_ok m" "pendingPieces m (mt_deal mt) = Some pp" "\<not> pp_assigned pp"
  shows "assigned_ok (assigned_state mt pp b m)"
proof -
  let ?d = "mt_deal mt" and ?s = "mt_sector mt" and ?m = "assigned_state mt pp b m"
  define old where "old = (case assignedPieces m ?s of None \<Rightarrow> [] | Some cs \<Rightarrow> cs)"
  have fresh: "?d \<notin> set cs" if "assignedPieces m sid = Some cs" for sid cs
    using assigned_okD(2) [OF assms(1) that] assms(2,3) by fastforce
  have o: "distinct old" "?d \<notin> set old" "\<forall>c\<in>set old. \<exists>pp. pendingPieces m c = Some pp \<and> pp_assigned pp"
    using assigned_okD(1,2) [OF assms(1), of "mt_sector mt"] fresh [of "mt_sector mt"]
    by (cases "assignedPieces m (mt_sector mt)"; simp add: old_def)+
  have dj: "set old \<inter> set cs = {}" if "sid \<noteq> ?s" "assignedPieces m sid = Some cs" for sid cs
    using assigned_okD(3) [OF assms(1) that(2), of ?s] that(1)
    by (cases "assignedPieces m ?s"; simp add: old_def inf_commute)
  have a: "assignedPieces ?m sid = (if sid = ?s then Some (old @ [?d]) else assignedPieces m sid)" for sid
    by (simp add: assigned_state_def old_def)
  have p: "(\<exists>pp. pendingPieces ?m c = Some pp \<and> pp_assigned pp)"
    if "c = ?d \<or> (\<exists>pp. pendingPieces m c = Some pp \<and> pp_assigned pp)" for c
    using that by (auto simp: assigned_state_def)
  show ?thesis
    unfolding assigned_ok_def
  proof (intro conjI allI impI ballI)
    fix sid cs assume "assignedPieces ?m sid = Some cs"
    then show "distinct cs" using o assigned_okD(1) [OF assms(1)] by (auto simp: a split: if_splits)
  next
    fix sid cs c assume "assignedPieces ?m sid = Some cs" "c \<in> set cs"
    then show "\<exists>pp. pendingPieces ?m c = Some pp \<and> pp_assigned pp"
      using o(3) assigned_okD(2) [OF assms(1)] by (intro p) (auto simp: a split: if_splits)
  next
    fix s1 s2 cs1 cs2
    assume s: "s1 \<noteq> s2" "assignedPieces ?m s1 = Some cs1" "assignedPieces ?m s2 = Some cs2"
    show "set cs1 \<inter> set cs2 = {}"
    proof (cases "s1 = ?s \<or> s2 = ?s")
      case True
      with s dj [of s1] dj [of s2] fresh [of s1] fresh [of s2] show ?thesis by (auto simp: a split: if_splits)
    next
      case False
      with s assigned_okD(3) [OF assms(1)] show ?thesis by (auto simp: a)
    qed
  qed
qed

lemma assign_loop_ok:
  assumes "assign_loop w mts m ta = Some (m', ta', rs, es)"
  shows "assigned_ok m \<longrightarrow> assigned_ok m'"
  using assms
proof (induction rule: assign_loop_induct)
  case (assign mt mts m ta m' ta' pp b)
  then show ?case using assigned_state_ok by blast
qed simp_all

text \<open>When no waiting piece was assigned nothing happened.\<close>

lemma assign_loop_idle:
  assumes "assign_loop w mts m ta = Some (m', ta', rs, es)"
  shows "(\<forall>c sz. waiting m' c sz \<longrightarrow> waiting m c sz) \<and> ((\<forall>c sz. waiting m c sz \<longrightarrow> waiting m' c sz) \<longrightarrow> m' = m)"
  using assms
proof (induction rule: assign_loop_induct)
  case (assign mt mts m ta m' ta' pp b)
  have "waiting m (mt_deal mt) (pp_size pp)" using assign(1,2) by (simp add: waiting_def)
  moreover have "waiting m' c sz \<Longrightarrow> waiting m c sz \<and> c \<noteq> mt_deal mt" for c sz
    using assign(4) waiting_assigned [OF assign(1)] by blast
  ultimately show ?case by blast
qed simp_all

section \<open>What \<open>updateInput\<close> establishes\<close>

text \<open>Go's \<^verbatim>\<open>range\<close> over a map sees every entry, and \<^verbatim>\<open>sort.Slice\<close> sorts.\<close>

definition sorts :: "input_order \<Rightarrow> bool" where
  "sorts ord \<longleftrightarrow> slice_sort match_less (sort_matches ord) \<and> (\<forall>av. slice_sort (\<lambda>x y. av x < av y) (sort_avails ord av))"

definition complete_order :: "input_order \<Rightarrow> input_state \<Rightarrow> bool" where
  "complete_order ord m \<longleftrightarrow> dom (pendingPieces m) \<subseteq> set (pend_order ord) \<and> dom (pendingPieces m) \<subseteq> set (busy_pend ord) \<and>
     (\<forall>c. dom (openSectors m) \<subseteq> set (open_order ord c)) \<and> sorts ord"

lemma sorts_sets:
  assumes "sorts ord"
  shows "set (sort_matches ord ms) = set ms" "set (sort_avails ord av ids) = set ids"
proof -
  have "slice_sort match_less (sort_matches ord)" "slice_sort (\<lambda>x y. av x < av y) (sort_avails ord av)"
    using assms by (auto simp: sorts_def)
  then show "set (sort_matches ord ms) = set ms" "set (sort_avails ord av ids) = set ids" by (simp_all add: set_slice_sort)
qed

lemma complete_orderD:
  assumes "complete_order ord m"
  shows "sorts ord" "waiting m c sz \<Longrightarrow> c \<in> set (pend_order ord)" "waiting m c sz \<Longrightarrow> c \<in> set (busy_pend ord)"
    "openSectors m sid = Some os \<Longrightarrow> sid \<in> set (open_order ord c)"
  using assms unfolding complete_order_def waiting_def by blast+

definition settled :: "u64 \<Rightarrow> input_state \<Rightarrow> bool" where
  "settled space m \<longleftrightarrow> (\<forall>c sz sid os. waiting m c sz \<longrightarrow> openSectors m sid = Some os \<longrightarrow>
     \<not> sz \<le> space - os_used os)"

definition sizes_ok :: "u64 \<Rightarrow> input_state \<Rightarrow> bool" where
  "sizes_ok space m \<longleftrightarrow> (\<forall>c pp. pendingPieces m c = Some pp \<longrightarrow> pp_size pp \<noteq> 0 \<and> pp_size pp \<le> space)"

lemma match_pieces_busy: "match_pieces space (ord\<lparr>busy_pend := b\<rparr>) m cs = match_pieces space ord m cs"
  by (induction cs) (simp_all split: option.splits)

lemma updateInput_loop:
  assumes "updateInput w a lim sp ord m = Some u" "SectorSize w sp = Inr ssize"
  obtains ms ta ta' rs es where "match_pieces (Unpadded w ssize) ord m (pend_order ord) = Some (ms, ta)"
    "assign_loop w (sort_matches ord ms) m ta = Some (ui_state u, ta', rs, es)"
    "ta' = [] \<Longrightarrow> ui_err u = None"
    "ta' \<noteq> [] \<Longrightarrow> \<exists>cr. tryCreateDealSector w a lim sp = Some (ui_err u, cr)"
  using assms unfolding updateInput_def by (auto split: option.splits if_splits)

lemma updateInput_fails:
  assumes "updateInput w a lim sp ord m = Some u" "SectorSize w sp = Inl e"
  shows "ui_state u = m" "ui_err u = Some (InputErr e)"
  using assms by (auto simp: updateInput_def)

lemma updateInput_settled:
  assumes "updateInput w a lim sp ord m = Some u" "SectorSize w sp = Inr ssize" "complete_order ord m"
  shows "settled (Unpadded w ssize) (ui_state u)"
  unfolding settled_def
proof (intro allI impI notI)
  fix c sz sid os
  assume w: "waiting (ui_state u) c sz" and o: "openSectors (ui_state u) sid = Some os"
    and fits: "sz \<le> Unpadded w ssize - os_used os"
  obtain ms ta ta' rs es where 1: "match_pieces (Unpadded w ssize) ord m (pend_order ord) = Some (ms, ta)"
    and 2: "assign_loop w (sort_matches ord ms) m ta = Some (ui_state u, ta', rs, es)"
    using updateInput_loop [OF assms(1,2)] by metis
  have w0: "waiting m c sz" and o0: "openSectors m sid = Some os"
    using assign_loop_frame [OF 2] w o by blast+
  then have "c \<in> set (pend_order ord)" "sid \<in> set (open_order ord c)"
    using complete_orderD [OF assms(3)] by blast+
  let ?mt = "\<lparr>mt_sector = sid, mt_deal = c, mt_size = sz, mt_padding = (Unpadded w ssize - os_used os) mod sz\<rparr>"
  have "is_match (Unpadded w ssize) (openSectors m) (open_order ord c) c sz ?mt"
    unfolding is_match_def using o0 fits \<open>sid \<in> set (open_order ord c)\<close> by blast
  with match_pieces_spec [OF 1] w0 \<open>c \<in> set (pend_order ord)\<close> have "?mt \<in> set ms" by blast
  then have "?mt \<in> set (sort_matches ord ms)" using sorts_sets(1) [OF complete_orderD(1) [OF assms(3)]] by simp
  with assign_loop_settles [OF 2] w o show False by fastforce
qed

lemma updateInput_assigned_ok:
  assumes "updateInput w a lim sp ord m = Some u" "assigned_ok m"
  shows "assigned_ok (ui_state u)"
proof (cases "SectorSize w sp")
  case (Inr ssize)
  from updateInput_loop [OF assms(1) this] assign_loop_ok assms(2) show ?thesis by metis
qed (use assms updateInput_fails(1) in force)

lemma updateInput_sizes:
  assumes "updateInput w a lim sp ord m = Some u"
  shows "map_option pp_size \<circ> pendingPieces (ui_state u) = map_option pp_size \<circ> pendingPieces m"
proof (cases "SectorSize w sp")
  case (Inr ssize)
  from updateInput_loop [OF assms this] assign_loop_frame show ?thesis by metis
qed (use assms updateInput_fails(1) in force)

lemma same_size:
  assumes "map_option pp_size \<circ> pendingPieces m' = map_option pp_size \<circ> pendingPieces m"
    and "pendingPieces m' c = Some pp'"
  obtains pp where "pendingPieces m c = Some pp" "pp_size pp = pp_size pp'"
  using fun_cong [OF assms(1), of c] assms(2) by (cases "pendingPieces m c") auto

lemma updateInput_sizes_ok:
  assumes "updateInput w a lim sp ord m = Some u" "sizes_ok space m"
  shows "sizes_ok space (ui_state u)"
  using same_size [OF updateInput_sizes [OF assms(1)]] assms(2) unfolding sizes_ok_def by metis

lemma updateInput_defined:
  assumes "sizes_ok space m" "minerID w a \<noteq> None" "sorts ord"
  shows "updateInput w a lim sp ord m \<noteq> None"
proof (cases "SectorSize w sp")
  case (Inr ssize)
  obtain ms ta where 1: "match_pieces (Unpadded w ssize) ord m (pend_order ord) = Some (ms, ta)"
    using match_pieces_defined [of m "Unpadded w ssize" ord "pend_order ord"] assms(1)
    by (auto simp: sizes_ok_def)
  have "\<forall>mt \<in> set (sort_matches ord ms). pendingPieces m (mt_deal mt) \<noteq> None"
    using match_pieces_spec [OF 1] sorts_sets(1) [OF assms(3)] by (auto simp: is_match_def waiting_def)
  from assign_loop_defined [OF this] have "assign_loop w (sort_matches ord ms) m ta \<noteq> None" .
  moreover have "tryCreateDealSector w a lim sp \<noteq> None"
    using assms(2) by (auto simp: tryCreateDealSector_def minerSector_def minerSectorID_def split: sum.splits option.splits)
  ultimately show ?thesis using 1 Inr by (auto simp: updateInput_def split: option.splits)
qed (simp add: updateInput_def)

section \<open>Admission of deals\<close>

definition limits_reached :: "limits \<Rightarrow> bool" where
  "limits_reached lim \<longleftrightarrow> (case lim_config lim of
      Inl _ \<Rightarrow> False
    | Inr cfg \<Rightarrow> (MaxSealingSectorsForDeals cfg > 0 \<and> curSealing (lim_sealing lim) \<ge> MaxSealingSectorsForDeals cfg) \<or>
        (MaxWaitDealsSectors cfg > 0 \<and> curStaging (lim_staging lim) \<ge> MaxWaitDealsSectors cfg))"

lemma tryCreateDealSector_TooMany:
  "tryCreateDealSector w a lim sp = Some (Some ErrTooManySectorsSealing, cr) \<Longrightarrow> limits_reached lim"
  by (auto simp: tryCreateDealSector_def limits_reached_def split: sum.splits if_splits option.splits)

text \<open>In a settled state no waiting piece can be placed, and each of them is counted as a miss.\<close>

lemma place_pending_settled:
  assumes "\<forall>c sz sid. waiting m c sz \<longrightarrow> sid \<in> set ids \<longrightarrow> \<not> sz \<le> av sid"
  shows "place_pending ord m cs av ids miss = (miss + length (filter (\<lambda>c. \<exists>sz. waiting m c sz) cs), av, ids)"
proof (induction cs arbitrary: miss)
  case (Cons c cs)
  show ?case
  proof (cases "\<exists>sz. waiting m c sz")
    case True
    then obtain pp where pp: "pendingPieces m c = Some pp" "\<not> pp_assigned pp" by (auto simp: waiting_def)
    then have "waiting m c (pp_size pp)" by (simp add: waiting_def)
    with assms have "List.find (\<lambda>sid. pp_size pp \<le> av sid) ids = None" by (auto simp: find_None_iff)
    with pp True Cons show ?thesis by simp
  next
    case False
    then have "case pendingPieces m c of None \<Rightarrow> True | Some pp \<Rightarrow> pp_assigned pp"
      by (auto simp: waiting_def split: option.splits)
    with False Cons show ?thesis by (auto split: option.splits)
  qed
qed simp

lemma checkSealingBusy_settled:
  assumes "settled (Unpadded w ssize) m" "sizes_ok space m" "SectorSize w sp = Inr ssize" "need \<noteq> 0"
    and "complete_order ord m" "limits_reached lim"
    and "checkSealingBusy w lim sp need ord m = Inr False"
  shows "(\<forall>c sz. \<not> waiting m c sz) \<and>
    (\<exists>sid os. openSectors m sid = Some os \<and> need \<le> Unpadded w ssize - os_used os)"
proof -
  define av where "av = (\<lambda>sid. case openSectors m sid of None \<Rightarrow> 0 | Some os \<Rightarrow> Unpadded w ssize - os_used os)"
  have "\<not> sz \<le> av sid" if "waiting m c sz" for c sz sid
  proof (cases "openSectors m sid")
    case None
    with that assms(2) show ?thesis by (auto simp: av_def sizes_ok_def waiting_def)
  next
    case (Some os)
    with that assms(1) show ?thesis by (auto simp: av_def settled_def)
  qed
  then have p: "place_pending ord m (busy_pend ord) av (sort_avails ord av (busy_open ord)) 0 =
      (length (filter (\<lambda>c. \<exists>sz. waiting m c sz) (busy_pend ord)), av, sort_avails ord av (busy_open ord))"
    by (subst place_pending_settled) auto
  have "length (filter (\<lambda>c. \<exists>sz. waiting m c sz) (busy_pend ord)) = 0 \<and> (\<exists>sid \<in> set (sort_avails ord av (busy_open ord)). need \<le> av sid)"
    using assms(3,6,7) p [unfolded av_def]
    by (auto simp: checkSealingBusy_def limits_reached_def av_def [symmetric] Let_def split: sum.splits if_splits)
  then have "\<forall>c \<in> set (busy_pend ord). \<forall>sz. \<not> waiting m c sz" and "\<exists>sid. need \<le> av sid"
    by (auto simp: filter_empty_conv)
  moreover from \<open>\<exists>sid. need \<le> av sid\<close> obtain sid where "need \<le> av sid" ..
  then have "\<exists>os. openSectors m sid = Some os \<and> need \<le> Unpadded w ssize - os_used os"
    using assms(4) by (cases "openSectors m sid") (auto simp: av_def)
  ultimately show ?thesis using complete_orderD(3) [OF assms(5)] by blast
qed

definition with_piece :: "cid \<Rightarrow> u64 \<Rightarrow> DealInfo \<Rightarrow> input_state \<Rightarrow> input_state" where
  "with_piece c sz deal m = m\<lparr>pendingPieces := (pendingPieces m)
     (c \<mapsto> \<lparr>pp_size = sz, pp_deal = deal, pp_assigned = False\<rparr>)\<rparr>"

lemma waiting_with_piece:
  "waiting (with_piece c sz deal m) c' sz' \<longleftrightarrow> (if c' = c then sz' = sz else waiting m c' sz')"
  by (auto simp: waiting_def with_piece_def)

text \<open>
  The new piece is assigned at once when it is the only one that waits and some open sector has
  room for it.
\<close>

lemma only_piece_assigned:
  assumes u: "updateInput w a lim sp ord (with_piece c sz deal m) = Some u"
    and ss: "SectorSize w sp = Inr ssize"
    and ord: "complete_order ord (with_piece c sz deal m)"
    and only: "\<forall>c sz. \<not> waiting m c sz"
    and room: "openSectors m sid = Some os" "sz \<le> Unpadded w ssize - os_used os"
  shows "\<forall>c sz. \<not> waiting (ui_state u) c sz" "ui_err u = None"
proof -
  let ?m = "with_piece c sz deal m"
  obtain ms ta ta' rs es where 1: "match_pieces (Unpadded w ssize) ord ?m (pend_order ord) = Some (ms, ta)"
    and 2: "assign_loop w (sort_matches ord ms) ?m ta = Some (ui_state u, ta', rs, es)"
    and e: "ta' = [] \<longrightarrow> ui_err u = None"
    using updateInput_loop [OF u ss] by metis
  have w: "waiting (ui_state u) c' sz' \<Longrightarrow> c' = c \<and> sz' = sz" for c' sz'
    using assign_loop_frame [OF 2] only by (metis waiting_with_piece)
  have "\<not> waiting (ui_state u) c sz"
  proof
    assume "waiting (ui_state u) c sz"
    then have "ui_state u = ?m"
      using assign_loop_idle [OF 2] only by (metis waiting_with_piece)
    with updateInput_settled [OF u ss ord] have s: "settled (Unpadded w ssize) ?m" by simp
    have "waiting ?m c sz" by (simp add: waiting_with_piece)
    moreover have "openSectors ?m sid = Some os" using room(1) by (simp add: with_piece_def)
    ultimately show False using s room(2) unfolding settled_def by blast
  qed
  with w show n: "\<forall>c sz. \<not> waiting (ui_state u) c sz" by blast
  have "\<forall>c\<in>set ta. \<exists>sz. waiting ?m c sz" using match_pieces_spec [OF 1] by blast
  from assign_loop_toAssign [OF 2 this] n have "ta' = []" by auto
  with e show "ui_err u = None" by simp
qed

end
