(* ===== verification/Sample_World.thy ===== *)
theory Sample_World
  imports Sealing_Checks
begin

text \<open>
  A world in which every call succeeds, for the witnesses: a miner with ID 1000 and 2 KiB sectors (proof types 0 and 5),
  a chain at epoch 100, messages that are found and were executed with exit code 0, and the piece
  arithmetic of the \<open>abi\<close> package.
\<close>

definition sample_config :: Config where
  "sample_config = \<lparr>MaxWaitDealsSectors = 2, MaxSealingSectors = 0, MaxSealingSectorsForDeals = 0,
     WaitDealsDelay = 3600 * 10 ^ 9, AlwaysKeepUnsealedCopy = True\<rparr>"

definition sample_proposal :: DealProposal where
  "sample_proposal = \<lparr>dp_PieceCID = ''piece'', dp_PieceSize = 128, dp_Client = ''client'',
     dp_Provider = ''miner'', dp_Label = ''label'', dp_StartEpoch = 5000\<rparr>"

definition sample_deal :: DealInfo where
  "sample_deal = \<lparr>PublishCid = Some ''publish'', DealID = 5, di_DealProposal = Some sample_proposal,
     di_DealSchedule = \<lparr>StartEpoch = 5000\<rparr>, KeepUnsealed = True\<rparr>"

definition sample_lookup :: MsgLookup where
  "sample_lookup = \<lparr>Receipt = \<lparr>ExitCode = 0, mr_Return = [], GasUsed = 1\<rparr>, TipSetTok = [2], Height = 90\<rparr>"

definition sample_world :: world where
  "sample_world = \<lparr>now = 10 ^ 12, cancelled = False,
     minerID = (\<lambda>a. Some 1000),
     ChainHead = Inr ([1], 100),
     StateWaitMsg = (\<lambda>c. Inr sample_lookup),
     StateSearchMsgLimited = (\<lambda>c l. Inr (Some sample_lookup)),
     StateComputeDataCommitment = (\<lambda>a p ds t. Inr ''commd''),
     StateSectorPreCommitInfo = (\<lambda>a n t. Inr None),
     StateSectorGetInfo = (\<lambda>a n t. Inr (Some [])),
     StateMinerInfo = (\<lambda>a t. Inr []),
     StateMinerSectorAllocated = (\<lambda>a n t. (False, None)),
     StateMarketStorageDealProposal = (\<lambda>d t. Inr sample_proposal),
     StateMarketStorageDeal = (\<lambda>d t. Inr sample_proposal),
     StateLookupID = (\<lambda>a t. Inr a),
     StateNetworkVersion = (\<lambda>t. Inr 9),
     ChainGetMessage = (\<lambda>c. Inr []),
     RandomnessFromBeacon = (\<lambda>t e b. Inr [7]),
     RandomnessFromTickets = (\<lambda>t e b. Inr [8]),
     SendMsg = (\<lambda>f t m v g p. Inr ''msg''),
     addrSel = (\<lambda>mi u g a. Inr ''worker''),
     AddTermination = (\<lambda>s. Inr (''term'', False)),
     getConfig = Inr sample_config,
     MarshalAddr = (\<lambda>a. Inr [3]),
     MarshalPreCommit = (\<lambda>p. Inr [4]),
     MarshalProveCommit = (\<lambda>n p. Inr [5]),
     UnmarshalPublishReturn = (\<lambda>b. Inr [5]),
     UnmarshalPublishParams = (\<lambda>b. Inr [sample_proposal]),
     SealerAddPiece = (\<lambda>p r ss s. Inr \<lparr>Size = s + s div 127, PieceCID = ''added''\<rparr>),
     SealPreCommit1 = (\<lambda>p r t ps. Inr [6]),
     SealPreCommit2 = (\<lambda>p r o'. Inr (''commd'', ''commr'')),
     SealCommit1 = (\<lambda>p r t s ps cs. Inr [9]),
     SealCommit2 = (\<lambda>p r o'. Inr [10]),
     SealerFinalize = (\<lambda>p r ks. None),
     SealerReleaseUnsealed = (\<lambda>r ks. None),
     SealerRemove = (\<lambda>r. None),
     VerifySeal = (\<lambda>i. Inr True),
     Unpadded = (\<lambda>p. p - p div 128),
     SectorSize = (\<lambda>t. if t \<in> {0, 5} then Inr 2048 else if t \<in> {1, 6} then Inr 8388608
       else if t \<in> {2, 7} then Inr 536870912 else if t \<in> {3, 8} then Inr 34359738368
       else if t \<in> {4, 9} then Inr 68719476736 else Inl ''unsupported proof type''),
     ZeroPieceCommitment = (\<lambda>s. ''zero''),
     exit_Ok = 0, exit_SysErrInsufficientFunds = 6, exit_SysErrOutOfGas = 7,
     SealRandomnessLookback = 900, MaxPreCommitRandomnessLookback = 10000,
     PreCommitChallengeDelay = 150, WinningPoStSectorSetLookback = (\<lambda>v. 10),
     StorageMsgSearchLimit = 100, MaxPreCommitGasFee = 1, MaxCommitGasFee = 1,
     Padded = (\<lambda>u. u + u div 127),
     PaddedSize = (\<lambda>s. if s \<le> 127 then 127 else s),
     ProposalCid = (\<lambda>d. Inr (case PublishCid d of None \<Rightarrow> ''cid'' | Some c \<Rightarrow> c)),
     NextSectorNumber = Inr 1, NewSector = (\<lambda>r. None), SendEvent = (\<lambda>i n. None),
     WindowPoStProofType = (\<lambda>mi. 0),
     WindowPoStV1 = (\<lambda>c. case c of S2KiB \<Rightarrow> 0 | S8MiB \<Rightarrow> 1 | S512MiB \<Rightarrow> 2 | S32GiB \<Rightarrow> 3 | S64GiB \<Rightarrow> 4),
     SealV1_1 = (\<lambda>c. case c of S2KiB \<Rightarrow> 5 | S8MiB \<Rightarrow> 6 | S512MiB \<Rightarrow> 7 | S32GiB \<Rightarrow> 8 | S64GiB \<Rightarrow> 9)\<rparr>"

lemma sample_world_simps [simp]:
  "now sample_world = 10 ^ 12" "cancelled sample_world = False" "minerID sample_world a = Some 1000"
  "ChainHead sample_world = Inr ([1], 100)" "getConfig sample_world = Inr sample_config"
  "SectorSize sample_world 0 = Inr 2048" "SectorSize sample_world 5 = Inr 2048" "Unpadded sample_world p = p - p div 128"
  "Padded sample_world u = u + u div 127" "PaddedSize sample_world s = (if s \<le> 127 then 127 else s)"
  "ProposalCid sample_world d = Inr (case PublishCid d of None \<Rightarrow> ''cid'' | Some c \<Rightarrow> c)"
  "StateMinerInfo sample_world a tok = Inr []" "StateNetworkVersion sample_world tok = Inr 9"
  "WindowPoStProofType sample_world mi = 0" "WindowPoStV1 sample_world S2KiB = 0" "SealV1_1 sample_world S2KiB = 5"
  "NextSectorNumber sample_world = Inr 1" "NewSector sample_world r = None" "SendEvent sample_world i n = None"
  "SealerAddPiece sample_world pr r ss s = Inr \<lparr>Size = s + s div 127, PieceCID = ''added''\<rparr>"
  by (simp_all add: sample_world_def)

end
