(* ===== verification/Sealing_Admission.thy ===== *)
theory Sealing_Admission
  imports Sealing_Matching Sample_World
begin

text \<open>
  The deal input as a machine: its events are the operations of \<^verbatim>\<open>input.go\<close> and \<open>handlePacking\<close>, in
  any order and for any sectors, and its state is the part of \<open>Sealing\<close> under \<open>inputLk\<close>. In all runs no
  waiting piece fits into an open sector and no pending piece is empty (\<open>base_ok\<close>), which gives the
  admission guarantee of \<open>AddPieceToAnySector\<close> and the absence of panics. The assignment maps agree
  (\<open>assigned_ok\<close>) in runs in which the limits are not reached between the two reads of an arriving deal;
  a run in which they are loses a piece.
\<close>

declare split_paired_All [simp del] split_paired_Ex [simp del]

section \<open>The operations keep the invariant\<close>

definition base_ok :: "u64 \<Rightarrow> input_state \<Rightarrow> bool" where
  "base_ok space m \<longleftrightarrow> sizes_ok space m \<and> settled space m"

definition input_ok :: "u64 \<Rightarrow> input_state \<Rightarrow> bool" where
  "input_ok space m \<longleftrightarrow> base_ok space m \<and> assigned_ok m"

text \<open>
  The proof type of the miner's new sectors, and that of the sectors waiting for deals, belong to the
  miner's sector size; the padded size of a piece is positive, and the miner's address is an ID address.
\<close>

definition sized :: "u64 \<Rightarrow> world \<Rightarrow> int \<Rightarrow> bool" where
  "sized space w sp \<longleftrightarrow> (\<forall>ssize. SectorSize w sp = Inr ssize \<longrightarrow> Unpadded w ssize = space)"

definition deal_world :: "u64 \<Rightarrow> world \<Rightarrow> address \<Rightarrow> bool" where
  "deal_world space w a \<longleftrightarrow> minerID w a \<noteq> None \<and> PaddedSize w 0 \<noteq> 0 \<and>
     (\<forall>sp. currentSealProof w a = Inr sp \<longrightarrow> sized space w sp)"

lemmas ok_defs = input_ok_def base_ok_def assigned_ok_def sizes_ok_def settled_def waiting_def

lemma ok_close:
  "base_ok space m \<Longrightarrow> base_ok space (m\<lparr>openSectors := (openSectors m)(sid := None)\<rparr>)"
  "assigned_ok (m\<lparr>openSectors := os\<rparr>) = assigned_ok m"
  by (auto simp: ok_defs)

lemma ok_timers:
  "base_ok space (m\<lparr>sectorTimers := t\<rparr>) = base_ok space m" "assigned_ok (m\<lparr>sectorTimers := t\<rparr>) = assigned_ok m"
  by (simp_all add: ok_defs)

lemma ok_unassign:
  "base_ok space (m\<lparr>assignedPieces := as\<rparr>) = base_ok space m"
  "assigned_ok m \<Longrightarrow> assigned_ok (m\<lparr>assignedPieces := (assignedPieces m)(sid := None)\<rparr>)"
  by (auto simp: ok_defs split: if_splits)

lemma ok_withdraw: "base_ok space m \<Longrightarrow> base_ok space (m\<lparr>pendingPieces := (pendingPieces m)(c := None)\<rparr>)"
  by (auto simp: ok_defs split: if_splits)

lemma drop_assigned_pending: "fst (drop_assigned n cs pend) = (\<lambda>c. if c \<in> set cs then None else pend c)"
proof (induction cs arbitrary: pend)
  case (Cons c cs)
  obtain p rs where d: "drop_assigned n cs (pend(c := None)) = (p, rs)" by fastforce
  with Cons [of "pend(c := None)"] have "p = (\<lambda>x. if x \<in> set cs then None else (pend(c := None)) x)" by (simp only: fst_conv)
  with d show ?case by (auto split: option.splits)
qed simp

lemma packing_input_ok:
  assumes "packing_input sid n m = (m', rs)"
  shows "base_ok space m \<Longrightarrow> base_ok space m'" "assigned_ok m \<Longrightarrow> assigned_ok m'"
proof -
  define cs where "cs = (case assignedPieces m sid of None \<Rightarrow> [] | Some cs \<Rightarrow> cs)"
  have m': "pendingPieces m' = (\<lambda>c. if c \<in> set cs then None else pendingPieces m c)"
    "openSectors m' = (openSectors m)(sid := None)" "assignedPieces m' = (assignedPieces m)(sid := None)"
    using assms drop_assigned_pending [of n cs "pendingPieces m"]
    by (auto simp: packing_input_def cs_def [symmetric] split: prod.splits)
  show "base_ok space m \<Longrightarrow> base_ok space m'" by (auto simp: ok_defs m' split: if_splits)
  assume a: "assigned_ok m"
  have d: "set cs \<inter> set cs' = {}" if "sid' \<noteq> sid" "assignedPieces m sid' = Some cs'" for sid' cs'
    using assigned_okD(3) [OF a that(2), of sid] that(1)
    by (cases "assignedPieces m sid"; simp add: cs_def inf_commute)
  show "assigned_ok m'"
    unfolding assigned_ok_def
  proof (intro conjI allI impI ballI)
    fix s cs' c assume s: "assignedPieces m' s = Some cs'" "c \<in> set cs'"
    then have "assignedPieces m s = Some cs'" "s \<noteq> sid" by (auto simp: m' split: if_splits)
    with assigned_okD(2) [OF a this(1) s(2)] d [of s cs'] s(2)
    show "\<exists>pp. pendingPieces m' c = Some pp \<and> pp_assigned pp" by (auto simp: m')
  next
    fix s cs' assume "assignedPieces m' s = Some cs'"
    then show "distinct cs'" using assigned_okD(1) [OF a, of s] by (auto simp: m' split: if_splits)
  next
    fix s1 s2 cs1 cs2
    assume "s1 \<noteq> s2" "assignedPieces m' s1 = Some cs1" "assignedPieces m' s2 = Some cs2"
    then show "set cs1 \<inter> set cs2 = {}" using assigned_okD(3) [OF a, of s1] by (auto simp: m' split: if_splits)
  qed
qed

lemma handlePacking_input:
  assumes "handlePacking w a m sector = (r, m', rs)"
  shows "base_ok space m \<Longrightarrow> base_ok space m'" "assigned_ok m \<Longrightarrow> assigned_ok m'"
proof -
  have "m' = m \<or> (\<exists>sid rs1. packing_input sid (SectorNumber sector) m = (m', rs1))"
  proof (cases "minerSectorID w a (SectorNumber sector)")
    case (Some sid)
    obtain m1 rs1 where p: "packing_input sid (SectorNumber sector) m = (m1, rs1)" by fastforce
    have "m' = m1" using assms Some p
      by (auto simp: handlePacking_def Let_def split: sum.splits option.splits prod.splits if_splits)
    with p show ?thesis by blast
  qed (use assms in \<open>simp add: handlePacking_def\<close>)
  then show "base_ok space m \<Longrightarrow> base_ok space m'" "assigned_ok m \<Longrightarrow> assigned_ok m'"
    using packing_input_ok by blast+
qed

lemma handleAddPiece_input:
  assumes "handleAddPiece w a m sector = (r, m', rs)"
  shows "base_ok space m \<Longrightarrow> base_ok space m'" "assigned_ok m \<Longrightarrow> assigned_ok m'"
proof -
  have "m' = m \<or> (\<exists>sid. m' = m\<lparr>assignedPieces := (assignedPieces m)(sid := None)\<rparr>)"
    using assms by (auto simp: handleAddPiece_def Let_def split: sum.splits option.splits prod.splits add_out.splits)
  then show "base_ok space m \<Longrightarrow> base_ok space m'" "assigned_ok m \<Longrightarrow> assigned_ok m'" using ok_unassign by auto
qed

lemma maybeStartSealing_state:
  assumes "maybeStartSealing w sid sector used m = (r, m')"
  shows "\<exists>t. m' = m\<lparr>sectorTimers := t\<rparr>" "r = NotStarted \<Longrightarrow> \<exists>ssize. SectorSize w (SectorType sector) = Inr ssize"
proof -
  have "m' = m\<lparr>sectorTimers := sectorTimers m'\<rparr>"
    using assms by (auto simp: maybeStartSealing_def Let_def split: sum.splits if_splits)
  then show "\<exists>t. m' = m\<lparr>sectorTimers := t\<rparr>" by blast
  show "r = NotStarted \<Longrightarrow> \<exists>ssize. SectorSize w (SectorType sector) = Inr ssize"
    using assms by (auto simp: maybeStartSealing_def Let_def split: sum.splits if_splits)
qed

text \<open>
  A registered piece: what \<open>updateInput\<close> leaves, and when it is withdrawn again. When the first read had the
  limits reached, the piece is the only one that waits and an open sector has room for it.
\<close>

lemma updateInput_busy: "updateInput w a lim sp (ord\<lparr>busy_pend := b\<rparr>) m = updateInput w a lim sp ord m"
  by (simp add: updateInput_def match_pieces_busy cong: option.case_cong sum.case_cong)

lemma register_piece_input:
  assumes ok: "base_ok space m" and w: "sized space w sp" and new: "pendingPieces m c = None"
    and sz: "sz \<noteq> 0" "sz \<le> Unpadded w ssize" and ss: "SectorSize w sp = Inr ssize"
    and ord: "complete_order ord m" "c \<in> set (pend_order ord)"
    and busy: "checkSealingBusy w lim sp sz ord m = Inr False"
    and r: "register_piece w a lim' sp c sz deal ord m = Some r"
  obtains u pp where "updateInput w a lim' sp ord (with_piece c sz deal m) = Some u" "base_ok space (ui_state u)"
    "assigned_ok m \<Longrightarrow> assigned_ok (ui_state u)" "pendingPieces (ui_state u) c = Some pp" "pp_size pp = sz"
    "limits_reached lim \<Longrightarrow> ui_err u = None \<and> pp_assigned pp"
    "ui_err u = Some ErrTooManySectorsSealing \<Longrightarrow> limits_reached lim'"
proof -
  let ?m = "with_piece c sz deal m"
  have sp: "Unpadded w ssize = space" using w ss by (simp add: sized_def)
  obtain u where u: "updateInput w a lim' sp ord ?m = Some u"
    using r by (auto simp: register_piece_def with_piece_def [symmetric] Let_def split: option.splits)
  have o': "complete_order (ord\<lparr>busy_pend := c # busy_pend ord\<rparr>) ?m" using ord by (auto simp: complete_order_def sorts_def with_piece_def)
  have u': "updateInput w a lim' sp (ord\<lparr>busy_pend := c # busy_pend ord\<rparr>) ?m = Some u"
    using u by (simp add: updateInput_busy)
  have s: "sizes_ok space m" "settled space m" using ok by (simp_all add: base_ok_def)
  have "sizes_ok space ?m" using s(1) sz sp by (auto simp: sizes_ok_def with_piece_def)
  then have b: "base_ok space (ui_state u)"
    using updateInput_sizes_ok [OF u] updateInput_settled [OF u' ss o'] sp by (simp add: base_ok_def)
  have a: "assigned_ok (ui_state u)" if "assigned_ok m"
    using that new by (intro updateInput_assigned_ok [OF u]) (fastforce simp: assigned_ok_def with_piece_def)
  obtain pp where pp: "pendingPieces (ui_state u) c = Some pp" "pp_size pp = sz"
    using fun_cong [OF updateInput_sizes [OF u], of c] by (auto simp: with_piece_def)
  have l: "ui_err u = None \<and> pp_assigned pp" if l: "limits_reached lim"
  proof -
    obtain sid os where n: "\<forall>c sz. \<not> waiting m c sz" and room: "openSectors m sid = Some os"
      "sz \<le> Unpadded w ssize - os_used os"
      using checkSealingBusy_settled [OF _ s(1) ss sz(1) ord(1) l busy] s(2) sp by auto
    from only_piece_assigned [OF u' ss o' n room] pp show ?thesis by (auto simp: waiting_def)
  qed
  have "limits_reached lim'" if "ui_err u = Some ErrTooManySectorsSealing"
    using updateInput_loop [OF u ss] tryCreateDealSector_TooMany that by (metis option.distinct(1))
  with that u b a pp l show thesis by blast
qed

lemma register_piece_result:
  assumes "register_piece w a lim' sp c sz deal ord m = Some r" "updateInput w a lim' sp ord (with_piece c sz deal m) = Some u"
  shows "ap_err r = None" "ui_err u \<noteq> Some ErrTooManySectorsSealing \<Longrightarrow> ap_state r = ui_state u"
    "ui_err u = Some ErrTooManySectorsSealing \<Longrightarrow>
      ap_state r = (ui_state u)\<lparr>pendingPieces := (pendingPieces (ui_state u))(c := None)\<rparr> \<and>
      (c, 0, 0, Some ''too many sectors sealing'') \<in> set (ap_replies r)"
  using assms by (auto simp: register_piece_def with_piece_def [symmetric] Let_def split: if_splits)

lemma AddPieceToAnySector_cases:
  assumes "AddPieceToAnySector w a lim lim' sz deal ord m = Some r"
  obtains (refused) e where "ap_err r = Some e" "ap_state r = m" "ap_replies r = []" "ap_sent r = []"
  | (admitted) sp ssize c where "PaddedSize w sz = sz" "currentSealProof w a = Inr sp" "SectorSize w sp = Inr ssize"
      "sz \<le> Unpadded w ssize" "ProposalCid w deal = Inr c" "pendingPieces m c = None"
      "checkSealingBusy w lim sp sz ord m = Inr False" "register_piece w a lim' sp c sz deal ord m = Some r"
  using assms unfolding AddPieceToAnySector_def
  by (auto simp: Let_def split: if_splits sum.splits option.splits bool.splits)

lemma AddPieceToAnySector_input:
  assumes "base_ok space m" "deal_world space w a" "complete_order ord m"
    and "\<forall>c. ProposalCid w deal = Inr c \<longrightarrow> c \<in> set (pend_order ord)"
    and "AddPieceToAnySector w a lim lim' sz deal ord m = Some r"
  shows "base_ok space (ap_state r)" "(limits_reached lim' \<longrightarrow> limits_reached lim) \<Longrightarrow> assigned_ok m \<Longrightarrow> assigned_ok (ap_state r)"
    "ap_err r = None \<Longrightarrow> \<exists>c. ProposalCid w deal = Inr c \<and>
      (limits_reached lim \<longrightarrow> (\<exists>pp. pendingPieces (ap_state r) c = Some pp \<and> pp_assigned pp)) \<and>
      (case pendingPieces (ap_state r) c of
         Some pp \<Rightarrow> pp_size pp = sz
       | None \<Rightarrow> \<not> limits_reached lim \<and> limits_reached lim' \<and> (c, 0, 0, Some ''too many sectors sealing'') \<in> set (ap_replies r))"
proof -
  have *: "base_ok space (ap_state r) \<and>
    ((limits_reached lim' \<longrightarrow> limits_reached lim) \<longrightarrow> assigned_ok m \<longrightarrow> assigned_ok (ap_state r)) \<and>
    (ap_err r = None \<longrightarrow> (\<exists>c. ProposalCid w deal = Inr c \<and>
      (limits_reached lim \<longrightarrow> (\<exists>pp. pendingPieces (ap_state r) c = Some pp \<and> pp_assigned pp)) \<and>
      (case pendingPieces (ap_state r) c of
         Some pp \<Rightarrow> pp_size pp = sz
       | None \<Rightarrow> \<not> limits_reached lim \<and> limits_reached lim' \<and> (c, 0, 0, Some ''too many sectors sealing'') \<in> set (ap_replies r))))"
    using assms(5)
  proof (cases rule: AddPieceToAnySector_cases)
    case (refused e)
    with assms(1) show ?thesis by simp
  next
    case (admitted sp ssize c)
    have z: "sz \<noteq> 0" and w: "sized space w sp" and c: "c \<in> set (pend_order ord)"
      using admitted assms(2,4) by (auto simp: deal_world_def)
    obtain u pp where u: "updateInput w a lim' sp ord (with_piece c sz deal m) = Some u" "base_ok space (ui_state u)"
      "assigned_ok m \<Longrightarrow> assigned_ok (ui_state u)" "pendingPieces (ui_state u) c = Some pp" "pp_size pp = sz"
      "limits_reached lim \<Longrightarrow> ui_err u = None \<and> pp_assigned pp"
      "ui_err u = Some ErrTooManySectorsSealing \<Longrightarrow> limits_reached lim'"
      using register_piece_input [OF assms(1) w admitted(6) z admitted(4,3) assms(3) c admitted(7,8)] by metis
    note r = register_piece_result [OF admitted(8) u(1)]
    show ?thesis
    proof (cases "ui_err u = Some ErrTooManySectorsSealing")
      case True
      then show ?thesis using u r(3) ok_withdraw [OF u(2), of c] admitted(5) by auto
    next
      case False
      then show ?thesis using u r(1,2) admitted(5) by auto
    qed
  qed
  then show "base_ok space (ap_state r)" "(limits_reached lim' \<longrightarrow> limits_reached lim) \<Longrightarrow> assigned_ok m \<Longrightarrow> assigned_ok (ap_state r)"
    "ap_err r = None \<Longrightarrow> \<exists>c. ProposalCid w deal = Inr c \<and>
      (limits_reached lim \<longrightarrow> (\<exists>pp. pendingPieces (ap_state r) c = Some pp \<and> pp_assigned pp)) \<and>
      (case pendingPieces (ap_state r) c of
         Some pp \<Rightarrow> pp_size pp = sz
       | None \<Rightarrow> \<not> limits_reached lim \<and> limits_reached lim' \<and> (c, 0, 0, Some ''too many sectors sealing'') \<in> set (ap_replies r))"
    by blast+
qed

lemma AddPieceToAnySector_no_panic:
  assumes "sizes_ok space m" "deal_world space w a" "sorts ord"
  shows "AddPieceToAnySector w a lim lim' sz deal ord m \<noteq> None"
proof -
  have "register_piece w a lim' sp c sz deal ord m \<noteq> None"
    if "PaddedSize w sz = sz" "currentSealProof w a = Inr sp" "SectorSize w sp = Inr ssize" "sz \<le> Unpadded w ssize" for sp ssize c
  proof -
    have "sizes_ok space (with_piece c sz deal m)"
      using assms that by (auto simp: sizes_ok_def with_piece_def deal_world_def sized_def)
    then have "updateInput w a lim' sp ord (with_piece c sz deal m) \<noteq> None"
      using assms(2,3) by (intro updateInput_defined) (simp_all add: deal_world_def)
    then show ?thesis by (auto simp: register_piece_def with_piece_def [symmetric] Let_def)
  qed
  then show ?thesis
    by (simp add: AddPieceToAnySector_def Let_def not_less split: sum.splits bool.splits)
qed

lemma handleWaitDeals_no_panic:
  assumes "sizes_ok space m" "minerID w a \<noteq> None" "sorts ord"
  shows "fst (handleWaitDeals w a lim ord m sector) \<noteq> HPanic"
proof -
  obtain sid where sid: "minerSectorID w a (SectorNumber sector) = Some sid"
    using assms(2) by (auto simp: minerSectorID_def)
  define used where "used = sum_list (existingPieceSizes (Unpadded w) sector)"
  obtain st m1 where m1: "maybeStartSealing w sid sector used m = (st, m1)" by fastforce
  then obtain t where "m1 = m\<lparr>sectorTimers := t\<rparr>" using maybeStartSealing_state by blast
  then have "sizes_ok space (m1\<lparr>openSectors := p\<rparr>)" for p using assms(1) by (simp add: sizes_ok_def)
  then have "updateInput w a lim (SectorType sector) ord (m1\<lparr>openSectors := p\<rparr>) \<noteq> None" for p
    using updateInput_defined assms(2,3) by blast
  then show ?thesis using sid m1
    by (cases st) (auto simp: handleWaitDeals_def used_def [symmetric] split: option.splits)
qed

lemma handleWaitDeals_input:
  assumes "base_ok space m" "minerID w a \<noteq> None" "sized space w (SectorType sector)" "complete_order ord m"
    and "\<forall>sid c. minerSectorID w a (SectorNumber sector) = Some sid \<longrightarrow> sid \<in> set (open_order ord c)"
    and "handleWaitDeals w a lim ord m sector = (r, m', rs, es)"
  shows "base_ok space m' \<and> (assigned_ok m \<longrightarrow> assigned_ok m')"
proof -
  obtain sid where sid: "minerSectorID w a (SectorNumber sector) = Some sid"
    using assms(2) by (auto simp: minerSectorID_def)
  define used where "used = sum_list (existingPieceSizes (Unpadded w) sector)"
  obtain st m1 where m1: "maybeStartSealing w sid sector used m = (st, m1)" by fastforce
  obtain t where t: "m1 = m\<lparr>sectorTimers := t\<rparr>" using maybeStartSealing_state [OF m1] by blast
  have i1: "base_ok space m1" "assigned_ok m1 = assigned_ok m" using assms(1) t ok_timers by simp_all
  show ?thesis
  proof (cases "st = NotStarted")
    case False
    then have "m' = m1\<lparr>openSectors := (openSectors m1)(sid := None)\<rparr>"
      using assms(6) sid m1 by (cases st) (auto simp: handleWaitDeals_def used_def [symmetric])
    with ok_close i1 show ?thesis by auto
  next
    case True
    let ?m = "m1\<lparr>openSectors := (openSectors m1)(sid \<mapsto> \<lparr>os_used = used\<rparr>)\<rparr>"
    obtain ssize where ss: "SectorSize w (SectorType sector) = Inr ssize"
      using maybeStartSealing_state(2) [OF m1 True] by blast
    have ok: "assigned_ok ?m = assigned_ok m" "sizes_ok space ?m" using i1 by (auto simp: ok_defs)
    have o: "complete_order ord ?m" using assms(4,5) sid t by (auto simp: complete_order_def)
    obtain u where u: "updateInput w a lim (SectorType sector) ord ?m = Some u"
      using updateInput_defined [OF ok(2) assms(2), of ord lim "SectorType sector"] complete_orderD(1) [OF assms(4)] by blast
    have "m' = ui_state u"
      using assms(6) sid m1 True u by (simp add: handleWaitDeals_def used_def [symmetric])
    moreover have "Unpadded w ssize = space" using assms(3) ss by (simp add: sized_def)
    ultimately show ?thesis
      using updateInput_assigned_ok [OF u] ok(1) updateInput_sizes_ok [OF u ok(2)] updateInput_settled [OF u ss o]
      by (simp add: base_ok_def)
  qed
qed

section \<open>The machine of the deal input\<close>

datatype input_event =
    DealArrives world address limits limits u64 DealInfo input_order
  | WaitDealsRuns world address limits input_order SectorInfo
  | AddPieceRuns world address SectorInfo
  | PackingRuns world address SectorInfo
  | TimerFires "u64 \<times> u64"

fun input_env :: "u64 \<Rightarrow> input_event \<Rightarrow> bool" where
  "input_env space (DealArrives w a lim lim' sz deal ord) = deal_world space w a"
| "input_env space (WaitDealsRuns w a lim ord sector) = (minerID w a \<noteq> None \<and> sized space w (SectorType sector))"
| "input_env space _ = True"

text \<open>The limits are not reached between the two reads of an arriving deal.\<close>

fun steady :: "input_event \<Rightarrow> bool" where
  "steady (DealArrives w a lim lim' sz deal ord) = (limits_reached lim' \<longrightarrow> limits_reached lim)"
| "steady _ = True"

fun input_step :: "input_event \<Rightarrow> input_state \<Rightarrow> input_state \<Rightarrow> bool" where
  "input_step (DealArrives w a lim lim' sz deal ord) m m' \<longleftrightarrow>
    complete_order ord m \<and> (\<forall>c. ProposalCid w deal = Inr c \<longrightarrow> c \<in> set (pend_order ord)) \<and>
    (\<exists>r. AddPieceToAnySector w a lim lim' sz deal ord m = Some r \<and> m' = ap_state r)"
| "input_step (WaitDealsRuns w a lim ord sector) m m' \<longleftrightarrow>
    complete_order ord m \<and>
    (\<forall>sid c. minerSectorID w a (SectorNumber sector) = Some sid \<longrightarrow> sid \<in> set (open_order ord c)) \<and>
    (\<exists>r rs es. handleWaitDeals w a lim ord m sector = (r, m', rs, es))"
| "input_step (AddPieceRuns w a sector) m m' \<longleftrightarrow> (\<exists>r rs. handleAddPiece w a m sector = (r, m', rs))"
| "input_step (PackingRuns w a sector) m m' \<longleftrightarrow> (\<exists>r rs. handlePacking w a m sector = (r, m', rs))"
| "input_step (TimerFires sid) m m' \<longleftrightarrow> m' = fst (timer_fires sid m)"

definition empty_input :: input_state where
  "empty_input = \<lparr>openSectors = Map.empty, pendingPieces = Map.empty, assignedPieces = Map.empty,
     sectorTimers = Map.empty\<rparr>"

abbreviation input_reachable :: "u64 \<Rightarrow> input_state \<Rightarrow> bool" where
  "input_reachable space \<equiv> machine_reach empty_input (input_env space) (\<lambda>_ _. False) input_step"

abbreviation steady_reachable :: "u64 \<Rightarrow> input_state \<Rightarrow> bool" where
  "steady_reachable space \<equiv> machine_reach empty_input (\<lambda>e. input_env space e \<and> steady e) (\<lambda>_ _. False) input_step"

lemma input_step_ok:
  assumes "base_ok space m" "input_env space e" "input_step e m m'"
  shows "base_ok space m' \<and> (steady e \<longrightarrow> assigned_ok m \<longrightarrow> assigned_ok m')"
proof (cases e)
  case (DealArrives w a lim lim' sz deal ord)
  then show ?thesis using assms AddPieceToAnySector_input(1,2) [OF assms(1)] by auto
next
  case (WaitDealsRuns w a lim ord sector)
  then obtain r rs es where "minerID w a \<noteq> None" "sized space w (SectorType sector)" "complete_order ord m"
    "\<forall>sid c. minerSectorID w a (SectorNumber sector) = Some sid \<longrightarrow> sid \<in> set (open_order ord c)"
    "handleWaitDeals w a lim ord m sector = (r, m', rs, es)" using assms(2,3) by auto
  from handleWaitDeals_input [OF assms(1) this] show ?thesis by blast
next
  case (TimerFires sid)
  then show ?thesis using assms by (auto simp: timer_fires_def ok_timers)
qed (use assms handleAddPiece_input handlePacking_input in auto)

lemma empty_input_ok: "base_ok space empty_input" "assigned_ok empty_input"
  by (simp_all add: ok_defs empty_input_def)

interpretation deals: event_machine empty_input "input_env space" "\<lambda>_ _. False" input_step
  "base_ok space" "\<lambda>_. input_env space" for space
  by unfold_locales (use empty_input_ok input_step_ok in blast)+

interpretation steady_deals: event_machine empty_input "\<lambda>e. input_env space e \<and> steady e" "\<lambda>_ _. False" input_step
  "input_ok space" "\<lambda>_ e. input_env space e \<and> steady e" for space
  by unfold_locales (use empty_input_ok input_step_ok input_ok_def in blast)+

text \<open>The loop over assigned pieces neither panics nor misses a piece that is pending.\<close>

definition written_or_failed :: "add_out \<Rightarrow> bool" where
  "written_or_failed r \<longleftrightarrow> (case r of Added _ \<Rightarrow> True | AddFailed _ \<Rightarrow> True | _ \<Rightarrow> False)"

lemma addPiece_loop_outcome:
  assumes "\<forall>c \<in> set cs. \<exists>pp. pend c = Some pp \<and> Padded w (pp_size pp) \<noteq> 0"
  shows "written_or_failed (fst (addPiece_loop w ref ssize nd pend offset i sizes new cs))"
  using assms
proof (induction cs arbitrary: offset i sizes new)
  case (Cons c cs)
  then obtain pp where pp: "pend c = Some pp" "Padded w (pp_size pp) \<noteq> 0" by auto
  obtain pads len where g: "GetRequiredPadding (Padded w offset) (Padded w (pp_size pp)) = Some (pads, len)"
    using pp(2) by (simp add: GetRequiredPadding_def Let_def) (metis surj_pair)
  have IH: "written_or_failed (fst (addPiece_loop w ref ssize nd pend o' i' ss nw cs))" for o' i' ss nw
    using Cons by simp
  show ?case using pp(1) g IH
    by (simp add: Let_def split_beta written_or_failed_def [of "AddFailed e" for e] split: sum.splits)
qed (simp add: written_or_failed_def)

lemma addPiece_loop_no_panic:
  assumes "\<forall>c \<in> set cs. \<forall>pp. pend c = Some pp \<longrightarrow> Padded w (pp_size pp) \<noteq> 0"
  shows "fst (addPiece_loop w ref ssize nd pend offset i sizes new cs) \<noteq> AddPanic"
  using assms
proof (induction cs arbitrary: offset i sizes new)
  case (Cons c cs)
  have IH: "fst (addPiece_loop w ref ssize nd pend o' i' ss nw cs) \<noteq> AddPanic" for o' i' ss nw
    using Cons by simp
  show ?case
  proof (cases "pend c")
    case (Some pp)
    then obtain pads len where "GetRequiredPadding (Padded w offset) (Padded w (pp_size pp)) = Some (pads, len)"
      using Cons.prems by (simp add: GetRequiredPadding_def Let_def) (metis surj_pair)
    with Some IH show ?thesis by (simp add: Let_def split_beta split: sum.splits)
  qed simp
qed simp

lemma handleAddPiece_no_panic:
  assumes "sizes_ok space m" "minerID w a \<noteq> None" "\<forall>s. s \<noteq> 0 \<longrightarrow> s \<le> space \<longrightarrow> Padded w s \<noteq> 0"
  shows "fst (handleAddPiece w a m sector) \<noteq> HPanic"
proof -
  obtain ref where ref: "minerSector w a (SectorType sector) (SectorNumber sector) = Some ref"
    using assms(2) by (auto simp: minerSector_def minerSectorID_def)
  have "\<forall>c \<in> set cs. \<forall>pp. pendingPieces m c = Some pp \<longrightarrow> Padded w (pp_size pp) \<noteq> 0" for cs
    using assms(1,3) unfolding sizes_ok_def by blast
  then have "addPiece_loop w ref ssize nd (pendingPieces m) os i sizes new cs \<noteq> (AddPanic, rs)" for ssize nd os i sizes new cs rs
    using addPiece_loop_no_panic by (metis fst_conv)
  with ref show ?thesis
    by (auto simp: handleAddPiece_def Let_def split: sum.splits option.splits prod.splits add_out.splits)
qed

lemma handleAddPiece_sends:
  assumes "sizes_ok space m" "assigned_ok m" "minerID w a \<noteq> None"
    and "\<forall>s. s \<noteq> 0 \<longrightarrow> s \<le> space \<longrightarrow> Padded w s \<noteq> 0" "SectorSize w (SectorType sector) = Inr ssize"
  shows "\<exists>e. fst (handleAddPiece w a m sector) = Sent e"
proof -
  obtain ref where ref: "minerSector w a (SectorType sector) (SectorNumber sector) = Some ref"
    using assms(3) by (auto simp: minerSector_def minerSectorID_def)
  show ?thesis
  proof (cases "assignedPieces m (fst ref)")
    case (Some cs)
    then have "\<forall>c \<in> set cs. \<exists>pp. pendingPieces m c = Some pp \<and> Padded w (pp_size pp) \<noteq> 0"
      using assigned_okD(2) [OF assms(2) Some] assms(1,4) unfolding sizes_ok_def by blast
    from addPiece_loop_outcome [OF this, of ref ssize "length (dealIDs sector)"
        "sum_list (existingPieceSizes (Unpadded w) sector)" 0 "existingPieceSizes (Unpadded w) sector" "[]"]
    show ?thesis using ref assms(5) Some
      by (auto simp: handleAddPiece_def Let_def written_or_failed_def split: prod.splits add_out.splits)
  qed (use ref assms(5) in \<open>simp add: handleAddPiece_def\<close>)
qed

section \<open>Properties\<close>

text \<open>
  C6. In every state the deal input can reach, whatever the order of arriving deals, waiting
  sectors, written sectors, packed sectors and timers, no piece that still waits fits into a sector
  that is open for deals. When in addition no arriving deal saw the limits of sectors reached between
  its check and the creation of a sector, a piece assigned to a sector is pending and marked as
  assigned, and it is assigned once and to one sector.
\<close>

theorem input_assignment:
  assumes "input_reachable space m"
  shows "(\<forall>c pp sid os. pendingPieces m c = Some pp \<longrightarrow> \<not> pp_assigned pp \<longrightarrow> openSectors m sid = Some os \<longrightarrow>
      \<not> pp_size pp \<le> space - os_used os) \<and>
    (steady_reachable space m \<longrightarrow>
      (\<forall>sid cs. assignedPieces m sid = Some cs \<longrightarrow> distinct cs \<and>
        (\<forall>c \<in> set cs. \<exists>pp. pendingPieces m c = Some pp \<and> pp_assigned pp)) \<and>
      (\<forall>s1 s2 cs1 cs2. s1 \<noteq> s2 \<longrightarrow> assignedPieces m s1 = Some cs1 \<longrightarrow> assignedPieces m s2 = Some cs2 \<longrightarrow>
        set cs1 \<inter> set cs2 = {}))"
proof -
  have "base_ok space m" by (rule deals.reach_inv [OF assms])
  moreover have "assigned_ok m" if "steady_reachable space m"
    using steady_deals.reach_inv [OF that] by (simp add: input_ok_def)
  ultimately show ?thesis unfolding base_ok_def assigned_ok_def settled_def waiting_def by blast
qed

text \<open>
  C5. The admission guarantee: when \<open>AddPieceToAnySector\<close> does not refuse a deal and the sealing
  limits were reached when it checked them, so that no new sector may be opened, the piece has been
  assigned to an open sector. Otherwise the piece is still pending afterwards, with its size, or the
  limits were reached between the check and the creation of a sector: then the piece is withdrawn
  and the caller gets the error as its answer.
\<close>

theorem admitted_deal_kept:
  assumes "input_reachable space m" "deal_world space w a" "complete_order ord m"
    and "ProposalCid w deal = Inr c" "c \<in> set (pend_order ord)"
    and "AddPieceToAnySector w a lim lim' sz deal ord m = Some r" "ap_err r = None"
  shows "(limits_reached lim \<longrightarrow> (\<exists>pp. pendingPieces (ap_state r) c = Some pp \<and> pp_assigned pp)) \<and>
    (case pendingPieces (ap_state r) c of
       Some pp \<Rightarrow> pp_size pp = sz
     | None \<Rightarrow> \<not> limits_reached lim \<and> limits_reached lim' \<and>
         (c, 0, 0, Some ''too many sectors sealing'') \<in> set (ap_replies r))"
proof -
  have "base_ok space m" by (rule deals.reach_inv [OF assms(1)])
  from AddPieceToAnySector_input(3) [OF this assms(2,3) _ assms(6,7)] assms(4,5) show ?thesis by auto
qed

text \<open>
  C12. Nothing in the deal input panics in a reachable state. When no arriving deal saw the limits
  reached between its two reads, a sector that writes its assigned pieces finds all of them:
  \<open>handleAddPiece\<close> only fails when the sector size is unknown.
\<close>

theorem input_no_panic:
  assumes "input_reachable space m" "deal_world space w a" "\<forall>s. s \<noteq> 0 \<longrightarrow> s \<le> space \<longrightarrow> Padded w s \<noteq> 0"
    and "sorts ord"
  shows "AddPieceToAnySector w a lim lim' sz deal ord m \<noteq> None \<and>
    fst (handleWaitDeals w a lim ord m sector) \<noteq> HPanic \<and>
    fst (handleAddPiece w a m sector) \<noteq> HPanic \<and>
    (steady_reachable space m \<longrightarrow> SectorSize w (SectorType sector) = Inr ssize \<longrightarrow>
      (\<exists>e. fst (handleAddPiece w a m sector) = Sent e))"
proof -
  have s: "sizes_ok space m" using deals.reach_inv [OF assms(1)] by (simp add: base_ok_def)
  have id: "minerID w a \<noteq> None" using assms(2) by (simp add: deal_world_def)
  have "assigned_ok m" if "steady_reachable space m"
    using steady_deals.reach_inv [OF that] by (simp add: input_ok_def)
  then show ?thesis
    using AddPieceToAnySector_no_panic [OF s assms(2,4)] handleWaitDeals_no_panic [OF s id assms(4)]
      handleAddPiece_no_panic [OF s id assms(3)] handleAddPiece_sends [OF s _ id assms(3)] by blast
qed

section \<open>Witnesses\<close>

text \<open>
  A sector waits for deals and then a deal of 1016 bytes arrives and is assigned to it.
\<close>

definition sample_order :: input_order where
  "sample_order = \<lparr>pend_order = [''publish'', ''other''], open_order = (\<lambda>_. [(1000, 1)]),
     sort_matches = insertion_sort match_less, busy_pend = [''other'', ''publish''], busy_open = [(1000, 1)],
     sort_avails = (\<lambda>av. insertion_sort (\<lambda>x y. av x < av y))\<rparr>"

lemma sample_sorts: "sorts sample_order"
  by (simp add: sorts_def sample_order_def slice_sort_instances)

definition sample_open :: input_state where
  "sample_open = empty_input\<lparr>openSectors := [(1000, 1) \<mapsto> \<lparr>os_used = 0\<rparr>]\<rparr>"

definition sample_assigned :: input_state where
  "sample_assigned = sample_open\<lparr>openSectors := Map.empty, assignedPieces := [(1000, 1) \<mapsto> [''publish'']],
     pendingPieces := [''publish'' \<mapsto> \<lparr>pp_size = 1016, pp_deal = sample_deal, pp_assigned = True\<rparr>]\<rparr>"

definition sample_stats :: SectorStats where
  "sample_stats = updateSector (1000, 2) WaitDeals (updateSector (1000, 1) WaitDeals zero_SectorStats)"

definition sample_full :: limits where
  "sample_full = \<lparr>lim_config = Inr sample_config, lim_sealing = sample_stats, lim_staging = sample_stats\<rparr>"

definition sample_free :: limits where
  "sample_free = \<lparr>lim_config = Inr sample_config, lim_sealing = zero_SectorStats, lim_staging = zero_SectorStats\<rparr>"

definition sample_waiting :: SectorInfo where
  "sample_waiting = zero_SectorInfo\<lparr>State := WaitDeals, SectorNumber := 1, SectorType := 5\<rparr>"

lemma sample_deal_world: "deal_world 2032 sample_world ''miner''"
  by (auto simp: deal_world_def sized_def currentSealProof_def PreferredSealProofTypeFromWindowPoStType_def)

lemma sample_staging: "curStaging sample_stats = 2" "curStaging zero_SectorStats = 0"
  by (simp_all add: sample_stats_def curStaging_def updateSector_def zero_SectorStats_def toStatState_def Let_def)

lemma sample_limits: "limits_reached sample_full" "\<not> limits_reached sample_free"
  by (simp_all add: limits_reached_def sample_full_def sample_free_def sample_config_def sample_staging)

lemma sample_opens:
  "handleWaitDeals sample_world ''miner'' sample_full sample_order empty_input sample_waiting =
    (Stop, sample_open, [], [])"
  by (simp add: handleWaitDeals_def sample_waiting_def existingPieceSizes_def zero_SectorInfo_def
      minerSectorID_def maybeStartSealing_def empty_input_def sample_open_def getDealPerSectorLimit_def
      dealIDs_def updateInput_def sample_order_def insertion_sort_def Let_def)

lemma sample_admits:
  "AddPieceToAnySector sample_world ''miner'' sample_full sample_full 1016 sample_deal sample_order sample_open =
    Some \<lparr>ap_state = sample_assigned, ap_err = None, ap_replies = [], ap_sent = [(1, SectorAddPiece)]\<rparr>"
  by (simp add: AddPieceToAnySector_def currentSealProof_def PreferredSealProofTypeFromWindowPoStType_def
      sample_deal_def checkSealingBusy_def sample_config_def register_piece_def updateInput_def
      sample_order_def insertion_sort_def maybeAccept_def sample_open_def empty_input_def sample_assigned_def
      sample_full_def sample_staging Let_def)

lemma sample_order_complete: "complete_order sample_order empty_input" "complete_order sample_order sample_open"
  using sample_sorts by (simp_all add: complete_order_def sample_open_def empty_input_def) (simp add: sample_order_def)

lemma reachable_next:
  "steady_reachable space m \<Longrightarrow> input_env space e \<Longrightarrow> steady e \<Longrightarrow> input_step e m m' \<Longrightarrow> steady_reachable space m'"
  "input_reachable space m \<Longrightarrow> input_env space e \<Longrightarrow> input_step e m m' \<Longrightarrow> input_reachable space m'"
  by (auto intro: machine_reach.outside)

lemma sample_orders [simp]:
  "pend_order sample_order = [''publish'', ''other'']" "open_order sample_order c = [(1000, 1)]"
  by (simp_all add: sample_order_def)

lemma sample_sector [simp]:
  "SectorNumber sample_waiting = 1" "SectorType sample_waiting = 5" "minerSectorID sample_world a n = Some (1000, n)"
  by (simp_all add: sample_waiting_def minerSectorID_def)

lemma sample_open_reachable: "steady_reachable 2032 sample_open"
  by (rule reachable_next(1) [OF machine_reach.start,
        of _ "WaitDealsRuns sample_world ''miner'' sample_full sample_order sample_waiting"])
    (use sample_opens sample_order_complete(1) in \<open>simp_all add: sized_def\<close>)

lemma sample_assigned_reachable: "steady_reachable 2032 sample_assigned"
  by (rule reachable_next(1) [OF sample_open_reachable,
        of "DealArrives sample_world ''miner'' sample_full sample_full 1016 sample_deal sample_order"])
    (use sample_deal_world sample_admits sample_order_complete(2) in \<open>simp_all add: sample_deal_def\<close>)

lemma steady_input: "steady_reachable space m \<Longrightarrow> input_reachable space m"
  by (induction rule: machine_reach.induct) (auto intro: machine_reach.intros)

theorem input_assignment_witness:
  "steady_reachable 2032 sample_assigned \<and> assignedPieces sample_assigned (1000, 1) = Some [''publish''] \<and>
   (\<exists>pp. pendingPieces sample_assigned ''publish'' = Some pp \<and> pp_assigned pp)"
proof -
  have "assignedPieces sample_assigned (1000, 1) = Some [''publish'']"
    by (simp add: sample_assigned_def)
  with input_assignment [OF steady_input, OF sample_assigned_reachable] show ?thesis
    using sample_assigned_reachable by fastforce
qed

text \<open>
  A run that withdraws a piece: a deal that fills a whole sector waits, a half-filled sector is open, and
  the limits are reached while a deal for the other half arrives. It is assigned to the open sector and then
  withdrawn, and the sector fails when it writes its pieces.
\<close>

definition other_deal :: DealInfo where
  "other_deal = sample_deal\<lparr>PublishCid := Some ''other''\<rparr>"

definition half_full :: SectorInfo where
  "half_full = sample_waiting\<lparr>Pieces := [\<lparr>p_Piece = \<lparr>Size = 1024, PieceCID = ''old''\<rparr>, p_DealInfo = None\<rparr>]\<rparr>"

definition big_waits :: input_state where
  "big_waits = empty_input\<lparr>pendingPieces := [''other'' \<mapsto> \<lparr>pp_size = 2032, pp_deal = other_deal, pp_assigned = False\<rparr>]\<rparr>"

definition half_open :: input_state where
  "half_open = big_waits\<lparr>openSectors := [(1000, 1) \<mapsto> \<lparr>os_used = 1016\<rparr>]\<rparr>"

definition withdrawn :: input_state where
  "withdrawn = big_waits\<lparr>assignedPieces := [(1000, 1) \<mapsto> [''publish'']]\<rparr>"

lemma big_arrives:
  "AddPieceToAnySector sample_world ''miner'' sample_free sample_free 2032 other_deal sample_order empty_input =
    Some \<lparr>ap_state = big_waits, ap_err = None, ap_replies = [], ap_sent = [(1, SectorStart 1 5)]\<rparr>"
  by (simp add: AddPieceToAnySector_def currentSealProof_def PreferredSealProofTypeFromWindowPoStType_def
      sample_deal_def other_deal_def checkSealingBusy_def sample_config_def register_piece_def updateInput_def
      sample_order_def insertion_sort_def tryCreateDealSector_def minerSector_def minerSectorID_def
      big_waits_def empty_input_def sample_free_def sample_staging Let_def)

lemma half_opens:
  "handleWaitDeals sample_world ''miner'' sample_free sample_order big_waits half_full =
    (Stop, half_open, [], [(1, SectorStart 1 5)])"
  by (simp add: handleWaitDeals_def half_full_def sample_waiting_def existingPieceSizes_def zero_SectorInfo_def
      minerSector_def minerSectorID_def maybeStartSealing_def empty_input_def big_waits_def half_open_def
      getDealPerSectorLimit_def dealIDs_def updateInput_def sample_order_def insertion_sort_def
      tryCreateDealSector_def sample_free_def sample_config_def sample_staging Let_def)

lemma half_withdraws:
  "AddPieceToAnySector sample_world ''miner'' sample_free sample_full 1016 sample_deal sample_order half_open =
    Some \<lparr>ap_state = withdrawn, ap_err = None, ap_replies = [(''publish'', 0, 0, Some ''too many sectors sealing'')],
      ap_sent = [(1, SectorAddPiece)]\<rparr>"
  by (simp add: AddPieceToAnySector_def currentSealProof_def PreferredSealProofTypeFromWindowPoStType_def
      sample_deal_def checkSealingBusy_def sample_config_def register_piece_def updateInput_def fun_upd_twist
      sample_order_def insertion_sort_def maybeAccept_def tryCreateDealSector_def half_open_def big_waits_def
      withdrawn_def empty_input_def sample_full_def sample_free_def sample_staging Let_def)

lemma half_fails: "fst (handleAddPiece sample_world ''miner'' withdrawn half_full) = Failed ''piece assigned to sector not found''"
  by (simp add: handleAddPiece_def minerSector_def minerSectorID_def withdrawn_def big_waits_def half_full_def
      sample_waiting_def empty_input_def zero_SectorInfo_def Let_def)

lemma half_complete: "complete_order sample_order big_waits" "complete_order sample_order half_open"
  using sample_sorts by (simp_all add: complete_order_def half_open_def big_waits_def empty_input_def)
    (simp_all add: sample_order_def)

lemma half_open_reachable: "input_reachable 2032 half_open"
proof -
  have "input_reachable 2032 big_waits"
    by (rule reachable_next(2) [OF machine_reach.start,
          of _ "DealArrives sample_world ''miner'' sample_free sample_free 2032 other_deal sample_order"])
      (use sample_deal_world big_arrives sample_order_complete(1) in \<open>simp_all add: other_deal_def\<close>)
  then show ?thesis
    by (rule reachable_next(2) [of _ _ "WaitDealsRuns sample_world ''miner'' sample_free sample_order half_full"])
      (use half_opens half_complete(1) in \<open>simp_all add: sized_def half_full_def\<close>)
qed

theorem admitted_deal_kept_witness:
  "limits_reached sample_full \<and> \<not> limits_reached sample_free \<and>
   (\<exists>pp. pendingPieces sample_assigned ''publish'' = Some pp \<and> pp_assigned pp) \<and>
   input_reachable 2032 half_open \<and> pendingPieces withdrawn ''publish'' = None \<and>
   AddPieceToAnySector sample_world ''miner'' sample_free sample_full 1016 sample_deal sample_order half_open =
     Some \<lparr>ap_state = withdrawn, ap_err = None, ap_replies = [(''publish'', 0, 0, Some ''too many sectors sealing'')],
       ap_sent = [(1, SectorAddPiece)]\<rparr> \<and>
   assignedPieces withdrawn (1000, 1) = Some [''publish''] \<and>
   fst (handleAddPiece sample_world ''miner'' withdrawn half_full) = Failed ''piece assigned to sector not found''"
proof -
  have c: "ProposalCid sample_world sample_deal = Inr ''publish''" "''publish'' \<in> set (pend_order sample_order)"
    by (simp_all add: sample_deal_def sample_order_def)
  have "\<exists>pp. pendingPieces sample_assigned ''publish'' = Some pp \<and> pp_assigned pp"
    using admitted_deal_kept [OF steady_input [OF sample_open_reachable] sample_deal_world sample_order_complete(2) c sample_admits]
      sample_limits by auto
  then show ?thesis
    using sample_limits half_open_reachable half_withdraws half_fails by (simp add: withdrawn_def big_waits_def empty_input_def)
qed

theorem input_no_panic_witness:
  "(\<exists>e. fst (handleAddPiece sample_world ''miner'' sample_assigned sample_waiting) = Sent e) \<and>
   assignedPieces sample_assigned (1000, 1) \<noteq> None"
proof -
  have "\<forall>s. s \<noteq> 0 \<longrightarrow> s \<le> 2032 \<longrightarrow> Padded sample_world s \<noteq> 0"
  proof (intro allI impI)
    fix s :: u64 assume s: "s \<noteq> 0" "s \<le> 2032"
    then have "unat s \<le> 2032" "0 < unat s" by (simp_all add: word_le_nat_alt unat_gt_0)
    then have "unat (s + s div 127) = unat s + unat s div 127"
      by (simp add: unat_word_ariths unat_div)
    with \<open>0 < unat s\<close> show "Padded sample_world s \<noteq> 0" by auto
  qed
  from input_no_panic [OF steady_input [OF sample_assigned_reachable] sample_deal_world this sample_sorts,
      where sector = sample_waiting and ssize = 2048]
  show ?thesis using sample_assigned_reachable by (simp add: sample_assigned_def sample_waiting_def)
qed

end
