(* ===== verification/Sealing_Safety.thy ===== *)
theory Sealing_Safety
  imports Sealing_System Sealing_Admission
begin

text \<open>
  Safety of a sector's life: the states it can reach and what is known of it there, the one way a
  handler can panic, that the planners accept what the handlers send, that a sector is only finalized once it is
  on chain, and that a sector being terminated or removed never returns to sealing.
\<close>

declare split_paired_All [simp del] split_paired_Ex [simp del]

section \<open>Handlers do not panic\<close>

text \<open>
  What the handlers need of their environment: the miner's address is an ID address, the sorts of the
  deal input sort, and the pending pieces are not empty.
\<close>

definition env_ok :: "handler_env \<Rightarrow> bool" where
  "env_ok env \<longleftrightarrow>
    (\<forall>n. minerID (he_W env n) (he_addr env) \<noteq> None) \<and> sorts (he_order env) \<and>
    (\<exists>space. sizes_ok space (he_input env) \<and> (\<forall>s. s \<noteq> 0 \<longrightarrow> s \<le> space \<longrightarrow> Padded (he_W env 0) s \<noteq> 0))"

text \<open>
  A piece whose deal carries no proposal and whose publish message was executed successfully but
  returned no deal.
\<close>

definition empty_publish :: "world \<Rightarrow> Piece \<Rightarrow> bool" where
  "empty_publish w p \<longleftrightarrow>
    (case p_DealInfo p of
       None \<Rightarrow> False
     | Some d \<Rightarrow>
         (case (di_DealProposal d, PublishCid d) of
            (None, Some pub) \<Rightarrow>
              (case StateSearchMsgLimited w pub (StorageMsgSearchLimit w) of
                 Inr (Some lookup) \<Rightarrow> ExitCode (Receipt lookup) = exit_Ok w \<and>
                   UnmarshalPublishReturn w (mr_Return (Receipt lookup)) = Inr []
               | _ \<Rightarrow> False)
          | _ \<Rightarrow> False))"

lemma cooldown_no_panic:
  "Logs si \<noteq> [] \<Longrightarrow> after_cooldown w si r = HPanic \<longleftrightarrow> r = HPanic \<and> failedCooldown w si = CoolOk"
  by (simp add: after_cooldown_def failedCooldown_def Let_def split: cool.splits)

lemma minerSector_defined:
  assumes "minerID w a \<noteq> None"
  obtains sid where "minerSectorID w a n = Some sid" "minerSector w a t n = Some (sid, t)"
  using assms by (auto simp: minerSector_def minerSectorID_def)

lemma checkCommit_no_panic:
  assumes "minerID w a \<noteq> None" "sealed si"
  shows "checkCommit w a si prf tok \<noteq> CPanic"
proof -
  obtain sid where "minerSectorID w a (SectorNumber si) = Some sid" by (rule minerSector_defined [OF assms(1)])
  with assms(2) show ?thesis
    by (auto simp: checkCommit_def sealed_def split: sum.splits option.splits api_err.splits)
qed

lemma deal_info_panic:
  assumes "p_DealInfo p = Some d" "PublishCid d = Some pub"
  shows "GetCurrentDealInfo w tok (di_DealProposal d) pub = None \<longleftrightarrow> empty_publish w p"
  using assms by (auto simp: GetCurrentDealInfo_def dealIDFromPublishDealsMsg_def empty_publish_def
      split: sum.splits option.splits list.splits prod.splits)

lemma recover_fix_panic:
  assumes "\<forall>i \<in> set is. i < length ps \<and> p_DealInfo (ps ! i) \<noteq> None" "recover_fix w tok ps is = FixPanic"
  shows "\<exists>p \<in> set ps. empty_publish w p"
  using assms
proof (induction "is")
  case (Cons i "is")
  then obtain d where d: "i < length ps" "p_DealInfo (ps ! i) = Some d" by auto
  show ?case
  proof (cases "PublishCid d")
    case (Some pub)
    show ?thesis
    proof (cases "GetCurrentDealInfo w tok (di_DealProposal d) pub")
      case None
      with deal_info_panic [OF d(2) Some] d(1) show ?thesis by (metis nth_mem)
    qed (use d Some Cons in \<open>auto split: fix_res.splits\<close>)
  qed (use d Cons.prems in simp)
qed simp

lemma retryPreCommitted_no_panic:
  "Logs si \<noteq> [] \<Longrightarrow> sealed si \<Longrightarrow> retryPreCommitted w a tok si \<noteq> HPanic"
  by (auto simp: retryPreCommitted_def sealed_def cooldown_no_panic
      split: prod.splits option.splits bool.splits)

lemma recheckPreCommit_no_panic:
  "Logs si \<noteq> [] \<Longrightarrow> sealed si \<Longrightarrow> recheckPreCommit W a tok h si \<noteq> HPanic"
  using retryPreCommitted_no_panic
  by (auto simp: recheckPreCommit_def split: option.splits check_err.splits)

lemma recheckCommit_no_panic:
  "Logs si \<noteq> [] \<Longrightarrow> sealed si \<Longrightarrow> minerID w a \<noteq> None \<Longrightarrow> recheckCommit w a tok si \<noteq> HPanic"
  using checkCommit_no_panic
  by (auto simp: recheckCommit_def cooldown_no_panic split: check_res.splits check_err.splits)

lemma recheckBeforeCommit_no_panic:
  "Logs si \<noteq> [] \<Longrightarrow> sealed si \<Longrightarrow> minerID (W 2) a \<noteq> None \<Longrightarrow> recheckBeforeCommit W a tok h si \<noteq> HPanic"
  using recheckCommit_no_panic
  by (auto simp: recheckBeforeCommit_def split: option.splits check_err.splits)

lemma handleTerminateFinality_no_panic: "handleTerminateFinality ws si \<noteq> Some HPanic"
  by (induction ws si rule: handleTerminateFinality.induct) (auto split: sum.splits prod.splits)

lemmas panic_simps = cooldown_no_panic handleTerminateFinality_no_panic retryPreCommitted_no_panic
  recheckPreCommit_no_panic recheckCommit_no_panic recheckBeforeCommit_no_panic checkCommit_no_panic

lemma handleRecoverDealIDs_panic:
  assumes "handleRecoverDealIDs W a si = HPanic"
  shows "\<exists>p \<in> set (Pieces si). empty_publish (W 2) p"
proof -
  obtain tok h "is" n where "recover_scan (W 1) a tok h 0 (Pieces si) = Inr (is, n)"
    "recover_fix (W 2) tok (Pieces si) is = FixPanic"
    using assms by (auto simp: handleRecoverDealIDs_def split: sum.splits prod.splits fix_res.splits if_splits)
  then show ?thesis using recover_fix_panic recover_scan_indices by fastforce
qed

lemma handlePacking_no_panic: "minerID w a \<noteq> None \<Longrightarrow> fst (handlePacking w a m si) \<noteq> HPanic"
  by (auto simp: handlePacking_def minerSectorID_def Let_def split: prod.splits sum.splits if_splits)

lemma sealing_no_panic:
  "handleGetTicket W a si \<noteq> HPanic"
  "minerID (W 1) a \<noteq> None \<Longrightarrow> handlePreCommit1 W a si \<noteq> HPanic"
  "minerID w a \<noteq> None \<Longrightarrow> handlePreCommit2 w a si \<noteq> HPanic"
  "sealed si \<Longrightarrow> handlePreCommitting W a si \<noteq> HPanic"
  "handlePreCommitWait w si \<noteq> HPanic" "handleWaitSeed w a si \<noteq> HPanic"
  "minerID w a \<noteq> None \<Longrightarrow> handleCommitting w a si \<noteq> HPanic"
  "minerID (W 1) a \<noteq> None \<Longrightarrow> sealed si \<Longrightarrow> handleSubmitCommit W a si \<noteq> HPanic"
  "handleCommitWait w a si \<noteq> HPanic"
  "minerID w a \<noteq> None \<Longrightarrow> handleFinalizeSector w a si \<noteq> HPanic"
  "minerID w a \<noteq> None \<Longrightarrow> handleProvingSector w a si \<noteq> HPanic"
  by (auto simp: handleGetTicket_def handlePreCommit1_def handlePreCommit2_def handlePreCommitting_def
      submitPreCommit_def handlePreCommitWait_def handleWaitSeed_def handleCommitting_def computeProof_def
      handleSubmitCommit_def handleCommitWait_def handleFinalizeSector_def handleProvingSector_def
      minerSector_def minerSectorID_def sealed_def checkCommit_no_panic Let_def
      split: sum.splits option.splits prod.splits check_err.splits check_res.splits)

lemma recovery_no_panic:
  "Logs si \<noteq> [] \<Longrightarrow> handleSealPrecommit1Failed w si \<noteq> HPanic"
  "Logs si \<noteq> [] \<Longrightarrow> handleSealPrecommit2Failed w si \<noteq> HPanic"
  "Logs si \<noteq> [] \<Longrightarrow> sealed si \<Longrightarrow> handlePreCommitFailed W a si \<noteq> HPanic"
  "Logs si \<noteq> [] \<Longrightarrow> handleComputeProofFailed w si \<noteq> HPanic"
  "Logs si \<noteq> [] \<Longrightarrow> sealed si \<Longrightarrow> minerID (W 2) a \<noteq> None \<Longrightarrow> handleCommitFailed W a si \<noteq> HPanic"
  "Logs si \<noteq> [] \<Longrightarrow> handleFinalizeFailed w si \<noteq> HPanic" "Logs si \<noteq> [] \<Longrightarrow> handleRemoveFailed w si \<noteq> HPanic"
  "Logs si \<noteq> [] \<Longrightarrow> handleTerminateFailed w a si \<noteq> HPanic" "handleDealsExpired w a si \<noteq> HPanic"
  "handleFaulty si \<noteq> HPanic" "handleFaultReported w si \<noteq> HPanic"
  "minerID (W 1) a \<noteq> None \<Longrightarrow> handleTerminating W a si \<noteq> HPanic" "handleTerminateWait w si \<noteq> HPanic"
  "minerID w a \<noteq> None \<Longrightarrow> handleRemoving w a si \<noteq> HPanic"
  by (auto simp: handleSealPrecommit1Failed_def handleSealPrecommit2Failed_def handlePreCommitFailed_def
      handleComputeProofFailed_def handleCommitFailed_def handleFinalizeFailed_def handleRemoveFailed_def
      handleTerminateFailed_def handleDealsExpired_def handleFaulty_def handleFaultReported_def
      handleTerminating_def handleTerminateWait_def handleRemoving_def minerSector_def minerSectorID_def
      panic_simps Let_def split: sum.splits option.splits prod.splits)

lemma run_handler_panic:
  assumes "sector_inv si" "env_ok env" "fst (select_handler si) = Some h" "run_handler h env si = Some HPanic"
  shows "h = do_handleRecoverDealIDs \<and> (\<exists>p \<in> set (Pieces si). empty_publish (he_W env 2) p)"
proof -
  let ?W = "he_W env" and ?a = "he_addr env"
  have id: "minerID (?W n) ?a \<noteq> None" for n using assms(2) by (simp add: env_ok_def)
  have so: "sorts (he_order env)" using assms(2) by (simp add: env_ok_def)
  obtain space where sp: "sizes_ok space (he_input env)" "\<forall>s. s \<noteq> 0 \<longrightarrow> s \<le> space \<longrightarrow> Padded (?W 0) s \<noteq> 0"
    using assms(2) by (auto simp: env_ok_def)
  have logs: "State si \<noteq> UndefinedSectorState \<Longrightarrow> Logs si \<noteq> []" using assms(1) by (simp add: sector_inv_def)
  have sl: "Sealed \<in> set (needs (State si)) \<Longrightarrow> sealed si" using assms(1) by (auto simp: sector_inv_def holds_def)
  note h = handlePacking_no_panic [OF id] handleAddPiece_no_panic [OF sp(1) id sp(2)]
    handleWaitDeals_no_panic [OF sp(1) id so] sealing_no_panic recovery_no_panic handleTerminateFinality_no_panic
  have "State si = RecoverDealIDs"
    using assms(3,4) logs sl by (cases "State si")
      (auto simp: select_handler_def run_handler_def needs_def Let_def h id)
  with assms(3,4) show ?thesis
    using handleRecoverDealIDs_panic [of ?W ?a si] by (auto simp: select_handler_def run_handler_def Let_def)
qed

section \<open>Steps of the machine\<close>

lemma planned_planner:
  assumes "planned e si si'"
  obtains t p n si0 si1 where "fsmPlanners (State si) = Some p" "p t [e] si0 = Some (n, None, si1)"
    "\<exists>l. si0 = si\<lparr>Logs := l\<rparr>" "si' = snd (select_handler si1)"
proof -
  obtain env stats r where r: "plan env stats [e] si = Some r" "res_err r = None" and si': "si' = res_sector r"
    using assms by (auto simp: planned_def)
  have l: "\<exists>l. logEvents env [e] si = si\<lparr>Logs := l\<rparr>" using logEvents_frame by blast
  from plan_planner [OF r] si' l that show thesis by metis
qed

lemma planned_next:
  assumes "planned e si si'" "\<forall>s. e \<noteq> SectorForceState s" "State si = RecoverDealIDs \<longrightarrow> valid_return (Return si)"
  shows "next_ok (State si) (State si') \<or> State si = PackingFailed \<and> State si' = DealsExpired"
proof -
  obtain t p n si0 si1 l where p: "fsmPlanners (State si) = Some p" "p t [e] si0 = Some (n, None, si1)"
    "si0 = si\<lparr>Logs := l\<rparr>" "si' = snd (select_handler si1)"
    using planned_planner [OF assms(1)] by metis
  have "next_ok (State si) (State si1)"
    using planner_next [of si0 p t "[e]" n si1] p assms(2,3) by auto
  with p(4) show ?thesis by (auto simp: select_handler_sector dest: into_PackingFailed)
qed

lemma external_no_force: "external_event e \<Longrightarrow> e \<noteq> SectorForceState s"
  by (auto simp: external_event_def)

lemma handler_sends_no_force: "handler_sends si e \<Longrightarrow> e \<noteq> SectorForceState s"
  by (drule handler_sends_may_send) (auto simp: may_send_def split: SectorState.splits)

definition leaving :: "SectorState \<Rightarrow> bool" where
  "leaving st \<longleftrightarrow> st \<in> {Terminating, TerminateWait, TerminateFinality, TerminateFailed, Removing, RemoveFailed, Removed}"

lemma leaving_closed: "leaving st \<Longrightarrow> next_ok st st' \<Longrightarrow> leaving st'"
  by (auto simp: leaving_def next_ok_def successors_def)

lemma not_leaving: "\<not> leaving PackingFailed" "\<not> leaving RecoverDealIDs"
  by (simp_all add: leaving_def)

lemma next_ok_states:
  assumes "next_ok st st'" "fsmPlanners st \<noteq> None" "st \<notin> {Empty, PackingFailed, FaultedFinal, FailedUnrecoverable}"
  shows "fsmPlanners st' \<noteq> None \<and> st' \<notin> {Empty, PackingFailed, FaultedFinal, FailedUnrecoverable}"
  using assms by (cases st) (auto simp: next_ok_def successors_def fsmPlanners_def)

text \<open>A step of a reachable sector, by an external event or by one of its handlers.\<close>

lemma reachable_step:
  assumes "reachable si" "external_event e \<or> handler_sends si e" "planned e si si'"
  shows "next_ok (State si) (State si') \<or> State si = PackingFailed \<and> State si' = DealsExpired"
proof -
  have "State si = RecoverDealIDs \<longrightarrow> valid_return (Return si)"
    using reachable_inv [OF assms(1)] by (auto simp: sector_inv_def needs_def holds_def)
  moreover have "\<forall>s. e \<noteq> SectorForceState s"
    using assms(2) external_no_force handler_sends_no_force by blast
  ultimately show ?thesis using planned_next [OF assms(3)] by blast
qed

section \<open>Properties\<close>

text \<open>
  C1. The states of a sector's life. In whatever order external events (no \<open>SectorForceState\<close>) and the
  events of its handlers are planned, a sector is always in a state for which there is a planner, so
  that \<open>plan\<close> never fails for want of one. It is never in \<open>Empty\<close>, \<open>PackingFailed\<close>, \<open>FaultedFinal\<close> or
  \<open>FailedUnrecoverable\<close>: although the diagram in \<^verbatim>\<open>fsm.go\<close> leads to \<open>FailedUnrecoverable\<close> from almost every
  state and there is a handler that announces \<open>FaultedFinal\<close>, no run enters them.
\<close>

theorem reachable_states:
  assumes "reachable si"
  shows "fsmPlanners (State si) \<noteq> None \<and> State si \<notin> {Empty, PackingFailed, FaultedFinal, FailedUnrecoverable}"
  using assms
proof (induction rule: machine_reach.induct)
  case start
  show ?case by (simp add: zero_SectorInfo_def fsmPlanners_def)
next
  case (outside s e s')
  from reachable_step [OF outside(1) disjI1 [OF outside(2)] outside(3)] outside.IH show ?case by (intro next_ok_states) auto
next
  case (own s e s')
  from reachable_step [OF own(1) disjI2 [OF own(2)] own(3)] own.IH show ?case by (intro next_ok_states) auto
qed

text \<open>
  C20. What is known of a sector in each state it can reach from a new one by planning external
  events (no \<open>SectorForceState\<close>) and the events its handlers send: it has both commitments from
  \<open>PreCommitting\<close> on, the pre-commit and the commit message where the handlers wait for them, a
  return state in \<open>RecoverDealIDs\<close>, and at most four recorded \<open>PreCommit2\<close> failures.
\<close>

theorem reachable_facts:
  assumes "reachable si"
  shows "(State si \<in> {PreCommitting, PreCommitWait, WaitSeed, Committing, SubmitCommit, CommitWait, FinalizeSector,
        FinalizeFailed, Proving, Faulty, FaultReported, PreCommitFailed, ComputeProofFailed, CommitFailed} \<longrightarrow>
      CommR si \<noteq> None \<and> CommD si \<noteq> None) \<and>
    (State si = PreCommitWait \<longrightarrow> PreCommitMessage si \<noteq> None) \<and>
    (State si \<in> {CommitWait, FinalizeSector, FinalizeFailed, Proving, Faulty, FaultReported} \<longrightarrow>
      CommitMessage si \<noteq> None) \<and>
    (State si = RecoverDealIDs \<longrightarrow> Return si \<in> {PreCommit1, PreCommitting, PreCommitFailed, CommitFailed}) \<and>
    PreCommit2Fails si \<le> 4 \<and> (State si = PreCommit2 \<longrightarrow> PreCommit2Fails si \<le> 3)"
proof -
  have i: "sector_inv si" by (rule reachable_inv [OF assms])
  then have "\<forall>f \<in> set (needs (State si)). holds f si" "PreCommit2Fails si \<le> 4" by (simp_all add: sector_inv_def)
  then show ?thesis
    by (cases "State si") (auto simp: needs_def holds_def sealed_def valid_return_def Ret_defs)
qed

text \<open>
  C21. On a reachable sector only one handler can panic: \<open>handleRecoverDealIDs\<close>, on a sector that has
  a piece whose deal carries no proposal and whose publish message succeeded but returned no deal
  (\<open>dealIDFromPublishDealsMsg\<close> then takes the first of no deals).
\<close>

theorem handlers_panic_only_in_recovery:
  assumes "reachable si" "env_ok env" "fst (select_handler si) = Some h"
  shows "run_handler h env si = Some HPanic \<longrightarrow>
    h = do_handleRecoverDealIDs \<and> (\<exists>p \<in> set (Pieces si). empty_publish (he_W env 2) p)"
  using run_handler_panic [OF reachable_inv [OF assms(1)] assms(2,3)] by blast

text \<open>
  C22. The planner of the state accepts every event the handlers send from it, with two exceptions:
  \<open>handleGetTicket\<close> reports a failed ticket with \<open>SectorSealPreCommit1Failed\<close>, and
  \<open>handleFaultReported\<close> sends \<open>SectorFaultedFinal\<close>, which the planners of these states reject.
\<close>

theorem handler_events_accepted:
  assumes "reachable si" "handler_sends si e"
  shows "accepts t si e \<or> (State si = GetTicket \<and> (\<exists>x. e = SectorSealPreCommit1Failed x)) \<or>
    (State si = FaultReported \<and> e = SectorFaultedFinal)"
  by (rule may_send_accepted [OF handler_sends_may_send [OF assms(2)] reachable_inv [OF assms(1)]])

text \<open>
  C23. A sector is finalized only when it is on chain: it enters \<open>FinalizeSector\<close> from another state
  than \<open>FinalizeFailed\<close> only by an event of \<open>handleCommitWait\<close>, after the commit message was
  executed successfully and the chain reported the sector in the resulting state.
\<close>

theorem finalized_sector_on_chain:
  assumes "reachable si" "planned e si si'" "State si' = FinalizeSector"
    and "State si \<notin> {FinalizeSector, FinalizeFailed}"
    and "external_event e \<or> (\<exists>h. fst (select_handler si) = Some h \<and> run_handler h env si = Some (Sent e))"
  shows "State si = CommitWait \<and> e = SectorProving \<and>
    (\<exists>msg mw info. CommitMessage si = Some msg \<and> StateWaitMsg (he_W env 0) msg = Inr mw \<and>
       ExitCode (Receipt mw) = exit_Ok (he_W env 0) \<and>
       StateSectorGetInfo (he_W env 0) (he_addr env) (SectorNumber si) (TipSetTok mw) = Inr (Some info))"
proof -
  have i: "sector_inv si" by (rule reachable_inv [OF assms(1)])
  have nf: "\<forall>s. e \<noteq> SectorForceState s"
    using assms(5) external_no_force handler_sends_no_force [of si] unfolding handler_sends_def by blast
  have "State si = RecoverDealIDs \<longrightarrow> valid_return (Return si)"
    using i by (auto simp: sector_inv_def needs_def holds_def)
  from planned_next [OF assms(2) nf this] assms(3,4) have c: "State si = CommitWait"
    by (cases "State si") (auto simp: next_ok_def successors_def)
  obtain t p n si0 si1 l where p: "fsmPlanners (State si) = Some p" "p t [e] si0 = Some (n, None, si1)"
    "si0 = si\<lparr>Logs := l\<rparr>" "si' = snd (select_handler si1)"
    using planned_planner [OF assms(2)] by metis
  have "State si1 = FinalizeSector" using p(4) assms(3) by (auto simp: select_handler_sector split: if_splits)
  with p(1-3) c nf have e: "e = SectorProving"
    by (cases e) (auto simp: fsmPlanners_def planOne_def on_def TypeOf_con apply_mut_con applyGlobal_def
        apply_defs split: if_splits)
  then have "run_handler do_handleCommitWait env si = Some (Sent SectorProving)"
    using assms(5) c by (auto simp: external_event_def select_handler_def)
  with c e show ?thesis
    by (auto simp: run_handler_def handleCommitWait_def Let_def split: option.splits sum.splits if_splits)
qed

text \<open>
  C24. A sector that is being terminated or removed stays so: whatever events arrive (except an
  operator's \<open>SectorForceState\<close>), it never returns to sealing or proving.
\<close>

theorem no_return_from_removal:
  assumes "machine_reach si external_event handler_sends planned si'"
    and "State si \<in> {Terminating, TerminateWait, TerminateFinality, TerminateFailed, Removing, RemoveFailed, Removed}"
  shows "State si' \<in> {Terminating, TerminateWait, TerminateFinality, TerminateFailed, Removing, RemoveFailed, Removed}"
proof -
  have step: "planned e s s' \<Longrightarrow> \<forall>x. e \<noteq> SectorForceState x \<Longrightarrow> leaving (State s) \<Longrightarrow> leaving (State s')" for e s s'
    using planned_next [of e s s'] leaving_closed [of "State s" "State s'"] not_leaving by metis
  have "leaving (State si')"
    using assms(1)
  proof (induction rule: machine_reach.induct)
    case start
    show ?case using assms(2) by (simp add: leaving_def)
  next
    case (outside s e s')
    then show ?case using step external_no_force by blast
  next
    case (own s e s')
    then show ?case using step handler_sends_no_force by blast
  qed
  then show ?thesis by (simp add: leaving_def)
qed

end
