(* ===== verification/Sealing_Progress.thy ===== *)
theory Sealing_Progress
  imports Sealing_Safety
begin

text \<open>
  Liveness of sealing: as long as the world helps (the node answers, the messages land, the sealer
  succeeds), each handler sends the event that takes the sector to the next phase, and a packed
  sector is proving after eleven steps.
\<close>

section \<open>Running a sector\<close>

definition calm :: "world \<Rightarrow> address \<Rightarrow> handler_env" where
  "calm w a = \<lparr>he_W = (\<lambda>_. w), he_polls = 1, he_addr = a,
     he_limits = \<lparr>lim_config = getConfig w, lim_sealing = zero_SectorStats, lim_staging = zero_SectorStats\<rparr>,
     he_order = \<lparr>pend_order = [], open_order = (\<lambda>_. []), sort_matches = insertion_sort match_less, busy_pend = [], busy_open = [],
       sort_avails = (\<lambda>av. insertion_sort (\<lambda>x y. av x < av y))\<rparr>,
     he_input = empty_input\<rparr>"

text \<open>The event with which the handler of the sector's state ends, with the callback of \<open>handleWaitSeed\<close>.\<close>

definition handler_event :: "world \<Rightarrow> address \<Rightarrow> SectorInfo \<Rightarrow> event option" where
  "handler_event w a si =
    (case fst (select_handler si) of
       None \<Rightarrow> None
     | Some h \<Rightarrow>
         (case run_handler h (calm w a) si of
            Some (Sent e) \<Rightarrow> Some e
          | Some (AwaitHeight height) \<Rightarrow>
              if State si = WaitSeed
              then (case waitSeed_callback w a height of Sent e \<Rightarrow> Some e | _ \<Rightarrow> None)
              else None
          | _ \<Rightarrow> None))"

definition plan_event :: "plan_env \<Rightarrow> event \<Rightarrow> SectorInfo \<Rightarrow> SectorInfo option" where
  "plan_event env e si =
    (case plan env zero_SectorStats [e] si of
       None \<Rightarrow> None
     | Some r \<Rightarrow> if res_err r = None then Some (res_sector r) else None)"

text \<open>\<open>n\<close> steps, the handler of step \<open>i\<close> seeing the world \<open>W i\<close>.\<close>

fun drive :: "plan_env \<Rightarrow> (nat \<Rightarrow> world) \<Rightarrow> address \<Rightarrow> nat \<Rightarrow> SectorInfo \<Rightarrow> SectorInfo option" where
  "drive env W a 0 si = Some si"
| "drive env W a (Suc n) si =
    (case drive env W a n si of
       None \<Rightarrow> None
     | Some s \<Rightarrow> (case handler_event (W n) a s of None \<Rightarrow> None | Some e \<Rightarrow> plan_event env e s))"

section \<open>A world that helps\<close>

definition next_phase :: "SectorState \<Rightarrow> SectorState" where
  "next_phase st = (case st of
      Packing \<Rightarrow> GetTicket | GetTicket \<Rightarrow> PreCommit1 | PreCommit1 \<Rightarrow> PreCommit2 | PreCommit2 \<Rightarrow> PreCommitting
    | PreCommitting \<Rightarrow> PreCommitWait | PreCommitWait \<Rightarrow> WaitSeed | WaitSeed \<Rightarrow> Committing
    | Committing \<Rightarrow> SubmitCommit | SubmitCommit \<Rightarrow> CommitWait | CommitWait \<Rightarrow> FinalizeSector
    | FinalizeSector \<Rightarrow> Proving | _ \<Rightarrow> st)"

text \<open>What each phase asks of the world.\<close>

definition helpful :: "world \<Rightarrow> address \<Rightarrow> SectorInfo \<Rightarrow> bool" where
  "helpful w a si \<longleftrightarrow> minerID w a \<noteq> None \<and> (\<exists>tok height mi buf.
     ChainHead w = Inr (tok, height) \<and> StateMinerInfo w a tok = Inr mi \<and> MarshalAddr w a = Inr buf \<and>
     (case State si of
        Packing \<Rightarrow>
          (\<exists>ssize. SectorSize w (SectorType si) = Inr ssize \<and>
             sum_list (existingPieceSizes (Unpadded w) si) \<le> Unpadded w ssize) \<and>
          (\<forall>ctx ref sizes s. \<exists>ppi. SealerAddPiece w ctx ref sizes s = Inr ppi)
      | GetTicket \<Rightarrow>
          StateSectorPreCommitInfo w a (SectorNumber si) tok = Inr None \<and>
          (\<exists>rand. RandomnessFromTickets w tok (height - SealRandomnessLookback w) buf = Inr rand)
      | PreCommit1 \<Rightarrow>
          checkPieces w a si = None \<and> \<not> checkTicketExpired w si height \<and>
          (\<forall>ctx ref tv ps. \<exists>out. SealPreCommit1 w ctx ref tv ps = Inr out)
      | PreCommit2 \<Rightarrow> (\<forall>ctx ref out. \<exists>u s. SealPreCommit2 w ctx ref out = Inr (u, s) \<and> u \<noteq> '''')
      | PreCommitting \<Rightarrow>
          checkPrecommit w a si tok height = None \<and> (\<forall>p. \<exists>enc. MarshalPreCommit w p = Inr enc) \<and>
          (\<forall>use g d. \<exists>f. addrSel w mi use g d = Inr f) \<and>
          (\<forall>f t m v g p. \<exists>c. SendMsg w f t m v g p = Inr c)
      | PreCommitWait \<Rightarrow> (\<forall>c. \<exists>mw. StateWaitMsg w c = Inr mw \<and> ExitCode (Receipt mw) = exit_Ok w)
      | WaitSeed \<Rightarrow>
          (\<exists>pci. StateSectorPreCommitInfo w a (SectorNumber si) tok = Inr (Some pci)) \<and>
          (\<forall>e. \<exists>rand. RandomnessFromBeacon w tok e buf = Inr rand)
      | Committing \<Rightarrow>
          CommitMessage si = None \<and> (\<forall>ctx ref t s ps cs. \<exists>c1. SealCommit1 w ctx ref t s ps cs = Inr c1) \<and>
          (\<forall>ctx ref c1. \<exists>prf. SealCommit2 w ctx ref c1 = Inr prf)
      | SubmitCommit \<Rightarrow>
          checkCommit w a si (Proof si) tok = COk \<and> (\<forall>n p. \<exists>enc. MarshalProveCommit w n p = Inr enc) \<and>
          (\<exists>pci. StateSectorPreCommitInfo w a (SectorNumber si) tok = Inr (Some pci)) \<and>
          (\<forall>use g d. \<exists>f. addrSel w mi use g d = Inr f) \<and>
          (\<forall>f t m v g p. \<exists>c. SendMsg w f t m v g p = Inr c)
      | CommitWait \<Rightarrow>
          (\<forall>c. \<exists>mw info. StateWaitMsg w c = Inr mw \<and> ExitCode (Receipt mw) = exit_Ok w \<and>
             StateSectorGetInfo w a (SectorNumber si) (TipSetTok mw) = Inr (Some info))
      | FinalizeSector \<Rightarrow>
          (\<exists>cfg. getConfig w = Inr cfg) \<and> (\<forall>ctx ref ks. SealerFinalize w ctx ref ks = None)
      | _ \<Rightarrow> False))"

definition phase_event :: "SectorState \<Rightarrow> event \<Rightarrow> bool" where
  "phase_event st e \<longleftrightarrow> (case st of
      Packing \<Rightarrow> (\<exists>fs. e = SectorPacked fs) | GetTicket \<Rightarrow> (\<exists>v ep. e = SectorTicket v ep)
    | PreCommit1 \<Rightarrow> (\<exists>out. e = SectorPreCommit1 out) | PreCommit2 \<Rightarrow> (\<exists>s u. e = SectorPreCommit2 s u)
    | PreCommitting \<Rightarrow> (\<exists>c p. e = SectorPreCommitted c p) | PreCommitWait \<Rightarrow> (\<exists>t. e = SectorPreCommitLanded t)
    | WaitSeed \<Rightarrow> (\<exists>v ep. e = SectorSeedReady v ep) | Committing \<Rightarrow> (\<exists>p. e = SectorCommitted p)
    | SubmitCommit \<Rightarrow> (\<exists>c. e = SectorCommitSubmitted c) | CommitWait \<Rightarrow> e = SectorProving
    | FinalizeSector \<Rightarrow> e = SectorFinalized | _ \<Rightarrow> False)"

lemma padSector_succeeds:
  assumes "\<forall>ctx ref sizes s. \<exists>ppi. SealerAddPiece w ctx ref sizes s = Inr ppi"
  shows "\<exists>fs. padSector w ctx ref existing sizes = Inr fs"
proof -
  have "\<exists>fs. padSector_loop w ctx ref existing sizes = Inr fs"
  proof (induction sizes arbitrary: existing)
    case (Cons sz sizes)
    obtain ppi where "SealerAddPiece w ctx ref existing sz = Inr ppi" using assms by blast
    with Cons [of "existing @ [sz]"] show ?case by auto
  qed simp
  then show ?thesis by (simp add: padSector_def)
qed

lemma helpful_event:
  assumes "sector_inv si" "helpful w a si"
  shows "\<exists>e. handler_event w a si = Some e \<and> phase_event (State si) e"
proof -
  obtain mid tok height mi buf where b: "minerID w a = Some mid" "ChainHead w = Inr (tok, height)"
    "StateMinerInfo w a tok = Inr mi" "MarshalAddr w a = Inr buf"
    using assms(2) by (auto simp: helpful_def)
  note defs = handler_event_def select_handler_def run_handler_def calm_def phase_event_def minerSector_def
    minerSectorID_def Let_def
  have sl: "Sealed \<in> set (needs (State si)) \<Longrightarrow> sealed si" using assms(1) by (auto simp: sector_inv_def holds_def)
  have cm: "State si = CommitWait \<Longrightarrow> CommitMessage si \<noteq> None"
    using assms(1) by (auto simp: sector_inv_def holds_def needs_def)
  have pm: "State si = PreCommitWait \<Longrightarrow> PreCommitMessage si \<noteq> None"
    using assms(1) by (auto simp: sector_inv_def holds_def needs_def)
  show ?thesis
  proof (cases "State si")
    case Packing
    with assms(2) b obtain ssize where ss: "SectorSize w (SectorType si) = Inr ssize"
      "sum_list (existingPieceSizes (Unpadded w) si) \<le> Unpadded w ssize"
      and ap: "\<forall>ctx ref sizes s. \<exists>ppi. SealerAddPiece w ctx ref sizes s = Inr ppi" by (auto simp: helpful_def)
    obtain m' rs where "packing_input (mid, SectorNumber si) (SectorNumber si) empty_input = (m', rs)" by fastforce
    moreover obtain fs where "padSector w (sealingCtx si None) ((mid, SectorNumber si), SectorType si)
        (existingPieceSizes (Unpadded w) si)
        (fillersFromRem (Unpadded w) (Unpadded w ssize - sum_list (existingPieceSizes (Unpadded w) si))) = Inr fs"
      using padSector_succeeds [OF ap] by metis
    ultimately show ?thesis using Packing b ss by (simp add: defs handlePacking_def not_less [symmetric])
  next
    case GetTicket
    with assms(2) b show ?thesis by (auto simp: helpful_def defs handleGetTicket_def getTicket_def)
  next
    case PreCommit1
    with assms(2) b have "checkPieces w a si = None" "\<not> checkTicketExpired w si height"
      and "\<exists>out. SealPreCommit1 w (sealingCtx si None) ((mid, SectorNumber si), SectorType si) (TicketValue si) (pieceInfos si) = Inr out"
      by (auto simp: helpful_def)
    with b PreCommit1 show ?thesis by (auto simp: defs handlePreCommit1_def)
  next
    case PreCommit2
    with assms(2) b have "\<exists>u s. SealPreCommit2 w (sealingCtx si None) ((mid, SectorNumber si), SectorType si) (PreCommit1Out si) = Inr (u, s) \<and> u \<noteq> ''''"
      by (auto simp: helpful_def)
    with b PreCommit2 show ?thesis by (auto simp: defs handlePreCommit2_def)
  next
    case PreCommitting
    with sl obtain commr where c: "CommR si = Some commr" by (auto simp: needs_def sealed_def)
    from PreCommitting assms(2) b have "checkPrecommit w a si tok height = None"
      "\<And>p. \<exists>enc. MarshalPreCommit w p = Inr enc" "\<And>use g d. \<exists>f. addrSel w mi use g d = Inr f"
      "\<And>f t m v g p. \<exists>c. SendMsg w f t m v g p = Inr c"
      by (auto simp: helpful_def)
    with PreCommitting c b show ?thesis
      by (auto simp: defs handlePreCommitting_def submitPreCommit_def split: sum.splits) (metis sum.distinct(1))+
  next
    case PreCommitWait
    with pm obtain c where c: "PreCommitMessage si = Some c" by auto
    from PreCommitWait assms(2) have "\<exists>mw. StateWaitMsg w c = Inr mw \<and> ExitCode (Receipt mw) = exit_Ok w"
      by (auto simp: helpful_def)
    with PreCommitWait c show ?thesis by (auto simp: defs handlePreCommitWait_def)
  next
    case WaitSeed
    with assms(2) b obtain pci where pci: "StateSectorPreCommitInfo w a (SectorNumber si) tok = Inr (Some pci)"
      and r: "\<And>e. \<exists>rand. RandomnessFromBeacon w tok e buf = Inr rand" by (auto simp: helpful_def)
    from r [of "oc_PreCommitEpoch pci + PreCommitChallengeDelay w"] WaitSeed b pci show ?thesis
      by (auto simp: defs handleWaitSeed_def waitSeed_callback_def)
  next
    case Committing
    with sl obtain commr commd where c: "CommR si = Some commr" "CommD si = Some commd"
      by (auto simp: needs_def sealed_def)
    from Committing assms(2) have n: "CommitMessage si = None" by (auto simp: helpful_def)
    from Committing assms(2) obtain c1 where c1: "SealCommit1 w (sealingCtx si None)
        ((mid, SectorNumber si), SectorType si) (TicketValue si) (SeedValue si) (pieceInfos si) (commd, commr) = Inr c1"
      by (fastforce simp: helpful_def)
    from Committing assms(2) obtain prf' where
      "SealCommit2 w (sealingCtx si None) ((mid, SectorNumber si), SectorType si) c1 = Inr prf'"
      by (fastforce simp: helpful_def)
    with Committing c c1 n b show ?thesis by (simp add: defs handleCommitting_def computeProof_def)
  next
    case SubmitCommit
    with assms(2) b obtain pci where "checkCommit w a si (Proof si) tok = COk"
      "StateSectorPreCommitInfo w a (SectorNumber si) tok = Inr (Some pci)"
      "\<And>n p. \<exists>enc. MarshalProveCommit w n p = Inr enc" "\<And>use g d. \<exists>f. addrSel w mi use g d = Inr f"
      "\<And>f t m v g p. \<exists>c. SendMsg w f t m v g p = Inr c"
      by (auto simp: helpful_def)
    with SubmitCommit b show ?thesis
      by (auto simp: defs handleSubmitCommit_def split: sum.splits) (metis sum.distinct(1))+
  next
    case CommitWait
    with cm obtain c where c: "CommitMessage si = Some c" by auto
    from CommitWait assms(2) have "\<exists>mw info. StateWaitMsg w c = Inr mw \<and> ExitCode (Receipt mw) = exit_Ok w \<and>
      StateSectorGetInfo w a (SectorNumber si) (TipSetTok mw) = Inr (Some info)"
      by (auto simp: helpful_def)
    with CommitWait c show ?thesis by (auto simp: defs handleCommitWait_def)
  next
    case FinalizeSector
    with assms(2) b show ?thesis by (auto simp: helpful_def defs handleFinalizeSector_def)
  qed (use assms(2) in \<open>simp_all add: helpful_def\<close>)
qed

lemma handler_event_sends: "handler_event w a si = Some e \<Longrightarrow> handler_sends si e"
proof -
  assume e: "handler_event w a si = Some e"
  then obtain h r where h: "fst (select_handler si) = Some h" "run_handler h (calm w a) si = Some r"
    by (auto simp: handler_event_def split: option.splits)
  show ?thesis
  proof (cases r)
    case (Sent e')
    with e h show ?thesis by (auto simp: handler_event_def handler_sends_def)
  next
    case (AwaitHeight height)
    with e h have s: "State si = WaitSeed" "waitSeed_callback w a height = Sent e"
      by (auto simp: handler_event_def split: if_splits hres.splits)
    with h AwaitHeight have "handleWaitSeed w a si = AwaitHeight height"
      by (simp add: select_handler_def run_handler_def calm_def)
    with s show ?thesis unfolding handler_sends_def by (intro disjI2 exI [of _ "\<lambda>_. w"] exI [of _ a] exI [of _ height]) simp
  qed (use e h in \<open>simp_all add: handler_event_def\<close>)
qed

lemma plan_phase:
  assumes "phase_event (State si) e" "env_minerID env \<noteq> None"
  shows "\<exists>s. plan_event env e si = Some s \<and> State s = next_phase (State si)"
proof -
  define L where "L = (\<lambda>e. Logs (logEvents env [e] si))"
  have l: "logEvents env [e] si = si\<lparr>Logs := L e\<rparr>" for e
    unfolding L_def by (rule logEvents_frame)
  obtain mid where "env_minerID env = Some mid" using assms(2) by auto
  then show ?thesis
    using assms(1) by (cases "State si")
      (auto simp: phase_event_def plan_event_def plan_def l fsmPlanners_def next_phase_def planner_simps
        applyGlobal_def select_handler_def Let_def simp del: logEvents.simps)
qed

lemma plan_event_planned:
  assumes "plan_event env e si = Some s" "\<forall>ev. \<exists>t. env_marshal env ev = Inr t"
  shows "planned e si s"
  using assms by (auto simp: plan_event_def planned_def split: option.splits if_splits)

text \<open>One helpful step of a reachable sector.\<close>

lemma helpful_step:
  assumes "reachable si" "helpful w a si" "env_minerID env \<noteq> None" "\<forall>ev. \<exists>t. env_marshal env ev = Inr t"
  shows "\<exists>e s. handler_event w a si = Some e \<and> plan_event env e si = Some s \<and> reachable s \<and>
    State s = next_phase (State si)"
proof -
  obtain e where e: "handler_event w a si = Some e" "phase_event (State si) e"
    using helpful_event [OF reachable_inv [OF assms(1)] assms(2)] by blast
  obtain s where s: "plan_event env e si = Some s" "State s = next_phase (State si)"
    using plan_phase [OF e(2) assms(3)] by blast
  have "reachable s"
    using machine_reach.own [OF assms(1) handler_event_sends [OF e(1)] plan_event_planned [OF s(1) assms(4)]] .
  with e s show ?thesis by blast
qed

lemma drive_helpful:
  assumes "reachable si" "env_minerID env \<noteq> None" "\<forall>ev. \<exists>t. env_marshal env ev = Inr t"
    and "\<forall>i < n. \<forall>s. drive env W a i si = Some s \<longrightarrow> helpful (W i) a s"
  shows "\<exists>s. drive env W a n si = Some s \<and> reachable s \<and> State s = (next_phase ^^ n) (State si)"
  using assms(4)
proof (induction n)
  case 0
  then show ?case using assms(1) by simp
next
  case (Suc n)
  then obtain s where s: "drive env W a n si = Some s" "reachable s" "State s = (next_phase ^^ n) (State si)"
    by auto
  with Suc.prems have "helpful (W n) a s" by blast
  from helpful_step [OF s(2) this assms(2,3)] s show ?case by auto
qed

section \<open>Property\<close>

text \<open>
  C25. Sealing terminates successfully in a helpful world: a reachable sector in \<open>Packing\<close> is
  proving after eleven handler runs, each followed by planning the event it sent, when the world of
  each run gives the answers its phase asks for; it then has both commitments and its commit message.
\<close>

theorem sealing_reaches_proving:
  assumes "reachable si" "State si = Packing" "env_minerID env \<noteq> None"
    and "\<forall>ev. \<exists>t. env_marshal env ev = Inr t"
    and "\<forall>i < 11. \<forall>s. drive env W a i si = Some s \<longrightarrow> helpful (W i) a s"
  shows "\<exists>s. drive env W a 11 si = Some s \<and> State s = Proving \<and> CommR s \<noteq> None \<and> CommD s \<noteq> None \<and>
    CommitMessage s \<noteq> None"
proof -
  obtain s where s: "drive env W a 11 si = Some s" "reachable s" "State s = (next_phase ^^ 11) Packing"
    using drive_helpful [OF assms(1,3,4,5)] assms(2) by auto
  from s(3) have "State s = Proving" by (simp add: numeral_nat next_phase_def)
  with reachable_inv [OF s(2)] s(1) show ?thesis
    by (auto simp: sector_inv_def needs_def holds_def sealed_def)
qed

end
