(* ===== verification/Sealing_Samples.thy ===== *)
theory Sealing_Samples
  imports Sealing_Progress
begin

text \<open>
  A committed-capacity sector sealed step by step in the sample world, and the witnesses of the
  properties of theories \<open>Sealing_Safety\<close> and \<open>Sealing_Progress\<close> on it.
\<close>

section \<open>The run\<close>

definition sample_pci :: SectorPreCommitOnChainInfo where
  "sample_pci = \<lparr>oc_Info = \<lparr>pc_SealProof = 5, pc_SectorNumber = 7, pc_SealedCID = ''commr'', pc_SealRandEpoch = - 800,
     pc_DealIDs = []\<rparr>, oc_PreCommitEpoch = 90\<rparr>"

text \<open>The pre-commit is on chain from the seventh step on.\<close>

definition sample_worlds :: "nat \<Rightarrow> world" where
  "sample_worlds i = sample_world\<lparr>ZeroPieceCommitment := (\<lambda>_. ''added''),
     StateSectorPreCommitInfo := (\<lambda>_ _ _. Inr (if i < 6 then None else Some sample_pci))\<rparr>"

definition sample_advance :: "nat \<Rightarrow> SectorInfo \<Rightarrow> SectorInfo" where
  "sample_advance i s =
    (if i = 0 then s\<lparr>State := GetTicket,
       Pieces := [\<lparr>p_Piece = \<lparr>Size = 2048, PieceCID = ''added''\<rparr>, p_DealInfo = None\<rparr>]\<rparr>
     else if i = 1 then s\<lparr>State := PreCommit1, TicketEpoch := - 800, TicketValue := [8]\<rparr>
     else if i = 2 then s\<lparr>State := PreCommit2, PreCommit1Out := [6], PreCommit2Fails := 0\<rparr>
     else if i = 3 then s\<lparr>State := PreCommitting, CommD := Some ''commd'', CommR := Some ''commr''\<rparr>
     else if i = 4 then s\<lparr>State := PreCommitWait, PreCommitMessage := Some ''msg'', PreCommitInfo := Some (oc_Info sample_pci)\<rparr>
     else if i = 5 then s\<lparr>State := WaitSeed, PreCommitTipSet := [2]\<rparr>
     else if i = 6 then s\<lparr>State := Committing, SeedEpoch := 240, SeedValue := [7]\<rparr>
     else if i = 7 then s\<lparr>State := SubmitCommit, Proof := [10]\<rparr>
     else if i = 8 then s\<lparr>State := CommitWait, CommitMessage := Some ''msg''\<rparr>
     else if i = 9 then s\<lparr>State := FinalizeSector\<rparr>
     else s\<lparr>State := Proving\<rparr>)"

definition sample_cc :: SectorInfo where
  "sample_cc = zero_SectorInfo\<lparr>State := Packing, SectorNumber := 7, SectorType := 5\<rparr>"

fun sample_sector :: "nat \<Rightarrow> SectorInfo" where
  "sample_sector 0 = sample_cc"
| "sample_sector (Suc i) = sample_advance i (sample_sector i)"

lemma sample_sector_numeral:
  "sample_sector (numeral k) = sample_advance (pred_numeral k) (sample_sector (pred_numeral k))"
  by (simp add: numeral_eq_Suc)

lemmas sample_sector_simps = sample_sector_numeral sample_sector.simps sample_advance_def sample_cc_def zero_SectorInfo_def

lemma sample_worlds_simps [simp]:
  "StateSectorPreCommitInfo (sample_worlds i) a1 n1 t1 = Inr (if i < 6 then None else Some sample_pci)"
  "ZeroPieceCommitment (sample_worlds i) s2 = ''added''"
  "minerID (sample_worlds i) a3 = Some 1000" "ChainHead (sample_worlds i) = Inr ([1], 100)"
  "StateMinerInfo (sample_worlds i) a5 t5 = Inr []" "MarshalAddr (sample_worlds i) a6 = Inr [3]"
  "SectorSize (sample_worlds i) 5 = Inr 2048" "Unpadded (sample_worlds i) p8 = p8 - p8 div 128"
  "SealerAddPiece (sample_worlds i) pr9 r9 ss9 s9 = Inr \<lparr>Size = s9 + s9 div 127, PieceCID = ''added''\<rparr>"
  "RandomnessFromTickets (sample_worlds i) t10 e10 b10 = Inr [8]" "RandomnessFromBeacon (sample_worlds i) t11 e11 b11 = Inr [7]"
  "SealRandomnessLookback (sample_worlds i) = 900" "MaxPreCommitRandomnessLookback (sample_worlds i) = 10000"
  "SealPreCommit1 (sample_worlds i) pr14 r14 tv14 ps14 = Inr [6]" "SealPreCommit2 (sample_worlds i) pr15 r15 o15 = Inr (''commd'', ''commr'')"
  "StateComputeDataCommitment (sample_worlds i) a16 p16 ds16 t16 = Inr ''commd''"
  "MarshalPreCommit (sample_worlds i) p17 = Inr [4]" "addrSel (sample_worlds i) mi18 u18 g18 d18 = Inr ''worker''"
  "SendMsg (sample_worlds i) f19 t19 m19 v19 g19 p19 = Inr ''msg''" "StateWaitMsg (sample_worlds i) c20 = Inr sample_lookup"
  "exit_Ok (sample_worlds i) = 0" "PreCommitChallengeDelay (sample_worlds i) = 150"
  "SealCommit1 (sample_worlds i) pr23 r23 t23 s23 ps23 cs23 = Inr [9]" "SealCommit2 (sample_worlds i) pr24 r24 o24 = Inr [10]"
  "VerifySeal (sample_worlds i) v25 = Inr True" "MarshalProveCommit (sample_worlds i) n26 p26 = Inr [5]"
  "StateSectorGetInfo (sample_worlds i) a27 n27 t27 = Inr (Some [])" "getConfig (sample_worlds i) = Inr sample_config"
  "SealerFinalize (sample_worlds i) pr29 r29 ks29 = None"
  by (simp_all add: sample_worlds_def sample_world_def)

lemma sample_helpful:
  assumes "i < 11"
  shows "helpful (sample_worlds i) ''miner'' (sample_sector i\<lparr>Logs := l\<rparr>)"
proof -
  have "i = 0 \<or> i = 1 \<or> i = 2 \<or> i = 3 \<or> i = 4 \<or> i = 5 \<or> i = 6 \<or> i = 7 \<or> i = 8 \<or> i = 9 \<or> i = 10"
    using assms by presburger
  then show ?thesis
    by (elim disjE) (simp_all add: helpful_def sample_sector_simps existingPieceSizes_def checkPieces_def checkTicketExpired_def
        checkPrecommit_def checkCommit_def dealIDs_def sample_pci_def sample_lookup_def minerSectorID_def)
qed

lemmas sample_handlers = handleGetTicket_def getTicket_def handlePreCommit1_def handlePreCommit2_def
  handlePreCommitting_def submitPreCommit_def handlePreCommitWait_def handleWaitSeed_def waitSeed_callback_def
  handleCommitting_def computeProof_def handleSubmitCommit_def handleCommitWait_def handleFinalizeSector_def
  minerSector_def minerSectorID_def checkPieces_def checkTicketExpired_def checkPrecommit_def checkCommit_def
  dealIDs_def sample_pci_def sample_lookup_def

lemma sample_packing_event:
  "handler_event (sample_worlds 0) ''miner'' (sample_sector 0\<lparr>Logs := l\<rparr>) =
    Some (SectorPacked [\<lparr>Size = 2048, PieceCID = ''added''\<rparr>])"
proof -
  have "fillersFromRem (Unpadded (sample_worlds 0)) 2032 = [2032]"
    unfolding sample_worlds_simps by code_simp
  then show ?thesis
    by (simp add: handler_event_def select_handler_def run_handler_def calm_def sample_sector_simps handlePacking_def
        packing_input_def empty_input_def existingPieceSizes_def padSector_def minerSectorID_def Let_def)
qed

lemma sample_step:
  assumes "i < 11"
  shows "\<exists>e l'. handler_event (sample_worlds i) ''miner'' (sample_sector i\<lparr>Logs := l\<rparr>) = Some e \<and>
    plan_event sample_env e (sample_sector i\<lparr>Logs := l\<rparr>) = Some (sample_sector (Suc i)\<lparr>Logs := l'\<rparr>)"
proof -
  have "i = 0 \<or> i = 1 \<or> i = 2 \<or> i = 3 \<or> i = 4 \<or> i = 5 \<or> i = 6 \<or> i = 7 \<or> i = 8 \<or> i = 9 \<or> i = 10"
    using assms by presburger
  moreover have "\<exists>l'. plan_event sample_env (SectorPacked [\<lparr>Size = 2048, PieceCID = ''added''\<rparr>])
      (sample_sector 0\<lparr>Logs := l\<rparr>) = Some (sample_sector 1\<lparr>Logs := l'\<rparr>)"
    by (simp add: plan_event_def plan_def sample_env_def fsmPlanners_def planner_simps applyGlobal_def
        select_handler_def sample_sector_simps)
  ultimately show ?thesis
    using sample_packing_event [of l]
    by (elim disjE) (simp_all add: handler_event_def select_handler_def run_handler_def calm_def sample_handlers
        plan_event_def plan_def sample_env_def fsmPlanners_def planner_simps applyGlobal_def sample_sector_simps Let_def)
qed

section \<open>Reaching its states\<close>

definition sample_start :: SectorInfo where
  "sample_start = sample_cc\<lparr>Logs := [log_entry sample_env (SectorStartCC 7 5) ''{}'']\<rparr>"

lemma sample_env_marshals: "\<forall>ev. \<exists>t. env_marshal sample_env ev = Inr t" "env_minerID sample_env \<noteq> None"
  by (simp_all add: sample_env_def)

lemma sample_start_reachable: "reachable sample_start"
proof -
  have "plan_event sample_env (SectorStartCC 7 5) zero_SectorInfo = Some sample_start"
    by (simp add: plan_event_def plan_def fsmPlanners_def sample_env_def zero_SectorInfo_def planner_simps
        applyGlobal_def select_handler_def sample_start_def sample_cc_def truncate_log_def)
  then have p: "planned (SectorStartCC 7 5) zero_SectorInfo sample_start"
    by (rule plan_event_planned [OF _ sample_env_marshals(1)])
  show ?thesis
    by (rule machine_reach.outside [where e = "SectorStartCC 7 5"], rule machine_reach.start)
      (use p in \<open>simp_all add: external_event_def\<close>)
qed

lemma sample_drive:
  "i \<le> 11 \<Longrightarrow> \<exists>l. drive sample_env sample_worlds ''miner'' i sample_start = Some (sample_sector i\<lparr>Logs := l\<rparr>)"
proof (induction i)
  case 0
  show ?case
    by (intro exI [of _ "[log_entry sample_env (SectorStartCC 7 5) ''{}'']"]) (simp add: sample_start_def)
next
  case (Suc i)
  then obtain l where d: "drive sample_env sample_worlds ''miner'' i sample_start = Some (sample_sector i\<lparr>Logs := l\<rparr>)"
    by (meson Suc_leD)
  obtain e l' where "handler_event (sample_worlds i) ''miner'' (sample_sector i\<lparr>Logs := l\<rparr>) = Some e"
    "plan_event sample_env e (sample_sector i\<lparr>Logs := l\<rparr>) = Some (sample_sector (Suc i)\<lparr>Logs := l'\<rparr>)"
    using sample_step [of i l] Suc.prems by (auto simp only: Suc_le_eq)
  with d show ?case by (intro exI [of _ l']) (simp del: sample_sector.simps)
qed

lemma sample_drive_helpful:
  "\<forall>i < 11. \<forall>s. drive sample_env sample_worlds ''miner'' i sample_start = Some s \<longrightarrow> helpful (sample_worlds i) ''miner'' s"
proof (intro allI impI)
  fix i s assume i: "i < (11::nat)" "drive sample_env sample_worlds ''miner'' i sample_start = Some s"
  with sample_drive [of i] obtain l where "s = sample_sector i\<lparr>Logs := l\<rparr>" by (metis less_imp_le option.inject)
  with sample_helpful [OF i(1)] show "helpful (sample_worlds i) ''miner'' s" by simp
qed

lemma sample_reaches:
  assumes "i \<le> 11"
  obtains l where "reachable (sample_sector i\<lparr>Logs := l\<rparr>)"
proof -
  obtain l where l: "drive sample_env sample_worlds ''miner'' i sample_start = Some (sample_sector i\<lparr>Logs := l\<rparr>)"
    using sample_drive [OF assms] by blast
  have "\<forall>j < i. \<forall>s. drive sample_env sample_worlds ''miner'' j sample_start = Some s \<longrightarrow> helpful (sample_worlds j) ''miner'' s"
    using sample_drive_helpful assms less_le_trans by blast
  from drive_helpful [OF sample_start_reachable sample_env_marshals(2,1) this] obtain s where
    "drive sample_env sample_worlds ''miner'' i sample_start = Some s" "reachable s" by blast
  with l have "reachable (sample_sector i\<lparr>Logs := l\<rparr>)" by (simp only: option.inject)
  then show thesis by (rule that)
qed

section \<open>Witnesses\<close>

theorem sealing_reaches_proving_witness:
  "\<exists>s. drive sample_env sample_worlds ''miner'' 11 sample_start = Some s \<and> State s = Proving \<and>
    CommR s \<noteq> None \<and> CommD s \<noteq> None \<and> CommitMessage s \<noteq> None"
  by (rule sealing_reaches_proving [OF sample_start_reachable _ sample_env_marshals(2,1) sample_drive_helpful])
    (simp add: sample_start_def sample_cc_def)

theorem reachable_facts_witness:
  "\<exists>si. reachable si \<and> State si = PreCommitWait \<and> CommR si \<noteq> None \<and> PreCommitMessage si \<noteq> None"
proof -
  obtain l where r: "reachable (sample_sector 5\<lparr>Logs := l\<rparr>)" by (rule sample_reaches [of 5]) simp_all
  have "State (sample_sector 5\<lparr>Logs := l\<rparr>) = PreCommitWait" by (simp add: sample_sector_simps)
  with reachable_facts [OF r] r show ?thesis by (intro exI [of _ "sample_sector 5\<lparr>Logs := l\<rparr>"]) simp
qed

theorem reachable_states_witness:
  "\<exists>si. reachable si \<and> State si = Proving \<and> fsmPlanners (State si) \<noteq> None"
proof -
  obtain l where r: "reachable (sample_sector 11\<lparr>Logs := l\<rparr>)" by (rule sample_reaches [of 11]) simp_all
  have "State (sample_sector 11\<lparr>Logs := l\<rparr>) = Proving" by (simp add: sample_sector_simps)
  with reachable_states [OF r] r show ?thesis by (intro exI [of _ "sample_sector 11\<lparr>Logs := l\<rparr>"]) simp
qed

lemma calm_ok: "minerID w a \<noteq> None \<Longrightarrow> env_ok (calm w a)"
proof -
  have "sizes_ok 0 empty_input" by (simp add: sizes_ok_def empty_input_def)
  moreover have "sorts (he_order (calm w a))" by (simp add: calm_def sorts_def slice_sort_instances)
  ultimately show "minerID w a \<noteq> None \<Longrightarrow> env_ok (calm w a)" by (auto simp: env_ok_def calm_def)
qed

text \<open>A sector whose only deal carries no proposal, and a world in which its publish message returned no deal.\<close>

definition lost_sector :: SectorInfo where
  "lost_sector = sample_cc\<lparr>State := RecoverDealIDs, Return := PreCommit1,
     Pieces := [\<lparr>p_Piece = \<lparr>Size = 2048, PieceCID = ''added''\<rparr>, p_DealInfo = Some (sample_deal\<lparr>di_DealProposal := None\<rparr>)\<rparr>]\<rparr>"

definition lost_world :: world where
  "lost_world = sample_world\<lparr>UnmarshalPublishReturn := (\<lambda>_. Inr [])\<rparr>"

theorem handlers_panic_only_in_recovery_witness:
  "reachable sample_start \<and> run_handler do_handlePacking (calm sample_world ''miner'') sample_start \<noteq> Some HPanic \<and>
   env_ok (calm lost_world ''miner'') \<and>
   run_handler do_handleRecoverDealIDs (calm lost_world ''miner'') lost_sector = Some HPanic"
proof -
  have "fst (select_handler sample_start) = Some do_handlePacking"
    by (simp add: select_handler_def sample_start_def sample_cc_def)
  with handlers_panic_only_in_recovery [OF sample_start_reachable calm_ok, of sample_world "''miner''" do_handlePacking]
  have "run_handler do_handlePacking (calm sample_world ''miner'') sample_start \<noteq> Some HPanic" by auto
  moreover have "run_handler do_handleRecoverDealIDs (calm lost_world ''miner'') lost_sector = Some HPanic"
    by (simp add: run_handler_def calm_def handleRecoverDealIDs_def lost_world_def lost_sector_def sample_cc_def
        sample_world_def sample_deal_def sample_proposal_def sample_lookup_def GetCurrentDealInfo_def
        dealIDFromPublishDealsMsg_def Let_def)
  ultimately show ?thesis
    using sample_start_reachable calm_ok [of lost_world "''miner''"] by (simp add: lost_world_def)
qed

theorem handler_events_accepted_witness:
  "handler_sends sample_start (SectorPacked [\<lparr>Size = 2048, PieceCID = ''added''\<rparr>]) \<and>
   accepts 5 sample_start (SectorPacked [\<lparr>Size = 2048, PieceCID = ''added''\<rparr>])"
proof -
  have "handler_sends sample_start (SectorPacked [\<lparr>Size = 2048, PieceCID = ''added''\<rparr>])"
    using handler_event_sends [OF sample_packing_event] by (simp add: sample_start_def)
  with handler_events_accepted [OF sample_start_reachable this, of 5] show ?thesis
    by (simp add: sample_start_def sample_cc_def)
qed

theorem finalized_sector_on_chain_witness:
  "\<exists>si si'. reachable si \<and> planned SectorProving si si' \<and> State si' = FinalizeSector \<and>
    (\<exists>msg mw. CommitMessage si = Some msg \<and> StateWaitMsg (sample_worlds 9) msg = Inr mw \<and> ExitCode (Receipt mw) = 0)"
proof -
  obtain l where r: "reachable (sample_sector 9\<lparr>Logs := l\<rparr>)" by (rule sample_reaches [of 9]) simp_all
  let ?s = "sample_sector 9\<lparr>Logs := l\<rparr>"
  obtain e l' where e: "handler_event (sample_worlds 9) ''miner'' ?s = Some e"
    "plan_event sample_env e ?s = Some (sample_sector (Suc 9)\<lparr>Logs := l'\<rparr>)"
    using sample_step [of 9 l] by auto
  have st: "State ?s = CommitWait" "State (sample_sector (Suc 9)\<lparr>Logs := l'\<rparr>) = FinalizeSector"
    by (simp_all add: sample_sector_simps)
  have p: "planned e ?s (sample_sector (Suc 9)\<lparr>Logs := l'\<rparr>)" by (rule plan_event_planned [OF e(2) sample_env_marshals(1)])
  have h: "\<exists>h. fst (select_handler ?s) = Some h \<and> run_handler h (calm (sample_worlds 9) ''miner'') ?s = Some (Sent e)"
    using e(1) st(1) by (auto simp: handler_event_def split: option.splits hres.splits)
  have "State ?s \<notin> {FinalizeSector, FinalizeFailed}" using st(1) by simp
  from finalized_sector_on_chain [OF r p st(2) this disjI2 [OF h]] r p st show ?thesis
    by (intro exI [of _ ?s] exI [of _ "sample_sector (Suc 9)\<lparr>Logs := l'\<rparr>"]) (auto simp: calm_def)
qed

theorem no_return_from_removal_witness:
  "\<exists>si'. machine_reach (zero_SectorInfo\<lparr>State := Removing\<rparr>) external_event handler_sends planned si' \<and>
    State si' \<in> {Terminating, TerminateWait, TerminateFinality, TerminateFailed, Removing, RemoveFailed, Removed} \<and>
    State si' \<noteq> Removing"
proof -
  let ?s = "zero_SectorInfo\<lparr>State := Removing\<rparr>"
  have e: "handler_event sample_world ''miner'' ?s = Some SectorRemoved"
    by (simp add: handler_event_def select_handler_def run_handler_def calm_def handleRemoving_def minerSector_def
        minerSectorID_def) (simp add: sample_world_def)
  obtain s' where s': "plan_event sample_env SectorRemoved ?s = Some s'" "State s' \<noteq> Removing"
    by (simp add: plan_event_def plan_def fsmPlanners_def sample_env_def zero_SectorInfo_def planner_simps
        applyGlobal_def select_handler_def)
  have "machine_reach ?s external_event handler_sends planned s'"
    by (rule machine_reach.own [where e = SectorRemoved], rule machine_reach.start)
      (use handler_event_sends [OF e] plan_event_planned [OF s'(1) sample_env_marshals(1)] in auto)
  from no_return_from_removal [OF this] this s'(2) show ?thesis by auto
qed

end
