(* ===== verification/Sealing_Layout.thy ===== *)
theory Sealing_Layout
  imports Sealing_Admission
begin

text \<open>
  The layout of a sector's pieces: what \<open>handleAddPiece\<close> writes keeps every piece aligned to its
  size and the sector within its capacity, a piece that \<open>updateInput\<close> matched with a sector always
  finds room in it, and \<open>handlePacking\<close> fills the sector exactly.

  Padded positions are multiples of 128 bytes, the corresponding unpadded ones of 127 bytes: a
  position is counted in such units.
\<close>

section \<open>Piece arithmetic\<close>

text \<open>
  What the code relies on of \<open>abi\<close> and the sealer: the sizes with and without bit padding, and a
  written piece has the padded size of the data.
\<close>

definition abi_world :: "world \<Rightarrow> bool" where
  "abi_world w \<longleftrightarrow> (\<forall>p. Unpadded w p = p - p div 128) \<and> (\<forall>u. Padded w u = u + u div 127) \<and>
     (\<forall>ctx ref sizes s ppi. SealerAddPiece w ctx ref sizes s = Inr ppi \<longrightarrow> Size ppi = Padded w s)"

lemma Padded_units:
  assumes "abi_world w" "128 * q < 2 ^ 64"
  shows "Padded w (of_nat (127 * q)) = of_nat (128 * q)"
proof -
  have "(of_nat (127 * q) :: u64) div 127 = of_nat q"
    using assms(2) by (intro word_unat_eq_iff [THEN iffD2]) (simp add: unat_div unat_of_nat_64 del: of_nat_mult)
  then show ?thesis using assms(1) by (simp add: abi_world_def)
qed

lemma Unpadded_units:
  assumes "abi_world w" "128 * q < 2 ^ 64"
  shows "Unpadded w (of_nat (128 * q)) = of_nat (127 * q)"
proof -
  have "(of_nat (128 * q) :: u64) div 128 = of_nat q"
    using assms(2) by (intro word_unat_eq_iff [THEN iffD2]) (simp add: unat_div unat_of_nat_64 del: of_nat_mult)
  then show ?thesis using assms(1) by (simp add: abi_world_def)
qed

lemma word_of_unat: "unat p = n \<Longrightarrow> p = of_nat n" for p :: u64
  using unat_of_nat_64 [OF unat_lt_64 [of p]] word_unat_eq_iff by metis

text \<open>Room for a power of two is room for its padding as well.\<close>

lemma room_for_padding:
  assumes "(2::nat) ^ k \<le> 2 ^ K - off" "off \<le> 2 ^ K"
  shows "round_up off (2 ^ k) + 2 ^ k \<le> 2 ^ K"
proof -
  have le: "k \<le> K" using assms(1) by (metis diff_le_self le_trans power_increasing_iff one_less_numeral_iff semiring_norm(76))
  then have d: "(2::nat) ^ k dvd 2 ^ K" by (rule le_imp_power_dvd)
  obtain a where a: "round_up off (2 ^ k) = 2 ^ k * a" using round_up_dvd [of "2 ^ k" off] by auto
  obtain b where b: "(2::nat) ^ K = 2 ^ k * b" using d by auto
  have "round_up off (2 ^ k) < off + 2 ^ k" by (simp add: round_up_def)
  also have "off + 2 ^ k \<le> 2 ^ K" using assms by simp
  finally have "a < b" using a b by simp
  then have "2 ^ k * (a + 1) \<le> 2 ^ k * b" by (intro mult_le_mono2) simp
  then show ?thesis using a b by (simp add: algebra_simps)
qed

lemma pads_units:
  assumes "GetRequiredPadding old new = Some (pads, s)" "128 dvd unat s" "p \<in> set pads"
  shows "\<exists>i\<ge>7. unat p = 2 ^ i"
proof -
  have n: "new \<noteq> 0" using assms(1) by (auto simp: GetRequiredPadding_def)
  then have "pads = map (\<lambda>i. push_bit i 1) (set_bits s)"
    using assms(1) GetRequiredPadding_eq [OF n, of old] by (auto simp del: push_bit_of_1)
  then obtain i where i: "i \<in> set (set_bits s)" "p = push_bit i 1" using assms(3) by auto
  then have "7 \<le> i" using set_bits_ge7 [of s i] assms(2) by (simp add: dvd_eq_mod_eq_0)
  moreover have "i < 64" using i(1) by auto
  ultimately show ?thesis using i(2) unat_push_bit_1 by blast
qed

lemma unit_power:
  assumes "7 \<le> k"
  shows "(2::nat) ^ k = 128 * 2 ^ (k - 7)"
proof -
  have "(2::nat) ^ k = 2 ^ 7 * 2 ^ (k - 7)" using assms by (simp only: power_add [symmetric] le_add_diff_inverse)
  then show ?thesis by simp
qed

lemma padding_units:
  assumes "128 * q \<le> 2 ^ K" "K \<le> 61" "7 \<le> k" "k \<le> K"
  obtains pads m where
    "GetRequiredPadding (of_nat (128 * q)) (of_nat (2 ^ k)) = Some (pads, of_nat (128 * m))"
    "128 * q + 128 * m = round_up (128 * q) (2 ^ k)" "128 * m < 2 ^ K"
    "sum_list (map unat pads) = 128 * m" "aligned_from (128 * q) (map unat pads)"
    "\<forall>p\<in>set pads. \<exists>i\<ge>7. unat p = 2 ^ i"
proof -
  have lt: "(2::nat) ^ K < 2 ^ 64" using assms(2) by (intro power_strict_increasing) auto
  have kK: "(2::nat) ^ k \<le> 2 ^ K" using assms(4) by (intro power_increasing) auto
  have uq: "unat (of_nat (128 * q) :: u64) = 128 * q" using assms(1) lt by (intro unat_of_nat_64) simp
  have uk: "unat (of_nat (2 ^ k) :: u64) = 2 ^ k" by (rule unat_of_nat_64 [OF le_less_trans [OF kK lt]])
  obtain pads len where g: "GetRequiredPadding (of_nat (128 * q)) (of_nat (2 ^ k)) = Some (pads, len)"
    "len = sum_list pads"
    "unat (of_nat (128 * q) :: u64) + sum_list (map unat pads) = round_up (unat (of_nat (128 * q) :: u64)) (2 ^ k)"
    "unat len = sum_list (map unat pads)"
    "aligned_from (unat (of_nat (128 * q) :: u64)) (map unat pads)"
    by (rule GetRequiredPadding_layout [OF uk])
  note g = g [unfolded uq]
  have "128 dvd round_up (128 * q) (2 ^ k)"
    using round_up_dvd [of "2 ^ k" "128 * q"] unit_power [OF assms(3)] by (metis dvd_mult_left zero_less_power zero_less_numeral)
  then have d: "128 dvd unat len" using g(3,4) by (metis dvd_add_right_iff dvd_triv_left)
  then obtain m where m: "unat len = 128 * m" by auto
  have "len = of_nat (128 * m)" by (rule word_of_unat [OF m])
  moreover have "128 * m < 2 ^ K"
  proof -
    have "128 * m < 2 ^ k" using g(3,4) m by (simp add: round_up_def)
    from less_le_trans [OF this kK] show ?thesis .
  qed
  moreover have "\<forall>p\<in>set pads. \<exists>i\<ge>7. unat p = 2 ^ i" using pads_units [OF g(1) d] by blast
  ultimately show thesis using that [of pads m] g m by simp
qed

section \<open>The pieces \<open>handleAddPiece\<close> writes\<close>

abbreviation piece_sizes :: "Piece list \<Rightarrow> nat list" where
  "piece_sizes ps \<equiv> map (\<lambda>p. unat (Size (p_Piece p))) ps"

lemma written_size:
  assumes "abi_world w" "unat p = 2 ^ i" "7 \<le> i"
    and "SealerAddPiece w ctx ref sizes (Unpadded w p) = Inr ppi"
  shows "Size ppi = p"
proof -
  let ?q = "2 ^ (i - 7) :: nat"
  have u: "unat p = 128 * ?q" using assms(2) unit_power [OF assms(3)] by simp
  then have p: "p = of_nat (128 * ?q)" by (rule word_of_unat)
  have "128 * ?q < 2 ^ 64" using u unat_lt_64 [of p] by simp
  then have "Padded w (Unpadded w p) = p" using Padded_units Unpadded_units assms(1) p by metis
  moreover have "Size ppi = Padded w (Unpadded w p)" using assms(1,4) by (auto simp: abi_world_def)
  ultimately show ?thesis by simp
qed

lemma write_pads_sizes:
  assumes "abi_world w" "\<forall>p\<in>set pads. \<exists>i\<ge>7. unat p = 2 ^ i"
    and "write_pads w ref sizes pads = Inr (sizes', out)"
  shows "map (\<lambda>p. Size (p_Piece p)) out = pads \<and> (\<forall>p\<in>set out. p_DealInfo p = None)"
  using assms(2,3)
proof (induction pads arbitrary: sizes out)
  case (Cons p ps)
  then obtain ppi out' where o: "SealerAddPiece w (Some DealSectorPriority) ref sizes (Unpadded w p) = Inr ppi"
    "write_pads w ref (sizes @ [Unpadded w p]) ps = Inr (sizes', out')"
    "out = \<lparr>p_Piece = ppi, p_DealInfo = None\<rparr> # out'"
    by (auto split: sum.splits)
  from Cons.prems(1) obtain i where "unat p = 2 ^ i" "7 \<le> i" by auto
  with written_size [OF assms(1) _ _ o(1)] have "Size ppi = p" by blast
  with Cons.IH [OF _ o(2)] Cons.prems(1) o(3) show ?case by auto
qed simp

lemma write_pads_succeeds:
  assumes "\<forall>ctx sizes s. \<exists>ppi. SealerAddPiece w ctx ref sizes s = Inr ppi"
  shows "\<exists>sizes' out. write_pads w ref sizes pads = Inr (sizes', out)"
proof (induction pads arbitrary: sizes)
  case (Cons p ps)
  obtain ppi where "SealerAddPiece w (Some DealSectorPriority) ref sizes (Unpadded w p) = Inr ppi"
    using assms by blast
  moreover obtain s' out where "write_pads w ref (sizes @ [Unpadded w p]) ps = Inr (s', out)" using Cons by blast
  ultimately show ?case by simp
qed simp

lemma no_deals: "\<forall>p\<in>set ps. p_DealInfo p = None \<Longrightarrow> dealIDs_of ps = []"
  by (induction ps) auto

lemma dealIDs_of_append [simp]: "dealIDs_of (xs @ ys) = dealIDs_of xs @ dealIDs_of ys"
  by (induction xs) (auto split: option.splits)

definition pow_piece :: "Piece \<Rightarrow> bool" where
  "pow_piece p \<longleftrightarrow> (\<exists>k\<ge>7. unat (Size (p_Piece p)) = 2 ^ k)"

text \<open>
  One piece: the position after padding, what the checks compute without overflow, and the new
  position.
\<close>

lemma one_piece:
  assumes w: "abi_world w" and K: "unat ssize = 2 ^ K" "K \<le> 61" and q: "128 * q \<le> 2 ^ K"
    and k: "7 \<le> k" "k \<le> K" and sz: "sz = of_nat (127 * 2 ^ (k - 7))"
  obtains pads m where
    "GetRequiredPadding (Padded w (of_nat (127 * q))) (Padded w sz) = Some (pads, of_nat (128 * m))"
    "128 * (q + m) = round_up (128 * q) (2 ^ k)"
    "Padded w (of_nat (127 * q)) + of_nat (128 * m) + Padded w sz > ssize \<longleftrightarrow>
      round_up (128 * q) (2 ^ k) + 2 ^ k > 2 ^ K"
    "of_nat (127 * q) + Unpadded w (of_nat (128 * m)) = (of_nat (127 * (q + m)) :: u64)"
    "sum_list (map unat pads) = 128 * m" "aligned_from (128 * q) (map unat pads)"
    "\<forall>p\<in>set pads. \<exists>i\<ge>7. unat p = 2 ^ i" "unat (Padded w sz) = 2 ^ k"
proof -
  have "(2::nat) ^ K \<le> 2 ^ 61" using K(2) by (intro power_increasing) auto
  then have lt: "8 * (2::nat) ^ K \<le> 2 ^ 64" by simp
  have pos: "0 < (2::nat) ^ K" by simp
  have kK: "(2::nat) ^ k \<le> 2 ^ K" using k(2) by (intro power_increasing) auto
  have uk: "(2::nat) ^ k = 128 * 2 ^ (k - 7)" by (rule unit_power [OF k(1)])
  have "128 * q < 2 ^ 64" using q lt pos by linarith
  moreover have "128 * (2::nat) ^ (k - 7) < 2 ^ 64" using kK lt pos unfolding uk by linarith
  ultimately have ps: "Padded w (of_nat (127 * q)) = of_nat (128 * q)" "Padded w sz = of_nat (2 ^ k)"
    using Padded_units [OF w, of q] Padded_units [OF w, of "2 ^ (k - 7)"] sz uk by metis+
  obtain pads m where g: "GetRequiredPadding (of_nat (128 * q)) (of_nat (2 ^ k)) = Some (pads, of_nat (128 * m))"
    "128 * q + 128 * m = round_up (128 * q) (2 ^ k)" "128 * m < 2 ^ K"
    "sum_list (map unat pads) = 128 * m" "aligned_from (128 * q) (map unat pads)"
    "\<forall>p\<in>set pads. \<exists>i\<ge>7. unat p = 2 ^ i"
    by (rule padding_units [OF q K(2) k])
  have sum: "Padded w (of_nat (127 * q)) + of_nat (128 * m) + Padded w sz = of_nat (128 * q + 128 * m + 2 ^ k)"
    unfolding ps by (simp only: of_nat_add)
  have "128 * q + 128 * m + 2 ^ k < 2 ^ 64" using q g(3) kK lt pos by linarith
  then have "unat (of_nat (128 * q + 128 * m + 2 ^ k) :: u64) = 128 * q + 128 * m + 2 ^ k"
    by (rule unat_of_nat_64)
  then have c: "Padded w (of_nat (127 * q)) + of_nat (128 * m) + Padded w sz > ssize \<longleftrightarrow>
      round_up (128 * q) (2 ^ k) + 2 ^ k > 2 ^ K"
    unfolding sum by (simp only: word_less_nat_alt K(1) g(2))
  have "128 * m < 2 ^ 64" using g(3) lt by linarith
  then have u: "of_nat (127 * q) + Unpadded w (of_nat (128 * m)) = (of_nat (127 * (q + m)) :: u64)"
    using Unpadded_units [OF w, of m] by (simp add: algebra_simps)
  have z: "unat (Padded w sz) = 2 ^ k" unfolding ps using kK lt pos by (intro unat_of_nat_64) linarith
  show thesis
    using that [of pads m] g c u z by (simp only: ps add_mult_distrib2)
qed

lemma addPiece_loop_layout:
  assumes w: "abi_world w" and K: "unat ssize = 2 ^ K" "K \<le> 61"
    and "addPiece_loop w ref ssize nd pend (of_nat (127 * q)) i sizes new cs = (Added res, rs)"
    and "128 * q \<le> 2 ^ K"
    and "\<forall>c\<in>set cs. \<forall>pp. pend c = Some pp \<longrightarrow> (\<exists>k\<ge>7. k \<le> K \<and> pp_size pp = of_nat (127 * 2 ^ (k - 7)))"
  shows "\<exists>ext. res = new @ ext \<and> list_all pow_piece ext \<and> aligned_from (128 * q) (piece_sizes ext) \<and>
    128 * q + sum_list (piece_sizes ext) \<le> 2 ^ K \<and>
    length (dealIDs_of ext) \<le> getDealPerSectorLimit ssize - (nd + i)"
  using assms(4,5,6)
proof (induction cs arbitrary: q i sizes new rs)
  case Nil
  then show ?case by simp
next
  case (Cons c cs)
  obtain pp where pp: "pend c = Some pp" using Cons.prems(1) by (auto simp: Let_def split: option.splits)
  then obtain k where k: "7 \<le> k" "k \<le> K" "pp_size pp = of_nat (127 * 2 ^ (k - 7))" using Cons.prems(3) by auto
  obtain pads m where o: "GetRequiredPadding (Padded w (of_nat (127 * q))) (Padded w (pp_size pp)) = Some (pads, of_nat (128 * m))"
    "128 * (q + m) = round_up (128 * q) (2 ^ k)"
    "Padded w (of_nat (127 * q)) + of_nat (128 * m) + Padded w (pp_size pp) > ssize \<longleftrightarrow>
      round_up (128 * q) (2 ^ k) + 2 ^ k > 2 ^ K"
    "of_nat (127 * q) + Unpadded w (of_nat (128 * m)) = (of_nat (127 * (q + m)) :: u64)"
    "sum_list (map unat pads) = 128 * m" "aligned_from (128 * q) (map unat pads)"
    "\<forall>p\<in>set pads. \<exists>i\<ge>7. unat p = 2 ^ i" "unat (Padded w (pp_size pp)) = 2 ^ k"
    by (rule one_piece [OF w K Cons.prems(2) k])
  show ?case
  proof (cases "nd + (i + 1) > getDealPerSectorLimit ssize \<or> round_up (128 * q) (2 ^ k) + 2 ^ k > 2 ^ K")
    case True
    then obtain rs' where "addPiece_loop w ref ssize nd pend (of_nat (127 * q)) (i + 1) sizes new cs = (Added res, rs')"
      using Cons.prems(1) pp o(1,3) by (auto simp: Let_def split: if_splits prod.splits)
    from Cons.IH [OF this Cons.prems(2)] Cons.prems(3) show ?thesis by fastforce
  next
    case False
    then have n: "\<not> nd + (i + 1) > getDealPerSectorLimit ssize" and f: "round_up (128 * q) (2 ^ k) + 2 ^ k \<le> 2 ^ K"
      by auto
    let ?q = "q + m + 2 ^ (k - 7)" and ?p = "\<lambda>ppi. \<lparr>p_Piece = ppi, p_DealInfo = Some (pp_deal pp)\<rparr>"
    have off: "of_nat (127 * (q + m)) + pp_size pp = (of_nat (127 * ?q) :: u64)"
      by (simp add: k(3) algebra_simps)
    obtain sizes1 pps ppi rs' where wp: "write_pads w ref sizes pads = Inr (sizes1, pps)"
      and ap: "SealerAddPiece w (Some DealSectorPriority) ref sizes1 (pp_size pp) = Inr ppi"
      and lp: "addPiece_loop w ref ssize nd pend (of_nat (127 * ?q)) (i + 1) (sizes1 @ [pp_size pp])
        (new @ pps @ [?p ppi]) cs = (Added res, rs')"
      using Cons.prems(1) pp o(1,3) n f unfolding addPiece_loop.simps Let_def
      by (auto simp only: o(4) off option.case prod.case if_False not_less [symmetric] split: sum.splits prod.splits)
    have q': "128 * ?q = round_up (128 * q) (2 ^ k) + 2 ^ k" using o(2) unit_power [OF k(1)] by simp
    then have le: "128 * ?q \<le> 2 ^ K" using f by simp
    obtain ext where e: "res = (new @ pps @ [?p ppi]) @ ext" "list_all pow_piece ext"
      "aligned_from (128 * ?q) (piece_sizes ext)" "128 * ?q + sum_list (piece_sizes ext) \<le> 2 ^ K"
      "length (dealIDs_of ext) \<le> getDealPerSectorLimit ssize - (nd + (i + 1))"
      using Cons.IH [OF lp le] Cons.prems(3) by auto
    have pads: "map (\<lambda>p. Size (p_Piece p)) pps = pads" "dealIDs_of pps = []"
      using write_pads_sizes [OF w o(7) wp] no_deals by auto
    have "piece_sizes pps = map unat (map (\<lambda>p. Size (p_Piece p)) pps)" by simp
    with pads(1) have ps: "piece_sizes pps = map unat pads" by (simp only:)
    have "Size ppi = Padded w (pp_size pp)" using ap w unfolding abi_world_def by blast
    with o(8) have sz: "unat (Size ppi) = 2 ^ k" by simp
    have all: "list_all pow_piece (pps @ [?p ppi] @ ext)"
      using pads(1) o(7) e(2) sz k(1) by (auto simp: list_all_iff pow_piece_def)
    have s: "piece_sizes (pps @ [?p ppi] @ ext) = map unat pads @ [2 ^ k] @ piece_sizes ext"
      using ps sz by simp
    have dvd: "2 ^ k dvd 128 * q + 128 * m" using o(2) round_up_dvd [of "2 ^ k" "128 * q"] by simp
    have fin: "128 * q + 128 * m + 2 ^ k = 128 * ?q" using q' o(2) by simp
    have al: "aligned_from (128 * q) (piece_sizes (pps @ [?p ppi] @ ext))"
      unfolding s using o(5,6) dvd e(3) fin by simp
    have sum: "128 * q + sum_list (piece_sizes (pps @ [?p ppi] @ ext)) \<le> 2 ^ K"
      unfolding s using o(5) e(4) fin by (simp only: sum_list_append sum_list.Cons sum_list.Nil)
    have len: "length (dealIDs_of (pps @ [?p ppi] @ ext)) \<le> getDealPerSectorLimit ssize - (nd + i)"
      using pads(2) e(5) n by simp
    from e(1) all al sum len show ?thesis by (intro exI [of _ "pps @ [?p ppi] @ ext"]) simp
  qed
qed

section \<open>Sectors\<close>

definition sector_layout :: "nat \<Rightarrow> Piece list \<Rightarrow> bool" where
  "sector_layout K ps \<longleftrightarrow> list_all pow_piece ps \<and> aligned_from 0 (piece_sizes ps) \<and>
     sum_list (piece_sizes ps) \<le> 2 ^ K"

lemma existing_units:
  assumes "abi_world w" "list_all pow_piece ps"
  shows "\<exists>q. sum_list (piece_sizes ps) = 128 * q \<and>
    sum_list (map (\<lambda>p. Unpadded w (Size (p_Piece p))) ps) = of_nat (127 * q)"
  using assms(2)
proof (induction ps)
  case (Cons p ps)
  then obtain q where q: "sum_list (piece_sizes ps) = 128 * q"
    "sum_list (map (\<lambda>p. Unpadded w (Size (p_Piece p))) ps) = of_nat (127 * q)" by auto
  from Cons.prems obtain k where k: "7 \<le> k" "unat (Size (p_Piece p)) = 2 ^ k" by (auto simp: pow_piece_def)
  then have u: "unat (Size (p_Piece p)) = 128 * 2 ^ (k - 7)" using unit_power by simp
  then have "128 * 2 ^ (k - 7) < (2::nat) ^ 64" using unat_lt_64 [of "Size (p_Piece p)"] by simp
  from Unpadded_units [OF assms(1) this] word_of_unat [OF u]
  have "Unpadded w (Size (p_Piece p)) = of_nat (127 * 2 ^ (k - 7))" by metis
  with q u show ?case by (intro exI [of _ "2 ^ (k - 7) + q"]) (simp add: algebra_simps)
qed simp

lemma sector_layoutE:
  assumes "sector_layout K (Pieces sector)" "abi_world w"
  obtains q where "sum_list (piece_sizes (Pieces sector)) = 128 * q" "128 * q \<le> 2 ^ K"
    "sum_list (existingPieceSizes (Unpadded w) sector) = of_nat (127 * q)"
  using existing_units [OF assms(2), of "Pieces sector"] assms(1)
  by (auto simp: sector_layout_def existingPieceSizes_def)

lemma space_left:
  assumes "abi_world w" "unat ssize = 2 ^ K" "7 \<le> K" "K \<le> 61" "128 * q \<le> 2 ^ K"
  shows "Unpadded w ssize - of_nat (127 * q) = of_nat (127 * (2 ^ (K - 7) - q))"
    and "of_nat (127 * q) \<le> Unpadded w ssize" and "q \<le> 2 ^ (K - 7)" and "128 * (2 ^ (K - 7) :: nat) < 2 ^ 64"
proof -
  let ?Q = "2 ^ (K - 7) :: nat"
  have Q: "(2::nat) ^ K = 128 * ?Q" by (rule unit_power [OF assms(3)])
  have "(2::nat) ^ K \<le> 2 ^ 61" using assms(4) by (intro power_increasing) auto
  then show b: "128 * ?Q < 2 ^ 64" using Q by simp
  show q: "q \<le> ?Q" using assms(5) Q by simp
  have "ssize = of_nat (128 * ?Q)" using word_of_unat [OF assms(2)] Q by simp
  with Unpadded_units [OF assms(1) b] have U: "Unpadded w ssize = of_nat (127 * ?Q)" by metis
  have le: "127 * q \<le> 127 * ?Q" using q by simp
  show "Unpadded w ssize - of_nat (127 * q) = of_nat (127 * (?Q - q))"
    unfolding U diff_mult_distrib2 using le by (rule of_nat_diff [symmetric])
  have "127 * ?Q < 2 ^ 64" "127 * q < 2 ^ 64" using b le by linarith+
  then show "of_nat (127 * q) \<le> Unpadded w ssize"
    unfolding U word_le_nat_alt using le by (simp only: unat_of_nat_64)
qed

definition deal_sizes_ok :: "nat \<Rightarrow> input_state \<Rightarrow> bool" where
  "deal_sizes_ok K m \<longleftrightarrow> (\<forall>c pp. pendingPieces m c = Some pp \<longrightarrow>
     (\<exists>k\<ge>7. k \<le> K \<and> pp_size pp = of_nat (127 * 2 ^ (k - 7))))"

section \<open>Properties\<close>

text \<open>
  C7. \<open>handleAddPiece\<close> keeps the layout of a sector: when the pieces a sector has are powers of
  two, aligned and within the sector, they still are together with the pieces it reports as added,
  and the number of deals stays within the limit of the sector size.
\<close>

theorem handleAddPiece_layout:
  assumes "abi_world w" "SectorSize w (SectorType sector) = Inr ssize" "unat ssize = 2 ^ K" "K \<le> 61"
    and "sector_layout K (Pieces sector)" "deal_sizes_ok K m"
    and "length (dealIDs sector) \<le> getDealPerSectorLimit ssize"
    and "handleAddPiece w a m sector = (Sent (SectorPieceAdded new), m', rs)"
  shows "sector_layout K (Pieces sector @ new) \<and>
    length (dealIDs_of (Pieces sector @ new)) \<le> getDealPerSectorLimit ssize"
proof -
  obtain ref where ref: "minerSector w a (SectorType sector) (SectorNumber sector) = Some ref"
    using assms(2,8) by (auto simp: handleAddPiece_def split: option.splits)
  show ?thesis
  proof (cases "assignedPieces m (fst ref)")
    case None
    then have "new = []" using assms(2,8) ref by (simp add: handleAddPiece_def)
    with assms(5,7) show ?thesis by (simp add: dealIDs_def)
  next
    case (Some cs)
    obtain q where q: "sum_list (piece_sizes (Pieces sector)) = 128 * q" "128 * q \<le> 2 ^ K"
      "sum_list (existingPieceSizes (Unpadded w) sector) = of_nat (127 * q)"
      by (rule sector_layoutE [OF assms(5,1)])
    have "\<exists>rs. addPiece_loop w ref ssize (length (dealIDs sector)) (pendingPieces m) (of_nat (127 * q)) 0
        (existingPieceSizes (Unpadded w) sector) [] cs = (Added new, rs)"
      using assms(2,8) ref Some q(3) by (auto simp: handleAddPiece_def Let_def split: prod.splits add_out.splits)
    then obtain rs' where "addPiece_loop w ref ssize (length (dealIDs sector)) (pendingPieces m) (of_nat (127 * q)) 0
        (existingPieceSizes (Unpadded w) sector) [] cs = (Added new, rs')" ..
    from addPiece_loop_layout [OF assms(1,3,4) this q(2)] assms(6)
    have "list_all pow_piece new" "aligned_from (128 * q) (piece_sizes new)"
      "128 * q + sum_list (piece_sizes new) \<le> 2 ^ K"
      "length (dealIDs_of new) \<le> getDealPerSectorLimit ssize - length (dealIDs sector)"
      by (auto simp: deal_sizes_ok_def)
    with q(1) assms(5,7) show ?thesis by (simp add: sector_layout_def dealIDs_def)
  qed
qed

text \<open>
  C11. A deal that fits into the space an open sector has left is written when the sector runs
  \<open>handleAddPiece\<close> (unless the sealer fails): the padding in front of it never makes it too large.
  The caller gets the unpadded offset of the piece, whose padded position is a multiple of its size.
\<close>

theorem matched_piece_written:
  assumes "abi_world w" "SectorSize w (SectorType sector) = Inr ssize" "unat ssize = 2 ^ K" "K \<le> 61"
    and "sector_layout K (Pieces sector)" "minerSector w a (SectorType sector) (SectorNumber sector) = Some ref"
    and "assignedPieces m (fst ref) = Some [c]" "pendingPieces m c = Some pp"
    and "7 \<le> k" "k \<le> K" "pp_size pp = of_nat (127 * 2 ^ (k - 7))"
    and "pp_size pp \<le> Unpadded w ssize - sum_list (existingPieceSizes (Unpadded w) sector)"
    and "length (dealIDs sector) < getDealPerSectorLimit ssize"
    and "\<forall>ctx sizes s. \<exists>ppi. SealerAddPiece w ctx ref sizes s = Inr ppi"
  shows "\<exists>pads ppi pos. handleAddPiece w a m sector =
      (Sent (SectorPieceAdded (pads @ [\<lparr>p_Piece = ppi, p_DealInfo = Some (pp_deal pp)\<rparr>])),
       m\<lparr>assignedPieces := (assignedPieces m)(fst ref := None)\<rparr>,
       [(c, snd (fst ref), of_nat (127 * pos), None)]) \<and> 2 ^ k dvd 128 * pos \<and> 128 * pos + 2 ^ k \<le> 2 ^ K"
proof -
  obtain q where q: "sum_list (piece_sizes (Pieces sector)) = 128 * q" "128 * q \<le> 2 ^ K"
    "sum_list (existingPieceSizes (Unpadded w) sector) = of_nat (127 * q)"
    by (rule sector_layoutE [OF assms(5,1)])
  have K7: "7 \<le> K" using assms(9,10) by simp
  let ?Q = "2 ^ (K - 7) :: nat"
  have Q: "(2::nat) ^ K = 128 * ?Q" by (rule unit_power [OF K7])
  note left = space_left [OF assms(1,3) K7 assms(4) q(2)]
  have "127 * (?Q - q) < 2 ^ 64" "127 * 2 ^ (k - 7) < (2::nat) ^ 64"
    using left(4) unit_power [OF assms(9)] power_increasing [OF assms(10), of "2::nat"] Q by linarith+
  with assms(11,12) left(1) q(3) have "127 * 2 ^ (k - 7) \<le> 127 * (?Q - q)"
    by (simp only: word_le_nat_alt unat_of_nat_64)
  then have "2 ^ k \<le> 2 ^ K - 128 * q" unfolding unit_power [OF assms(9)] Q by linarith
  then have room: "\<not> round_up (128 * q) (2 ^ k) + 2 ^ k > 2 ^ K"
    using room_for_padding q(2) by (simp add: not_less)
  obtain pads n where o: "GetRequiredPadding (Padded w (of_nat (127 * q))) (Padded w (pp_size pp)) = Some (pads, of_nat (128 * n))"
    "128 * (q + n) = round_up (128 * q) (2 ^ k)"
    "Padded w (of_nat (127 * q)) + of_nat (128 * n) + Padded w (pp_size pp) > ssize \<longleftrightarrow>
      round_up (128 * q) (2 ^ k) + 2 ^ k > 2 ^ K"
    "of_nat (127 * q) + Unpadded w (of_nat (128 * n)) = (of_nat (127 * (q + n)) :: u64)"
    by (rule one_piece [OF assms(1,3,4) q(2) assms(9,10,11)])
  obtain sizes1 pps where wp: "write_pads w ref (existingPieceSizes (Unpadded w) sector) pads = Inr (sizes1, pps)"
    using write_pads_succeeds [OF assms(14)] by metis
  obtain ppi where ap: "SealerAddPiece w (Some DealSectorPriority) ref sizes1 (pp_size pp) = Inr ppi"
    using assms(14) by blast
  have "\<not> length (dealIDs sector) + (0 + 1) > getDealPerSectorLimit ssize" using assms(13) by simp
  with o(1,3) room wp ap assms(8)
  have lp: "addPiece_loop w ref ssize (length (dealIDs sector)) (pendingPieces m) (of_nat (127 * q)) 0
      (existingPieceSizes (Unpadded w) sector) [] [c] =
    (Added (pps @ [\<lparr>p_Piece = ppi, p_DealInfo = Some (pp_deal pp)\<rparr>]), [(c, snd (fst ref), of_nat (127 * (q + n)), None)])"
    using o(4) by (simp add: Let_def del: of_nat_mult of_nat_add)
  have "2 ^ k dvd 128 * (q + n)" "128 * (q + n) + 2 ^ k \<le> 2 ^ K"
    using o(2) room round_up_dvd [of "2 ^ k" "128 * q"] by (simp_all only: not_less zero_less_power zero_less_numeral)
  moreover have "handleAddPiece w a m sector =
      (Sent (SectorPieceAdded (pps @ [\<lparr>p_Piece = ppi, p_DealInfo = Some (pp_deal pp)\<rparr>])),
       m\<lparr>assignedPieces := (assignedPieces m)(fst ref := None)\<rparr>,
       [(c, snd (fst ref), of_nat (127 * (q + n)), None)])"
    using assms(2,6,7) lp q(3) by (simp add: handleAddPiece_def Let_def del: addPiece_loop.simps of_nat_mult of_nat_add)
  ultimately show ?thesis by blast
qed

lemma padSector_sizes:
  assumes "abi_world w"
  shows "case padSector w ctx ref existing sizes of
      Inl e \<Rightarrow> \<exists>ctx sizes s e. SealerAddPiece w ctx ref sizes s = Inl e
    | Inr out \<Rightarrow> map Size out = map (Padded w) sizes"
proof -
  have "case padSector_loop w ctx ref existing sizes of
      Inl e \<Rightarrow> \<exists>ctx sizes s e. SealerAddPiece w ctx ref sizes s = Inl e
    | Inr out \<Rightarrow> map Size out = map (Padded w) sizes"
  proof (induction sizes arbitrary: existing)
    case (Cons sz sizes)
    have "SealerAddPiece w ctx ref existing sz = Inr ppi \<Longrightarrow> Size ppi = Padded w sz" for ppi
      using assms unfolding abi_world_def by blast
    with Cons [of "existing @ [sz]"] show ?case by (auto split: sum.splits)
  qed simp
  then show ?thesis by (simp add: padSector_def)
qed

lemma fillers_units:
  assumes "abi_world w" "128 * r < 2 ^ 64"
  shows "map (\<lambda>s. unat (Padded w s)) (fillersFromRem (Unpadded w) (of_nat (127 * r))) =
    map (\<lambda>i. 2 ^ i) (set_bits (of_nat (128 * r)))"
proof -
  have "of_nat (127 * r) + of_nat (127 * r) div 127 = (of_nat (128 * r) :: u64)"
    using Padded_units [OF assms] assms(1) by (simp only: abi_world_def)
  then have f: "fillersFromRem (Unpadded w) (of_nat (127 * r)) =
      map (\<lambda>i. Unpadded w (push_bit i 1)) (set_bits (of_nat (128 * r)))"
    by (simp only: fillersFromRem_def Let_def fillers_loop_eq OnesCount64_def)
  have "unat (Padded w (Unpadded w (push_bit i 1))) = 2 ^ i" if "i \<in> set (set_bits (of_nat (128 * r)))" for i
  proof -
    have i: "7 \<le> i" "i < 64"
      using set_bits_ge7 [OF _ that] unat_of_nat_64 [OF assms(2)] that by (auto simp del: of_nat_mult)
    have u: "unat (push_bit i 1 :: u64) = 128 * 2 ^ (i - 7)"
      using unat_push_bit_1 [OF i(2)] unit_power [OF i(1)] by simp
    then have b: "128 * 2 ^ (i - 7) < (2::nat) ^ 64" using unat_lt_64 [of "push_bit i 1"] by simp
    have "Padded w (Unpadded w (push_bit i 1)) = push_bit i 1"
      using Padded_units [OF assms(1) b] Unpadded_units [OF assms(1) b] word_of_unat [OF u] by metis
    then show ?thesis using unat_push_bit_1 [OF i(2)] by simp
  qed
  then show ?thesis unfolding f by (simp del: of_nat_mult push_bit_of_1)
qed

text \<open>
  C10. \<open>handlePacking\<close> fills a sector exactly: the pieces the sector has and the fillers it reports
  take the whole sector, each at a multiple of its size. It only fails when the sealer does.
\<close>

theorem handlePacking_fills:
  assumes "abi_world w" "SectorSize w (SectorType sector) = Inr ssize" "unat ssize = 2 ^ K" "7 \<le> K" "K \<le> 61"
    and "sector_layout K (Pieces sector)" "minerSectorID w a (SectorNumber sector) = Some sid"
  shows "case fst (handlePacking w a m sector) of
      Sent (SectorPacked fillers) \<Rightarrow>
        aligned_from 0 (piece_sizes (Pieces sector) @ map (\<lambda>p. unat (Size p)) fillers) \<and>
        sum_list (piece_sizes (Pieces sector) @ map (\<lambda>p. unat (Size p)) fillers) = unat ssize
    | Failed _ \<Rightarrow> \<exists>ctx sizes s e. SealerAddPiece w ctx (sid, SectorType sector) sizes s = Inl e
    | _ \<Rightarrow> False"
proof -
  obtain q where q: "sum_list (piece_sizes (Pieces sector)) = 128 * q" "128 * q \<le> 2 ^ K"
    "sum_list (existingPieceSizes (Unpadded w) sector) = of_nat (127 * q)"
    by (rule sector_layoutE [OF assms(6,1)])
  let ?r = "2 ^ (K - 7) - q" and ?ref = "(sid, SectorType sector)"
  let ?fill = "fillersFromRem (Unpadded w) (of_nat (127 * ?r))"
  let ?pad = "padSector w (sealingCtx sector None) ?ref (existingPieceSizes (Unpadded w) sector) ?fill"
  note left = space_left [OF assms(1,3,4,5) q(2)]
  have h: "fst (handlePacking w a m sector) =
      (case ?pad of Inl e \<Rightarrow> Failed (Errorf ''filling up the sector'' e) | Inr fs \<Rightarrow> Sent (SectorPacked fs))"
    using assms(2,7) left(1,2) q(3) unfolding handlePacking_def
    by (simp add: Let_def not_less [symmetric] del: of_nat_mult split: prod.splits sum.splits)
  show ?thesis
  proof (cases ?pad)
    case (Inl e)
    then show ?thesis using h padSector_sizes [OF assms(1), where ctx = "sealingCtx sector None" and ref = ?ref and
        existing = "existingPieceSizes (Unpadded w) sector" and sizes = ?fill] by simp
  next
    case (Inr fs)
    have b: "128 * ?r < 2 ^ 64" using left(4) by linarith
    have "map Size fs = map (Padded w) ?fill"
      using Inr padSector_sizes [OF assms(1), where ctx = "sealingCtx sector None" and ref = ?ref and
        existing = "existingPieceSizes (Unpadded w) sector" and sizes = ?fill] by simp
    then have "map unat (map Size fs) = map unat (map (Padded w) ?fill)" by (simp only:)
    then have "map (\<lambda>p. unat (Size p)) fs = map (\<lambda>s. unat (Padded w s)) ?fill"
      by (simp only: map_map comp_def)
    then have s: "map (\<lambda>p. unat (Size p)) fs = map (\<lambda>i. 2 ^ i) (set_bits (of_nat (128 * ?r)))"
      using fillers_units [OF assms(1) b] by simp
    have sum: "128 * q + (\<Sum>i\<leftarrow>set_bits (of_nat (128 * ?r)). 2 ^ i) = 2 ^ K"
      unfolding sum_set_bits unat_of_nat_64 [OF b] using left(3) unit_power [OF assms(4)] by simp
    have "i \<le> K" if "i \<in> set (set_bits (of_nat (128 * ?r)))" for i
    proof -
      have "2 ^ i \<le> (\<Sum>i\<leftarrow>set_bits (of_nat (128 * ?r)). (2::nat) ^ i)"
        using that by (intro member_le_sum_list) auto
      then have "(2::nat) ^ i \<le> 2 ^ K" using sum by linarith
      then show ?thesis by simp
    qed
    then have "aligned_from (128 * q) (map (\<lambda>i. 2 ^ i) (set_bits (of_nat (128 * ?r))))"
      using sum by (intro aligned_ascending [of _ K]) (auto simp: sorted_wrt_filter simp del: of_nat_mult)
    then show ?thesis using h Inr s sum q(1) assms(3,6) by (simp add: sector_layout_def del: of_nat_mult)
  qed
qed

section \<open>Witnesses\<close>

text \<open>A 2 KiB sector that holds one piece of 128 bytes; the deal of 1024 bytes is assigned to it.\<close>

definition sample_holding :: SectorInfo where
  "sample_holding = sample_waiting\<lparr>Pieces := [\<lparr>p_Piece = \<lparr>Size = 128, PieceCID = ''first''\<rparr>, p_DealInfo = None\<rparr>]\<rparr>"

lemma sample_abi_world: "abi_world sample_world"
  by (simp add: abi_world_def)

lemma sample_layout: "sector_layout 11 (Pieces sample_holding)"
  by (auto simp: sector_layout_def sample_holding_def pow_piece_def intro: exI [of _ 7])

lemma sample_deal_sizes: "deal_sizes_ok 11 sample_assigned"
  by (auto simp: deal_sizes_ok_def sample_assigned_def intro: exI [of _ 10])

lemma sample_minerSector: "minerSector sample_world ''miner'' t n = Some ((1000, n), t)"
  by (simp add: minerSector_def minerSectorID_def)

lemma sample_writes:
  "handleAddPiece sample_world ''miner'' sample_assigned sample_holding =
    (Sent (SectorPieceAdded (map (\<lambda>s. \<lparr>p_Piece = \<lparr>Size = s, PieceCID = ''added''\<rparr>, p_DealInfo = None\<rparr>) [128, 256, 512] @
       [\<lparr>p_Piece = \<lparr>Size = 1024, PieceCID = ''added''\<rparr>, p_DealInfo = Some sample_deal\<rparr>])),
     sample_assigned\<lparr>assignedPieces := Map.empty\<rparr>, [(''publish'', 1, 1016, None)])"
proof -
  have "GetRequiredPadding 128 1024 = Some ([128, 256, 512], 896)" by code_simp
  then show ?thesis
    by (simp add: handleAddPiece_def sample_minerSector sample_assigned_def sample_holding_def sample_waiting_def
        zero_SectorInfo_def existingPieceSizes_def dealIDs_def getDealPerSectorLimit_def Let_def)
qed

theorem handleAddPiece_layout_witness:
  "sector_layout 11 (Pieces sample_holding @
     map (\<lambda>s. \<lparr>p_Piece = \<lparr>Size = s, PieceCID = ''added''\<rparr>, p_DealInfo = None\<rparr>) [128, 256, 512] @
     [\<lparr>p_Piece = \<lparr>Size = 1024, PieceCID = ''added''\<rparr>, p_DealInfo = Some sample_deal\<rparr>])"
  using handleAddPiece_layout [OF sample_abi_world _ _ _ sample_layout sample_deal_sizes _ sample_writes, of 2048]
  by (simp add: sample_holding_def sample_waiting_def zero_SectorInfo_def dealIDs_def)

theorem matched_piece_written_witness:
  "\<exists>new m' pos. handleAddPiece sample_world ''miner'' sample_assigned sample_holding =
     (Sent (SectorPieceAdded new), m', [(''publish'', 1, of_nat (127 * pos), None)]) \<and>
   2 ^ 10 dvd 128 * pos \<and> 128 * pos + 2 ^ 10 \<le> 2 ^ 11"
proof -
  have f: "SectorType sample_holding = 5" "SectorNumber sample_holding = 1" "dealIDs sample_holding = []"
    "existingPieceSizes (Unpadded sample_world) sample_holding = [127]"
    by (simp_all add: sample_holding_def sample_waiting_def zero_SectorInfo_def dealIDs_def existingPieceSizes_def)
  show ?thesis
    using matched_piece_written [OF sample_abi_world, of sample_holding 2048 11 "''miner''" "((1000, 1), 5)"
        sample_assigned "''publish''" "\<lparr>pp_size = 1016, pp_deal = sample_deal, pp_assigned = True\<rparr>" 10]
      sample_layout
    by (auto simp: f sample_minerSector sample_assigned_def getDealPerSectorLimit_def simp del: of_nat_mult)
qed

theorem handlePacking_fills_witness:
  "case fst (handlePacking sample_world ''miner'' empty_input sample_holding) of
     Sent (SectorPacked fillers) \<Rightarrow> 128 + (\<Sum>p\<leftarrow>fillers. unat (Size p)) = 2048
   | _ \<Rightarrow> False"
proof -
  have f: "SectorType sample_holding = 5" "piece_sizes (Pieces sample_holding) = [128]"
    by (simp_all add: sample_holding_def sample_waiting_def zero_SectorInfo_def)
  have "minerSectorID sample_world ''miner'' (SectorNumber sample_holding) = Some (1000, SectorNumber sample_holding)"
    by (simp add: minerSectorID_def)
  from handlePacking_fills [OF sample_abi_world _ _ _ _ sample_layout this, of 2048 empty_input] f show ?thesis
    by (simp split: hres.splits event.splits)
qed

end
