(* ===== verification/Chain_Gas.thy ===== *)
theory Chain_Gas
  imports Prelude
begin

text \<open>
  The price of a message: \<^verbatim>\<open>chain/vm/burn.go\<close> (what a sender pays for used and over-estimated gas) and
  \<^verbatim>\<open>chain/store/basefee.go\<close> (how the base fee follows the gas limits of a tipset), with the constants
  of \<^verbatim>\<open>build/params_shared_vals.go\<close>. Token amounts are unbounded integers, amounts of gas are \<open>int64\<close>:
  their arithmetic wraps.
\<close>

section \<open>\<open>burn.go\<close>\<close>

text \<open>\<^verbatim>\<open>big.Int.Div\<close> is Euclidean division; \<^verbatim>\<open>Int64\<close> keeps the low 64 bits.\<close>

definition big_div :: "int \<Rightarrow> int \<Rightarrow> int" where
  "big_div a b = sgn b * (a div \<bar>b\<bar>)"

definition gasOveruseNum :: int where "gasOveruseNum = 11"
definition gasOveruseDenom :: int where "gasOveruseDenom = 10"

record GasOutputs =
  BaseFeeBurn :: int
  OverEstimationBurn :: int
  MinerPenalty :: int
  MinerTip :: int
  Refund :: int
  GasRefund :: int
  GasBurned :: int

definition ZeroGasOutputs :: GasOutputs where
  "ZeroGasOutputs = \<lparr>BaseFeeBurn = 0, OverEstimationBurn = 0, MinerPenalty = 0, MinerTip = 0, Refund = 0,
     GasRefund = 0, GasBurned = 0\<rparr>"

definition ComputeGasOverestimationBurn :: "int \<Rightarrow> int \<Rightarrow> int \<times> int" where
  "ComputeGasOverestimationBurn gasUsed gasLimit =
    (if gasUsed = 0 then (0, gasLimit)
     else
       let over = wrap64 (gasLimit - go_div (wrap64 (gasOveruseNum * gasUsed)) gasOveruseDenom) in
       if over < 0 then (wrap64 (gasLimit - gasUsed), 0)
       else
         let over = (if over > gasUsed then gasUsed else over);
             gasToBurn = big_div (wrap64 (gasLimit - gasUsed) * over) gasUsed
         in (wrap64 (wrap64 (gasLimit - gasUsed) - wrap64 gasToBurn), wrap64 gasToBurn))"

definition ComputeGasOutputs :: "int \<Rightarrow> int \<Rightarrow> int \<Rightarrow> int \<Rightarrow> int \<Rightarrow> bool \<Rightarrow> GasOutputs" where
  "ComputeGasOutputs gasUsed gasLimit baseFee feeCap gasPremium chargeNetworkFee =
    (let out = ZeroGasOutputs;
         baseFeeToPay = (if baseFee > feeCap then feeCap else baseFee);
         out = (if baseFee > feeCap then out\<lparr>MinerPenalty := (baseFee - feeCap) * gasUsed\<rparr> else out);
         out = (if chargeNetworkFee then out\<lparr>BaseFeeBurn := baseFeeToPay * gasUsed\<rparr> else out);
         minerTip = (if baseFeeToPay + gasPremium > feeCap then feeCap - baseFeeToPay else gasPremium);
         out = out\<lparr>MinerTip := minerTip * gasLimit\<rparr>;
         (gasRefund, gasBurned) = ComputeGasOverestimationBurn gasUsed gasLimit;
         out = out\<lparr>GasRefund := gasRefund, GasBurned := gasBurned\<rparr>;
         out = (if gasBurned \<noteq> 0 then
                  out\<lparr>OverEstimationBurn := baseFeeToPay * gasBurned,
                      MinerPenalty := MinerPenalty out + (baseFee - baseFeeToPay) * gasBurned\<rparr>
                else out)
     in out\<lparr>Refund := gasLimit * feeCap - BaseFeeBurn out - MinerTip out - OverEstimationBurn out\<rparr>)"

section \<open>\<open>basefee.go\<close>\<close>

definition BlockGasLimit :: int where "BlockGasLimit = 100000000000"
definition BlockGasTarget :: int where "BlockGasTarget = BlockGasLimit div 20"
definition BaseFeeMaxChangeDenom :: int where "BaseFeeMaxChangeDenom = 8"
definition MinimumBaseFee :: int where "MinimumBaseFee = 100"

text \<open>The division by the number of blocks panics on an empty tipset.\<close>

definition ComputeNextBaseFee :: "int \<Rightarrow> int \<Rightarrow> int \<Rightarrow> int option" where
  "ComputeNextBaseFee baseFee gasLimitUsed noOfBlocks =
    (if noOfBlocks = 0 then None
     else
       let delta = wrap64 (wrap64 (go_div gasLimitUsed noOfBlocks) - BlockGasTarget);
           delta = (if delta > BlockGasTarget then BlockGasTarget else delta);
           delta = (if delta < - BlockGasTarget then - BlockGasTarget else delta);
           change = big_div (baseFee * delta) BlockGasTarget;
           change = big_div change BaseFeeMaxChangeDenom;
           nextBaseFee = baseFee + change
       in Some (if nextBaseFee < MinimumBaseFee then MinimumBaseFee else nextBaseFee))"

text \<open>
  \<open>ComputeBaseFee\<close>: a message is its CID and gas limit; \<open>msgs\<close> is \<open>ChainStore.MessagesForBlock\<close>
  with the BLS and the secp messages of a block. The limits of the messages seen first are added.
\<close>

fun unique_limits :: "cid set \<Rightarrow> int \<Rightarrow> (cid \<times> int) list \<Rightarrow> cid set \<times> int" where
  "unique_limits seen tot [] = (seen, tot)"
| "unique_limits seen tot ((c, limit) # ms) =
    (if c \<in> seen then unique_limits seen tot ms
     else unique_limits (insert c seen) (wrap64 (tot + limit)) ms)"

fun total_limit :: "('b \<Rightarrow> gerr + (cid \<times> int) list \<times> (cid \<times> int) list) \<Rightarrow> cid set \<Rightarrow> int \<Rightarrow> 'b list \<Rightarrow> gerr + int" where
  "total_limit msgs seen tot [] = Inr tot"
| "total_limit msgs seen tot (b # bs) =
    (case msgs b of
       Inl e \<Rightarrow> Inl (Errorf ''error getting messages for'' e)
     | Inr (msg1, msg2) \<Rightarrow>
         (case unique_limits seen tot msg1 of
            (seen1, total1) \<Rightarrow>
              (case unique_limits seen1 total1 msg2 of (seen2, total2) \<Rightarrow> total_limit msgs seen2 total2 bs)))"

definition ComputeBaseFee ::
  "('b \<Rightarrow> gerr + (cid \<times> int) list \<times> (cid \<times> int) list) \<Rightarrow> ('b \<Rightarrow> int) \<Rightarrow> 'b list \<Rightarrow> (gerr + int) option" where
  "ComputeBaseFee msgs parentBaseFee blocks =
    (case total_limit msgs {} 0 blocks of
       Inl e \<Rightarrow> Some (Inl e)
     | Inr totalLimit \<Rightarrow>
         (case blocks of
            [] \<Rightarrow> None
          | b # _ \<Rightarrow> map_option Inr (ComputeNextBaseFee (parentBaseFee b) totalLimit (int (length blocks)))))"

section \<open>Lemmas\<close>

text \<open>The CIDs of all messages of a tipset.\<close>

definition block_cids :: "('b \<Rightarrow> gerr + (cid \<times> int) list \<times> (cid \<times> int) list) \<Rightarrow> 'b list \<Rightarrow> cid set" where
  "block_cids msgs bs =
    (\<Union>b\<in>set bs. case msgs b of Inl _ \<Rightarrow> {} | Inr (m1, m2) \<Rightarrow> fst ` set m1 \<union> fst ` set m2)"

lemma big_div_pos: "0 < b \<Longrightarrow> big_div a b = a div b"
  by (simp add: big_div_def)

lemma div_between:
  fixes a b :: int
  assumes "0 < b" "- b \<le> d" "d \<le> b" "0 \<le> a"
  shows "- a \<le> a * d div b" "a * d div b \<le> a" "0 \<le> d \<Longrightarrow> 0 \<le> a * d div b" "d \<le> 0 \<Longrightarrow> a * d div b \<le> 0"
proof -
  have "a * (- b) \<le> a * d" "a * d \<le> a * b" using assms by (intro mult_left_mono; simp)+
  then have "(- a) * b div b \<le> a * d div b" "a * d div b \<le> a * b div b"
    using assms(1) by (intro zdiv_mono1; simp)+
  moreover have "(- a) * b div b = - a" using assms(1) by (intro nonzero_mult_div_cancel_right) simp
  ultimately show "- a \<le> a * d div b" "a * d div b \<le> a" using assms(1) by simp_all
  show "0 \<le> d \<Longrightarrow> 0 \<le> a * d div b" using assms by (simp add: pos_imp_zdiv_nonneg_iff)
  show "d \<le> 0 \<Longrightarrow> a * d div b \<le> 0"
    using assms by (metis div_nonneg_neg_le0 div_nonpos_pos_le0 mult_nonneg_nonpos)
qed

lemma overestimation_cases:
  assumes "0 \<le> u" "u \<le> l" "l < 2 ^ 59"
  shows "ComputeGasOverestimationBurn u l =
    (if u = 0 then (0, l)
     else let over = l - 11 * u div 10; burn = (if over < 0 then 0 else (l - u) * min over u div u)
          in (l - u - burn, burn))"
proof (cases "u = 0")
  case False
  then have u: "0 < u" using assms(1) by simp
  define over where "over = l - 11 * u div 10"
  have r: "in_int64 (11 * u)" "in_int64 (l - u)" "in_int64 over"
    using assms unfolding over_def in_int64_def by simp_all linarith+
  define burn where "burn = (l - u) * min over u div u"
  have b: "0 \<le> over \<Longrightarrow> 0 \<le> burn" "0 \<le> over \<Longrightarrow> burn \<le> l - u"
    using div_between [of u "min over u" "l - u"] u assms(2) unfolding burn_def by auto
  then have "0 \<le> over \<Longrightarrow> in_int64 burn \<and> in_int64 (l - u - burn)"
    using assms unfolding in_int64_def by auto
  moreover have "(if over > u then u else over) = min over u" by simp
  ultimately show ?thesis
    using u r assms(1) by (simp add: ComputeGasOverestimationBurn_def gasOveruseNum_def gasOveruseDenom_def go_div_nonneg
        big_div_pos Let_def flip: over_def burn_def)
qed (simp add: ComputeGasOverestimationBurn_def)

lemma overestimation_bounds:
  assumes "0 \<le> u" "u \<le> l" "l < 2 ^ 59" "ComputeGasOverestimationBurn u l = (refund, burn)"
  shows "0 \<le> refund \<and> 0 \<le> burn \<and> refund + burn = l - u"
proof (cases "u = 0")
  case False
  then have u: "0 < u" using assms(1) by simp
  let ?over = "l - 11 * u div 10"
  have "0 \<le> ?over \<Longrightarrow> 0 \<le> (l - u) * min ?over u div u" "0 \<le> ?over \<Longrightarrow> (l - u) * min ?over u div u \<le> l - u"
    using div_between [of u "min ?over u" "l - u"] u assms(2) by auto
  with assms u show ?thesis by (auto simp: overestimation_cases Let_def split: if_splits)
qed (use assms in \<open>simp add: overestimation_cases\<close>)

lemma unique_limits_sum:
  assumes "unique_limits seen tot ms = (seen', tot')" "\<forall>(c, l) \<in> set ms. l = L c" "\<forall>c. 0 \<le> L c"
    and "finite seen" "tot = (\<Sum>c\<in>seen. L c)" "(\<Sum>c\<in>seen \<union> fst ` set ms. L c) < 2 ^ 63"
  shows "seen' = seen \<union> fst ` set ms \<and> tot' = (\<Sum>c\<in>seen'. L c)"
  using assms(1,2,4,5,6)
proof (induction ms arbitrary: seen tot)
  case (Cons m ms)
  obtain c l where m: "m = (c, l)" by fastforce
  show ?case
  proof (cases "c \<in> seen")
    case True
    then have "insert c seen = seen" by auto
    with True Cons m show ?thesis by (auto simp: insert_absorb)
  next
    case False
    have l: "l = L c" using Cons.prems(2) m by simp
    have "(\<Sum>c\<in>insert c seen. L c) \<le> (\<Sum>c\<in>seen \<union> fst ` set (m # ms). L c)"
      using Cons.prems(3) assms(3) m by (intro sum_mono2) auto
    moreover have "0 \<le> L c" "0 \<le> (\<Sum>c\<in>seen. L c)" using assms(3) by (simp_all add: sum_nonneg)
    ultimately have "in_int64 (tot + l)"
      using Cons.prems(3,4,5) False l unfolding in_int64_def by simp
    moreover have "tot + l = (\<Sum>c\<in>insert c seen. L c)" using Cons.prems(3,4) False l by simp
    moreover have "insert c seen \<union> fst ` set ms = seen \<union> fst ` set (m # ms)" using m by auto
    ultimately show ?thesis
      using Cons.IH [of "insert c seen" "tot + l"] Cons.prems False m by simp
  qed
qed simp

lemma total_limit_sum:
  assumes "\<forall>b \<in> set bs. \<exists>m1 m2. msgs b = Inr (m1, m2) \<and> (\<forall>(c, l) \<in> set m1 \<union> set m2. l = L c)"
    and "\<forall>c. 0 \<le> L c" "finite seen" "tot = (\<Sum>c\<in>seen. L c)"
    and "(\<Sum>c\<in>seen \<union> block_cids msgs bs. L c) < 2 ^ 63"
  shows "total_limit msgs seen tot bs = Inr (\<Sum>c\<in>seen \<union> block_cids msgs bs. L c)"
  using assms(1,3,4,5)
proof (induction bs arbitrary: seen tot)
  case (Cons b bs)
  then obtain m1 m2 where m: "msgs b = Inr (m1, m2)" "\<forall>(c, l) \<in> set m1. l = L c" "\<forall>(c, l) \<in> set m2. l = L c"
    by fastforce
  let ?s1 = "seen \<union> fst ` set m1" and ?all = "seen \<union> block_cids msgs (b # bs)"
  let ?s2 = "?s1 \<union> fst ` set m2"
  have all: "?s2 \<union> block_cids msgs bs = ?all" using m(1) by (auto simp: block_cids_def)
  have fin: "finite ?s1" "finite ?s2" "finite ?all"
    using Cons.prems(1,2) by (auto simp: block_cids_def split: sum.splits)
  have le: "A \<subseteq> ?all \<Longrightarrow> (\<Sum>c\<in>A. L c) < 2 ^ 63" for A
    using sum_mono2 [of ?all A L] fin(3) assms(2) Cons.prems(4) by fastforce
  have "?s1 \<subseteq> ?all" "?s2 \<subseteq> ?all" using all by blast+
  note b1 = le [OF this(1)] and b2 = le [OF this(2)]
  obtain x1 t1 where u1: "unique_limits seen tot m1 = (x1, t1)" by fastforce
  have e1: "x1 = ?s1" "t1 = (\<Sum>c\<in>?s1. L c)"
    using unique_limits_sum [OF u1 m(2) assms(2) Cons.prems(2,3) b1] by auto
  obtain x2 t2 where u2: "unique_limits ?s1 t1 m2 = (x2, t2)" by fastforce
  have e2: "x2 = ?s2" "t2 = (\<Sum>c\<in>?s2. L c)"
    using unique_limits_sum [OF u2 m(3) assms(2) fin(1) e1(2) b2] by auto
  show ?case
    using Cons.IH [OF _ fin(2) e2(2)] Cons.prems(1,4) u1 u2 e1(1) e2(1) m(1) unfolding all by simp
qed (simp add: block_cids_def)

section \<open>Properties\<close>

text \<open>
  C26. Over-estimated gas: refund and burn are not negative and are together the unused gas; nothing is
  burned up to a limit of 1.1 times the gas used, everything unused from 2.1 times on, and everything
  when no gas was used. The bound on the limit excludes an overflow of the \<open>int64\<close> computation.
\<close>

theorem overestimation_burn_split:
  assumes "0 \<le> gasUsed" "gasUsed \<le> gasLimit" "gasLimit < 2 ^ 59"
  shows "case ComputeGasOverestimationBurn gasUsed gasLimit of (refund, burn) \<Rightarrow>
    0 \<le> refund \<and> 0 \<le> burn \<and> refund + burn = gasLimit - gasUsed \<and>
    (0 < gasUsed \<and> 10 * gasLimit \<le> 11 * gasUsed \<longrightarrow> burn = 0) \<and>
    (21 * gasUsed \<le> 10 * gasLimit \<longrightarrow> burn = gasLimit - gasUsed)"
proof -
  obtain refund burn where c: "ComputeGasOverestimationBurn gasUsed gasLimit = (refund, burn)" by fastforce
  have "burn = 0" if "0 < gasUsed" "10 * gasLimit \<le> 11 * gasUsed"
  proof -
    have "gasLimit \<le> 11 * gasUsed div 10" using that(2) by linarith
    then show ?thesis using c overestimation_cases [OF assms] that(1) by (auto simp: Let_def split: if_splits)
  qed
  moreover have "burn = gasLimit - gasUsed" if "21 * gasUsed \<le> 10 * gasLimit"
  proof (cases "gasUsed = 0")
    case False
    then have "gasUsed \<le> gasLimit - 11 * gasUsed div 10" using that by linarith
    then show ?thesis using c overestimation_cases [OF assms] assms(1) False by (auto simp: Let_def min_def)
  qed (use c in \<open>simp add: ComputeGasOverestimationBurn_def\<close>)
  ultimately show ?thesis using c overestimation_bounds [OF assms c] by auto
qed

theorem overestimation_burn_split_witness:
  "ComputeGasOverestimationBurn 100 300 = (0, 200) \<and> ComputeGasOverestimationBurn 100 110 = (10, 0)"
proof
  show "ComputeGasOverestimationBurn 100 300 = (0, 200)"
    using overestimation_burn_split [of 100 300] by (auto split: prod.splits)
  show "ComputeGasOverestimationBurn 100 110 = (10, 0)"
    using overestimation_burn_split [of 100 110] by (auto split: prod.splits)
qed

lemma gas_outputs_split:
  assumes "0 \<le> gasUsed" "gasUsed \<le> gasLimit" "gasLimit < 2 ^ 59"
    and "0 \<le> baseFee" "0 \<le> feeCap" "0 \<le> gasPremium"
  shows "let out = ComputeGasOutputs gasUsed gasLimit baseFee feeCap gasPremium charge in
    BaseFeeBurn out + OverEstimationBurn out + MinerTip out + Refund out = gasLimit * feeCap \<and>
    0 \<le> BaseFeeBurn out \<and> 0 \<le> OverEstimationBurn out \<and> 0 \<le> MinerTip out \<and> 0 \<le> Refund out \<and>
    MinerPenalty out = max 0 (baseFee - feeCap) * (gasUsed + GasBurned out)"
proof -
  obtain refund burn where c: "ComputeGasOverestimationBurn gasUsed gasLimit = (refund, burn)" by fastforce
  have b: "0 \<le> burn" "gasUsed + burn \<le> gasLimit" using overestimation_bounds [OF assms(1-3) c] assms(1,2) by auto
  define pay where "pay = min baseFee feeCap"
  define tip where "tip = min gasPremium (feeCap - pay)"
  define out where "out = ComputeGasOutputs gasUsed gasLimit baseFee feeCap gasPremium charge"
  have p: "0 \<le> pay" "pay \<le> feeCap" "(if baseFee > feeCap then feeCap else baseFee) = pay"
    using assms by (auto simp: pay_def)
  have t: "0 \<le> tip" "pay + tip \<le> feeCap" "(if pay + gasPremium > feeCap then feeCap - pay else gasPremium) = tip"
    using assms p by (auto simp: tip_def)
  have o: "BaseFeeBurn out = (if charge then pay * gasUsed else 0)" "OverEstimationBurn out = pay * burn"
    "MinerTip out = tip * gasLimit" "GasBurned out = burn"
    "Refund out = gasLimit * feeCap - BaseFeeBurn out - MinerTip out - OverEstimationBurn out"
    unfolding out_def ComputeGasOutputs_def ZeroGasOutputs_def c Let_def p(3) t(3) by (simp_all split: if_splits)
  have pen: "MinerPenalty out = max 0 (baseFee - feeCap) * (gasUsed + burn)"
    unfolding out_def ComputeGasOutputs_def ZeroGasOutputs_def c Let_def by (simp add: max_def algebra_simps)
  have "pay * gasUsed + pay * burn \<le> pay * gasLimit"
    using p(1) b(2) by (simp flip: distrib_left add: mult_left_mono)
  moreover have "(pay + tip) * gasLimit \<le> feeCap * gasLimit"
    using t(2) assms(1,2) by (intro mult_right_mono) auto
  moreover have "0 \<le> pay * gasUsed" "0 \<le> pay * burn" "0 \<le> tip * gasLimit" using p(1) t(1) b(1) assms(1,2) by simp_all
  ultimately show ?thesis
    using pen o unfolding out_def [symmetric] Let_def by (cases charge) (auto simp: algebra_simps)
qed

text \<open>
  C27. The sender of a message is charged at most \<open>gasLimit * feeCap\<close>: burned base fee, burned
  over-estimation, the miner's tip and the refund are not negative and add up to exactly that
  amount, and the miner's penalty is what the base fee exceeds the fee cap by, on all gas burned.
\<close>

theorem gas_outputs_conserve:
  assumes "0 \<le> gasUsed" "gasUsed \<le> gasLimit" "gasLimit < 2 ^ 59"
    and "0 \<le> baseFee" "0 \<le> feeCap" "0 \<le> gasPremium"
  shows "let out = ComputeGasOutputs gasUsed gasLimit baseFee feeCap gasPremium charge in
    BaseFeeBurn out + OverEstimationBurn out + MinerTip out + Refund out = gasLimit * feeCap \<and>
    0 \<le> BaseFeeBurn out \<and> 0 \<le> OverEstimationBurn out \<and> 0 \<le> MinerTip out \<and> 0 \<le> Refund out \<and>
    MinerPenalty out = max 0 (baseFee - feeCap) * (gasUsed + GasBurned out)"
  using assms by (rule gas_outputs_split)

theorem gas_outputs_conserve_witness:
  "let out = ComputeGasOutputs 1000 1500 100 200 50 True in
    BaseFeeBurn out + OverEstimationBurn out + MinerTip out + Refund out = 300000 \<and> 0 \<le> Refund out"
  using gas_outputs_conserve [of 1000 1500 100 200 50 True] by (simp add: Let_def)

text \<open>
  C28. The next base fee is at least the minimum and differs from the current one by at most an
  eighth (rounded away from it); it does not fall when the tipset used more gas per block than the
  target, and does not rise (above the minimum) when it used less.
\<close>

theorem next_base_fee_bounds:
  assumes "MinimumBaseFee \<le> baseFee" "0 < noOfBlocks" "0 \<le> gasLimitUsed" "gasLimitUsed < 2 ^ 63"
  shows "\<exists>next. ComputeNextBaseFee baseFee gasLimitUsed noOfBlocks = Some next \<and> MinimumBaseFee \<le> next \<and>
    8 * (next - baseFee) \<le> baseFee \<and> 8 * (baseFee - next) < baseFee + 8 \<and>
    (BlockGasTarget \<le> gasLimitUsed div noOfBlocks \<longrightarrow> baseFee \<le> next) \<and>
    (gasLimitUsed div noOfBlocks \<le> BlockGasTarget \<longrightarrow> next \<le> baseFee)"
proof -
  let ?T = BlockGasTarget
  have T: "0 < ?T" "?T < 2 ^ 62" by (simp_all add: BlockGasTarget_def BlockGasLimit_def)
  let ?g = "gasLimitUsed div noOfBlocks"
  have g: "0 \<le> ?g" "?g < 2 ^ 63"
    using assms(2-4) zdiv_mono2 [of gasLimitUsed 1 noOfBlocks] by (simp_all add: pos_imp_zdiv_nonneg_iff)
  define d where "d = max (- ?T) (min ?T (?g - ?T))"
  have d: "- ?T \<le> d" "d \<le> ?T" "?T \<le> ?g \<Longrightarrow> 0 \<le> d" "?g \<le> ?T \<Longrightarrow> d \<le> 0" using T by (auto simp: d_def)
  have b: "0 \<le> baseFee" using assms(1) by (simp add: MinimumBaseFee_def)
  define change where "change = baseFee * d div ?T div 8"
  note dv = div_between [OF T(1) d(1,2) b]
  have ch: "8 * change \<le> baseFee" "- baseFee - 8 < 8 * change" "0 \<le> d \<Longrightarrow> 0 \<le> change" "d \<le> 0 \<Longrightarrow> change \<le> 0"
    using dv unfolding change_def by linarith+
  have "in_int64 ?g" "in_int64 (?g - ?T)" using g T by (simp_all add: in_int64_def)
  then have w: "wrap64 (wrap64 (go_div gasLimitUsed noOfBlocks) - ?T) = ?g - ?T"
    using assms(2,3) by (simp add: go_div_nonneg)
  have c: "(let x = (if y > ?T then ?T else y); x = (if x < - ?T then - ?T else x) in f x) = f (max (- ?T) (min ?T y))"
    for y and f :: "int \<Rightarrow> int option"
    by (simp add: max_def min_def Let_def)
  have e: "ComputeNextBaseFee baseFee gasLimitUsed noOfBlocks = Some (max MinimumBaseFee (baseFee + change))"
    using assms(2) T(1) unfolding ComputeNextBaseFee_def Let_def [of "wrap64 _"] w c change_def d_def
    by (simp add: big_div_pos BaseFeeMaxChangeDenom_def Let_def max_def)
  show ?thesis
    using e ch d(3,4) assms(1) b by (intro exI [of _ "max MinimumBaseFee (baseFee + change)"]) (auto simp: max_def)
qed

theorem next_base_fee_bounds_witness:
  "\<exists>next. ComputeNextBaseFee 1000 30000000000 3 = Some next \<and> 8 * (next - 1000) \<le> 1000 \<and> 1000 \<le> next"
  using next_base_fee_bounds [of 1000 3 30000000000]
  by (auto simp: MinimumBaseFee_def BlockGasTarget_def BlockGasLimit_def)


text \<open>
  C29. The base fee of a tipset counts every message once, however many of its blocks include it:
  \<open>ComputeBaseFee\<close> applies \<open>ComputeNextBaseFee\<close> to the sum of the gas limits over the set of message
  CIDs. A CID determines its message, hence its gas limit \<open>L\<close>; the sum must fit into an \<open>int64\<close>.
\<close>

theorem base_fee_counts_once:
  assumes "\<forall>b \<in> set (b0 # bs). \<exists>m1 m2. msgs b = Inr (m1, m2) \<and> (\<forall>(c, l) \<in> set m1 \<union> set m2. l = L c)"
    and "\<forall>c. 0 \<le> L c" "(\<Sum>c\<in>block_cids msgs (b0 # bs). L c) < 2 ^ 63"
  shows "ComputeBaseFee msgs parentBaseFee (b0 # bs) =
    map_option Inr (ComputeNextBaseFee (parentBaseFee b0) (\<Sum>c\<in>block_cids msgs (b0 # bs). L c) (int (Suc (length bs))))"
  using total_limit_sum [where seen = "{}" and tot = 0, OF assms(1,2)] assms(3)
  by (simp add: ComputeBaseFee_def del: total_limit.simps)

theorem base_fee_counts_once_witness:
  "let msgs = (\<lambda>b :: nat. Inr ([(''a'', 5)], [(''b'', 7)])) in
   ComputeBaseFee msgs (\<lambda>_. 1000) [0, 1] = map_option Inr (ComputeNextBaseFee 1000 12 2)"
  using base_fee_counts_once [of "0 :: nat" "[1]" "\<lambda>_. Inr ([(''a'', 5)], [(''b'', 7)])"
      "\<lambda>c. if c = ''a'' then 5 else if c = ''b'' then 7 else 0" "\<lambda>_. 1000"]
  by (simp add: block_cids_def)

end
