(* ===== verification/Fr32.thy ===== *)
theory Fr32
  imports Sealing_Fillers
begin

text \<open>
  \<^verbatim>\<open>extern/sector-storage/fr32/fr32.go\<close>: the byte loops \<open>pad\<close> and \<open>unpad\<close> that spread 127 data bytes over
  128 sector bytes and back. Slices are byte lists; the slice a loop writes is an argument and a
  result. A chunk reads (or writes) all of its 127 unpadded bytes, so an index is out of range exactly
  when those bytes are not there: the run-time panic is \<open>None\<close>.

  The theory ends with what the loops compute: \<open>pad\<close> inserts two zero bits after every 254 bits, and
  \<open>unpad\<close> inverts it.
\<close>

section \<open>\<open>pad\<close>\<close>

definition go_copy :: "bytes \<Rightarrow> nat \<Rightarrow> bytes \<Rightarrow> bytes" where
  "go_copy dst off src = take off dst @ src @ drop (off + length src) dst"

text \<open>One inner loop: \<open>shl\<close> and \<open>shr\<close> are its shift distances, \<open>(v, t)\<close> the variables it carries.\<close>

fun pad_run :: "nat \<Rightarrow> nat \<Rightarrow> bytes \<Rightarrow> nat \<Rightarrow> nat \<Rightarrow> nat list \<Rightarrow> 8 word \<times> 8 word \<Rightarrow> bytes \<Rightarrow> (8 word \<times> 8 word) \<times> bytes" where
  "pad_run shl shr inn inOff outOff [] (v, t) out = ((v, t), out)"
| "pad_run shl shr inn inOff outOff (i # is) (v, t) out =
    (let v = inn ! (inOff + i);
         out = out[outOff + i := push_bit shl v OR t];
         t = drop_bit shr v
     in pad_run shl shr inn inOff outOff is (v, t) out)"

definition pad_chunk :: "bytes \<Rightarrow> nat \<Rightarrow> nat \<Rightarrow> bytes \<Rightarrow> bytes" where
  "pad_chunk inn inOff outOff out =
    (let out = go_copy out outOff (take 31 (drop inOff inn));
         t = drop_bit 6 (inn ! (inOff + 31));
         out = out[outOff + 31 := inn ! (inOff + 31) AND 0x3f];
         ((v, t), out) = pad_run 2 6 inn inOff outOff [32..<64] (0, t) out;
         t = drop_bit 4 v;
         out = out[outOff + 63 := out ! (outOff + 63) AND 0x3f];
         ((v, t), out) = pad_run 4 4 inn inOff outOff [64..<96] (v, t) out;
         t = drop_bit 2 v;
         out = out[outOff + 95 := out ! (outOff + 95) AND 0x3f];
         ((v, t), out) = pad_run 6 2 inn inOff outOff [96..<127] (v, t) out
     in out[outOff + 127 := t AND 0x3f])"

fun pad_loop :: "bytes \<Rightarrow> nat list \<Rightarrow> bytes \<Rightarrow> bytes option" where
  "pad_loop inn [] out = Some out"
| "pad_loop inn (chunk # chunks) out =
    (if length inn < chunk * 127 + 127 then None
     else pad_loop inn chunks (pad_chunk inn (chunk * 127) (chunk * 128) out))"

definition pad :: "bytes \<Rightarrow> bytes \<Rightarrow> bytes option" where
  "pad inn out = pad_loop inn [0..<length out div 128] out"

section \<open>\<open>unpad\<close>\<close>

text \<open>One inner loop of \<open>unpad\<close>; the first one only copies.\<close>

fun unpad_run :: "(8 word \<Rightarrow> 8 word \<Rightarrow> 8 word) \<Rightarrow> bytes \<Rightarrow> nat \<Rightarrow> nat \<Rightarrow> nat list \<Rightarrow> 8 word \<Rightarrow> bytes \<Rightarrow> 8 word \<times> bytes" where
  "unpad_run f inn inOffNext outOff [] at out = (at, out)"
| "unpad_run f inn inOffNext outOff (i # is) at out =
    (let nxt = inn ! (i + inOffNext);
         out = out[outOff + i := f at nxt]
     in unpad_run f inn inOffNext outOff is nxt out)"

definition unpad_chunk :: "bytes \<Rightarrow> nat \<Rightarrow> nat \<Rightarrow> bytes \<Rightarrow> bytes" where
  "unpad_chunk inn chunk outOff out =
    (let inOffNext = chunk * 128 + 1;
         at = inn ! (chunk * 128);
         (at, out) = unpad_run (\<lambda>at nxt. at) inn inOffNext outOff [0..<32] at out;
         out = out[outOff + 31 := out ! (outOff + 31) OR push_bit 6 at];
         (at, out) = unpad_run (\<lambda>at nxt. drop_bit 2 at OR push_bit 6 nxt) inn inOffNext outOff [32..<64] at out;
         out = out[outOff + 63 := out ! (outOff + 63) XOR (push_bit 6 at XOR push_bit 4 at)];
         (at, out) = unpad_run (\<lambda>at nxt. drop_bit 4 at OR push_bit 4 nxt) inn inOffNext outOff [64..<96] at out;
         out = out[outOff + 95 := out ! (outOff + 95) XOR (push_bit 4 at XOR push_bit 2 at)];
         (at, out) = unpad_run (\<lambda>at nxt. drop_bit 6 at OR push_bit 2 nxt) inn inOffNext outOff [96..<127] at out
     in out)"

fun unpad_loop :: "bytes \<Rightarrow> nat list \<Rightarrow> bytes \<Rightarrow> bytes option" where
  "unpad_loop inn [] out = Some out"
| "unpad_loop inn (chunk # chunks) out =
    (if length out < chunk * 127 + 127 then None
     else unpad_loop inn chunks (unpad_chunk inn chunk (chunk * 127) out))"

definition unpad :: "bytes \<Rightarrow> bytes \<Rightarrow> bytes option" where
  "unpad out inn = unpad_loop inn [0..<length inn div 128] out"

section \<open>One chunk, byte by byte\<close>

lemma pad_run_snoc:
  "pad_run shl shr inn a b (is @ js) vt out =
    (case pad_run shl shr inn a b is vt out of (vt', out') \<Rightarrow> pad_run shl shr inn a b js vt' out')"
  by (induction "is" arbitrary: vt out) (auto simp: Let_def)

lemma pad_run_upt:
  assumes "lo < hi" "pad_run shl shr inn a b [lo..<hi] (v0, t0) out = ((v, t), out')" "b + hi \<le> length out"
  shows "v = inn ! (a + (hi - 1)) \<and> t = drop_bit shr v \<and> length out' = length out \<and>
    (\<forall>j < length out. out' ! j =
      (if b + lo \<le> j \<and> j < b + hi
       then push_bit shl (inn ! (a + (j - b))) OR (if j = b + lo then t0 else drop_bit shr (inn ! (a + (j - b - 1))))
       else out ! j))"
  using assms
proof (induction hi arbitrary: v t out')
  case (Suc hi)
  show ?case
  proof (cases "lo < hi")
    case False
    with Suc.prems have "lo = hi" by simp
    moreover have "(b + hi \<le> j \<and> j < Suc (b + hi)) = (j = b + hi)" for j by auto
    ultimately show ?thesis using Suc.prems by (simp add: Let_def nth_list_update) fastforce
  next
    case True
    obtain v1 t1 out1 where r: "pad_run shl shr inn a b [lo..<hi] (v0, t0) out = ((v1, t1), out1)"
      by (metis surj_pair)
    have ih: "v1 = inn ! (a + (hi - 1))" "t1 = drop_bit shr v1" "length out1 = length out"
      "\<forall>j < length out. out1 ! j =
      (if b + lo \<le> j \<and> j < b + hi
       then push_bit shl (inn ! (a + (j - b))) OR (if j = b + lo then t0 else drop_bit shr (inn ! (a + (j - b - 1))))
       else out ! j)"
      using Suc.IH [OF True r] Suc.prems(3) by auto
    have s: "v = inn ! (a + hi)" "t = drop_bit shr v" "out' = out1[b + hi := push_bit shl v OR t1]"
      using Suc.prems(2) True r by (auto simp: pad_run_snoc Let_def)
    have "out' ! j = (if b + lo \<le> j \<and> j < b + Suc hi
       then push_bit shl (inn ! (a + (j - b))) OR (if j = b + lo then t0 else drop_bit shr (inn ! (a + (j - b - 1))))
       else out ! j)" if "j < length out" for j
      using ih s that True Suc.prems(3) by (cases "j = b + hi") auto
    with s ih show ?thesis by simp
  qed
qed simp

text \<open>Byte \<open>j\<close> of a padded chunk with the data bytes \<open>x\<close>, and byte \<open>j\<close> of an unpadded one.\<close>

definition padded_byte :: "(nat \<Rightarrow> 8 word) \<Rightarrow> nat \<Rightarrow> 8 word" where
  "padded_byte x j =
    (if j < 31 then x j
     else if j = 31 then x 31 AND 0x3f
     else if j < 63 then push_bit 2 (x j) OR drop_bit 6 (x (j - 1))
     else if j = 63 then (push_bit 2 (x 63) OR drop_bit 6 (x 62)) AND 0x3f
     else if j < 95 then push_bit 4 (x j) OR drop_bit 4 (x (j - 1))
     else if j = 95 then (push_bit 4 (x 95) OR drop_bit 4 (x 94)) AND 0x3f
     else if j < 127 then push_bit 6 (x j) OR drop_bit 2 (x (j - 1))
     else drop_bit 2 (x 126) AND 0x3f)"

definition unpadded_byte :: "(nat \<Rightarrow> 8 word) \<Rightarrow> nat \<Rightarrow> 8 word" where
  "unpadded_byte y j =
    (if j < 31 then y j
     else if j = 31 then y 31 OR push_bit 6 (y 32)
     else if j < 63 then drop_bit 2 (y j) OR push_bit 6 (y (Suc j))
     else if j = 63 then (drop_bit 2 (y 63) OR push_bit 6 (y 64)) XOR (push_bit 6 (y 64) XOR push_bit 4 (y 64))
     else if j < 95 then drop_bit 4 (y j) OR push_bit 4 (y (Suc j))
     else if j = 95 then (drop_bit 4 (y 95) OR push_bit 4 (y 96)) XOR (push_bit 4 (y 96) XOR push_bit 2 (y 96))
     else drop_bit 6 (y j) OR push_bit 2 (y (Suc j)))"

lemma padded_byte_cong: "(\<And>i. i < 127 \<Longrightarrow> x i = y i) \<Longrightarrow> padded_byte x j = padded_byte y j"
  by (simp add: padded_byte_def)

lemma unpadded_byte_cong: "(\<And>i. i < 128 \<Longrightarrow> x i = y i) \<Longrightarrow> j < 127 \<Longrightarrow> unpadded_byte x j = unpadded_byte y j"
  by (simp add: unpadded_byte_def)

lemma length_go_copy: "off + length src \<le> length dst \<Longrightarrow> length (go_copy dst off src) = length dst"
  by (simp add: go_copy_def)

lemma nth_go_copy:
  "off + length src \<le> length dst \<Longrightarrow> j < length dst \<Longrightarrow>
   go_copy dst off src ! j = (if off \<le> j \<and> j < off + length src then src ! (j - off) else dst ! j)"
  by (auto simp: go_copy_def nth_append min_def)

lemma pad_chunk_nth:
  assumes "a + 127 \<le> length inn" "b + 128 \<le> length out"
  shows "length (pad_chunk inn a b out) = length out"
    and "\<And>j. j < length out \<Longrightarrow> pad_chunk inn a b out ! j =
      (if b \<le> j \<and> j < b + 128 then padded_byte (\<lambda>i. inn ! (a + i)) (j - b) else out ! j)"
proof -
  define out1 where "out1 = (go_copy out b (take 31 (drop a inn)))[b + 31 := inn ! (a + 31) AND 0x3f]"
  obtain v2 t2 out2 where r2: "pad_run 2 6 inn a b [32..<64] (0, drop_bit 6 (inn ! (a + 31))) out1 = ((v2, t2), out2)"
    by (metis surj_pair)
  define out3 where "out3 = out2[b + 63 := out2 ! (b + 63) AND 0x3f]"
  obtain v4 t4 out4 where r4: "pad_run 4 4 inn a b [64..<96] (v2, drop_bit 4 v2) out3 = ((v4, t4), out4)"
    by (metis surj_pair)
  define out5 where "out5 = out4[b + 95 := out4 ! (b + 95) AND 0x3f]"
  obtain v6 t6 out6 where r6: "pad_run 6 2 inn a b [96..<127] (v4, drop_bit 2 v4) out5 = ((v6, t6), out6)"
    by (metis surj_pair)
  have e: "pad_chunk inn a b out = out6[b + 127 := t6 AND 0x3f]"
    unfolding pad_chunk_def Let_def out1_def [symmetric] r2 prod.case out3_def [symmetric] r4 out5_def [symmetric] r6 ..
  have l1: "length out1 = length out"
    using assms by (simp add: out1_def length_go_copy)
  have n1: "out1 ! j = (if b \<le> j \<and> j < b + 31 then inn ! (a + (j - b)) else if j = b + 31 then inn ! (a + 31) AND 0x3f else out ! j)"
    if "j < length out" for j
    using assms that by (auto simp: out1_def nth_list_update nth_go_copy length_go_copy)
  note s2 = pad_run_upt [OF _ r2, unfolded l1]
  have l2: "length out2 = length out" and v2: "v2 = inn ! (a + 63)" using s2 assms by (auto simp: add.commute)
  have n2: "out2 ! j = (if b + 32 \<le> j \<and> j < b + 64 then push_bit 2 (inn ! (a + (j - b))) OR drop_bit 6 (inn ! (a + (j - b - 1)))
     else out1 ! j)" if "j < length out" for j
    using s2 that assms by (simp add: add.commute [of 31])
  have l3: "length out3 = length out" using l2 by (simp add: out3_def)
  note s4 = pad_run_upt [OF _ r4, unfolded l3]
  have n4: "out4 ! j = (if b + 64 \<le> j \<and> j < b + 96 then push_bit 4 (inn ! (a + (j - b))) OR drop_bit 4 (inn ! (a + (j - b - 1)))
     else out3 ! j)" if "j < length out" for j
    using s4 that assms v2 by (simp add: add.commute [of 63])
  have l4: "length out4 = length out" and v4: "v4 = inn ! (a + 95)" using s4 assms by (auto simp: add.commute)
  have l5: "length out5 = length out" using l4 by (simp add: out5_def)
  note s6 = pad_run_upt [OF _ r6, unfolded l5]
  have n6: "out6 ! j = (if b + 96 \<le> j \<and> j < b + 127 then push_bit 6 (inn ! (a + (j - b))) OR drop_bit 2 (inn ! (a + (j - b - 1)))
     else out5 ! j)" if "j < length out" for j
    using s6 that assms v4 by (simp add: add.commute [of 95])
  have l6: "length out6 = length out" and t6: "t6 = drop_bit 2 (inn ! (a + 126))" using s6 assms by (auto simp: add.commute)
  show "length (pad_chunk inn a b out) = length out" using e l6 by simp
  fix j assume j: "j < length out"
  show "pad_chunk inn a b out ! j =
      (if b \<le> j \<and> j < b + 128 then padded_byte (\<lambda>i. inn ! (a + i)) (j - b) else out ! j)"
  proof (cases "b \<le> j \<and> j < b + 128")
    case True
    define k where "k = j - b"
    with True have k: "j = b + k" "k < 128" by auto
    note n = e j l2 l4 l6 n1 n2 n4 n6 t6 out3_def out5_def nth_list_update
    consider "k < 31" | "k = 31" | "32 \<le> k" "k < 63" | "k = 63" | "64 \<le> k" "k < 95" | "k = 95" | "96 \<le> k" "k < 127" | "k = 127"
      using k(2) by linarith
    then show ?thesis
      using k j by cases (simp_all add: n padded_byte_def)
  next
    case False
    then show ?thesis using j by (auto simp: e l2 l4 l6 n1 n2 n4 n6 out3_def out5_def nth_list_update)
  qed
qed


lemma unpad_run_snoc:
  "unpad_run f inn a b (is @ js) at out =
    (case unpad_run f inn a b is at out of (at', out') \<Rightarrow> unpad_run f inn a b js at' out')"
  by (induction "is" arbitrary: at out) (auto simp: Let_def)

lemma unpad_run_upt:
  assumes "lo < hi" "unpad_run f inn (Suc c) b [lo..<hi] (inn ! (c + lo)) out = (at', out')" "b + hi \<le> length out"
  shows "at' = inn ! (c + hi) \<and> length out' = length out \<and>
    (\<forall>j < length out. out' ! j =
      (if b + lo \<le> j \<and> j < b + hi then f (inn ! (c + (j - b))) (inn ! (c + Suc (j - b))) else out ! j))"
  using assms
proof (induction hi arbitrary: at' out')
  case (Suc hi)
  show ?case
  proof (cases "lo < hi")
    case False
    with Suc.prems have "lo = hi" by simp
    moreover have "(b + hi \<le> j \<and> j < Suc (b + hi)) = (j = b + hi)" for j by auto
    ultimately show ?thesis
      using Suc.prems by (simp add: Let_def nth_list_update add.commute [of hi]) fastforce
  next
    case True
    obtain at1 out1 where r: "unpad_run f inn (Suc c) b [lo..<hi] (inn ! (c + lo)) out = (at1, out1)"
      by (metis surj_pair)
    have ih: "at1 = inn ! (c + hi)" "length out1 = length out"
      "\<forall>j < length out. out1 ! j =
      (if b + lo \<le> j \<and> j < b + hi then f (inn ! (c + (j - b))) (inn ! (c + Suc (j - b))) else out ! j)"
      using Suc.IH [OF True r] Suc.prems(3) by auto
    have s: "at' = inn ! (c + Suc hi)" "out' = out1[b + hi := f at1 at']"
      using Suc.prems(2) True r by (auto simp: unpad_run_snoc Let_def add.commute [of hi])
    have "out' ! j = (if b + lo \<le> j \<and> j < b + Suc hi then f (inn ! (c + (j - b))) (inn ! (c + Suc (j - b))) else out ! j)"
      if "j < length out" for j
      using ih s that True Suc.prems(3) by (cases "j = b + hi") auto
    with s ih show ?thesis by simp
  qed
qed simp

lemma unpad_chunk_nth:
  assumes "chunk * 128 + 128 \<le> length inn" "b + 127 \<le> length out"
  shows "length (unpad_chunk inn chunk b out) = length out"
    and "\<And>j. j < length out \<Longrightarrow> unpad_chunk inn chunk b out ! j =
      (if b \<le> j \<and> j < b + 127 then unpadded_byte (\<lambda>i. inn ! (chunk * 128 + i)) (j - b) else out ! j)"
proof -
  define c where "c = chunk * 128"
  obtain a1 o1 where r1: "unpad_run (\<lambda>at nxt. at) inn (Suc c) b [0..<32] (inn ! (c + 0)) out = (a1, o1)" by (metis surj_pair)
  have s1: "a1 = inn ! (c + 32)" "length o1 = length out" using unpad_run_upt [OF _ r1] assms(2) by auto
  define p1 where "p1 = o1[b + 31 := o1 ! (b + 31) OR push_bit 6 a1]"
  obtain a2 o2 where r2: "unpad_run (\<lambda>at nxt. drop_bit 2 at OR push_bit 6 nxt) inn (Suc c) b [32..<64] (inn ! (c + 32)) p1 = (a2, o2)"
    by (metis surj_pair)
  have l1: "length p1 = length out" using s1 by (simp add: p1_def)
  have s2: "a2 = inn ! (c + 64)" "length o2 = length out" using unpad_run_upt [OF _ r2] assms(2) l1 by auto
  define p2 where "p2 = o2[b + 63 := o2 ! (b + 63) XOR (push_bit 6 a2 XOR push_bit 4 a2)]"
  obtain a3 o3 where r3: "unpad_run (\<lambda>at nxt. drop_bit 4 at OR push_bit 4 nxt) inn (Suc c) b [64..<96] (inn ! (c + 64)) p2 = (a3, o3)"
    by (metis surj_pair)
  have l2: "length p2 = length out" using s2 by (simp add: p2_def)
  have s3: "a3 = inn ! (c + 96)" "length o3 = length out" using unpad_run_upt [OF _ r3] assms(2) l2 by auto
  define p3 where "p3 = o3[b + 95 := o3 ! (b + 95) XOR (push_bit 4 a3 XOR push_bit 2 a3)]"
  obtain a4 o4 where r4: "unpad_run (\<lambda>at nxt. drop_bit 6 at OR push_bit 2 nxt) inn (Suc c) b [96..<127] (inn ! (c + 96)) p3 = (a4, o4)"
    by (metis surj_pair)
  have l3: "length p3 = length out" using s3 by (simp add: p3_def)
  have s4: "length o4 = length out" using unpad_run_upt [OF _ r4] assms(2) l3 by auto
  note r = r1 [unfolded add_0_right] r2 [folded s1(1)] r3 [folded s2(1)] r4 [folded s3(1)]
  have e: "unpad_chunk inn chunk b out = o4"
    unfolding unpad_chunk_def Let_def c_def [symmetric] Suc_eq_plus1 [symmetric] r prod.case
      p1_def [symmetric] p2_def [symmetric] p3_def [symmetric] ..
  then show "length (unpad_chunk inn chunk b out) = length out" using s4 by simp
  have n1: "o1 ! j = (if b \<le> j \<and> j < b + 32 then inn ! (c + (j - b)) else out ! j)" if "j < length out" for j
    using unpad_run_upt [OF _ r1] assms(2) that by simp
  have n2: "o2 ! j = (if b + 32 \<le> j \<and> j < b + 64 then drop_bit 2 (inn ! (c + (j - b))) OR push_bit 6 (inn ! (c + Suc (j - b)))
     else p1 ! j)" if "j < length out" for j
    using unpad_run_upt [OF _ r2] assms(2) that l1 by simp
  have n3: "o3 ! j = (if b + 64 \<le> j \<and> j < b + 96 then drop_bit 4 (inn ! (c + (j - b))) OR push_bit 4 (inn ! (c + Suc (j - b)))
     else p2 ! j)" if "j < length out" for j
    using unpad_run_upt [OF _ r3] assms(2) that l2 by simp
  have n4: "o4 ! j = (if b + 96 \<le> j \<and> j < b + 127 then drop_bit 6 (inn ! (c + (j - b))) OR push_bit 2 (inn ! (c + Suc (j - b)))
     else p3 ! j)" if "j < length out" for j
    using unpad_run_upt [OF _ r4] assms(2) that l3 by simp
  fix j assume j: "j < length out"
  show "unpad_chunk inn chunk b out ! j =
      (if b \<le> j \<and> j < b + 127 then unpadded_byte (\<lambda>i. inn ! (chunk * 128 + i)) (j - b) else out ! j)"
    unfolding c_def [symmetric] e
  proof (cases "b \<le> j \<and> j < b + 127")
    case True
    define k where "k = j - b"
    with True have k: "j = b + k" "k < 127" by auto
    note n = s1 s2 s3 n1 n2 n3 n4 p1_def p2_def p3_def nth_list_update
    consider "k < 31" | "k = 31" | "32 \<le> k" "k < 63" | "k = 63" | "64 \<le> k" "k < 95" | "k = 95" | "96 \<le> k"
      using k(2) by linarith
    then show "o4 ! j = (if b \<le> j \<and> j < b + 127 then unpadded_byte (\<lambda>i. inn ! (c + i)) (j - b) else out ! j)"
      using k j assms(2) by cases (simp_all add: n unpadded_byte_def)
  next
    case False
    then show "o4 ! j = (if b \<le> j \<and> j < b + 127 then unpadded_byte (\<lambda>i. inn ! (c + i)) (j - b) else out ! j)"
      using j assms(2) by (auto simp: n1 n2 n3 n4 p1_def p2_def p3_def nth_list_update)
  qed
qed


lemma and_3f: "(v :: 8 word) AND 0x3f = take_bit 6 v"
  by (simp add: take_bit_eq_mask mask_eq_exp_minus_1)

lemma padded_byte_bit:
  "bit (padded_byte x j) b \<longleftrightarrow> b < 8 \<and>
    (if j < 32 then bit (x j) b \<and> (j = 31 \<longrightarrow> b < 6)
     else if j < 64 then (if b < 2 then bit (x (j - 1)) (b + 6) else bit (x j) (b - 2)) \<and> (j = 63 \<longrightarrow> b < 6)
     else if j < 96 then (if b < 4 then bit (x (j - 1)) (b + 4) else bit (x j) (b - 4)) \<and> (j = 95 \<longrightarrow> b < 6)
     else if j < 127 then (if b < 6 then bit (x (j - 1)) (b + 2) else bit (x j) (b - 6))
     else b < 6 \<and> bit (x 126) (b + 2))"
proof -
  consider "j < 31" | "j = 31" | "32 \<le> j" "j < 63" | "j = 63" | "64 \<le> j" "j < 95" | "j = 95" | "96 \<le> j" "j < 127" | "127 \<le> j"
    by linarith
  then show ?thesis
    by cases (auto simp: padded_byte_def and_3f bit_simps add.commute dest: bit_imp_le_length)
qed

lemma unpadded_byte_bit:
  assumes "\<And>i. bit (y 31) i \<Longrightarrow> i < 6" "\<And>i. bit (y 63) i \<Longrightarrow> i < 6" "\<And>i. bit (y 95) i \<Longrightarrow> i < 6"
  shows "bit (unpadded_byte y j) b \<longleftrightarrow> b < 8 \<and>
    (if j < 31 then bit (y j) b
     else if j = 31 then (if b < 6 then bit (y 31) b else bit (y 32) (b - 6))
     else if j < 63 then (if b < 6 then bit (y j) (b + 2) else bit (y (Suc j)) (b - 6))
     else if j = 63 then (if b < 4 then bit (y 63) (b + 2) else bit (y 64) (b - 4))
     else if j < 95 then (if b < 4 then bit (y j) (b + 4) else bit (y (Suc j)) (b - 4))
     else if j = 95 then (if b < 2 then bit (y 95) (b + 4) else bit (y 96) (b - 2))
     else (if b < 2 then bit (y j) (b + 6) else bit (y (Suc j)) (b - 2)))"
proof -
  consider "j < 31" | "j = 31" | "32 \<le> j" "j < 63" | "j = 63" | "64 \<le> j" "j < 95" | "j = 95" | "96 \<le> j"
    by linarith
  then show ?thesis
    by cases (auto simp: unpadded_byte_def bit_simps add.commute dest: bit_imp_le_length dest!: assms)
qed

lemma unpadded_padded_byte:
  assumes "j < 127"
  shows "unpadded_byte (padded_byte x) j = x j"
proof (rule bit_word_eqI)
  fix b assume "b < LENGTH(8)"
  then have b: "b < 8" by simp
  have u: "bit (unpadded_byte (padded_byte x) j) b \<longleftrightarrow> b < 8 \<and>
    (if j < 31 then bit (padded_byte x j) b
     else if j = 31 then (if b < 6 then bit (padded_byte x 31) b else bit (padded_byte x 32) (b - 6))
     else if j < 63 then (if b < 6 then bit (padded_byte x j) (b + 2) else bit (padded_byte x (Suc j)) (b - 6))
     else if j = 63 then (if b < 4 then bit (padded_byte x 63) (b + 2) else bit (padded_byte x 64) (b - 4))
     else if j < 95 then (if b < 4 then bit (padded_byte x j) (b + 4) else bit (padded_byte x (Suc j)) (b - 4))
     else if j = 95 then (if b < 2 then bit (padded_byte x 95) (b + 4) else bit (padded_byte x 96) (b - 2))
     else (if b < 2 then bit (padded_byte x j) (b + 6) else bit (padded_byte x (Suc j)) (b - 2)))"
    by (rule unpadded_byte_bit) (simp_all add: padded_byte_bit)
  have n: "\<not> b < 2 \<Longrightarrow> Suc (Suc (b - 2)) = b" by simp
  consider "j < 31" | "j = 31" | "32 \<le> j" "j < 62" | "j = 62" | "j = 63" | "64 \<le> j" "j < 94" | "j = 94" | "j = 95"
    | "96 \<le> j" "j < 126" | "j = 126"
    using assms by linarith
  then show "bit (unpadded_byte (padded_byte x) j) b \<longleftrightarrow> bit (x j) b"
    using b unfolding u by cases (auto simp: padded_byte_bit n)
qed

section \<open>All chunks\<close>

text \<open>The \<open>n\<close> padded chunks of \<open>inn\<close>, and the \<open>n\<close> unpadded ones.\<close>

definition pad_bytes :: "nat \<Rightarrow> bytes \<Rightarrow> bytes" where
  "pad_bytes n inn = map (\<lambda>j. padded_byte (\<lambda>i. inn ! (127 * (j div 128) + i)) (j mod 128)) [0..<128 * n]"

definition unpad_bytes :: "nat \<Rightarrow> bytes \<Rightarrow> bytes" where
  "unpad_bytes n inn = map (\<lambda>j. unpadded_byte (\<lambda>i. inn ! (128 * (j div 127) + i)) (j mod 127)) [0..<127 * n]"

lemma length_pad_bytes [simp]: "length (pad_bytes n inn) = 128 * n" "length (unpad_bytes n inn) = 127 * n"
  by (simp_all add: pad_bytes_def unpad_bytes_def)

lemma nth_pad_bytes:
  "j < 128 * n \<Longrightarrow> pad_bytes n inn ! j = padded_byte (\<lambda>i. inn ! (127 * (j div 128) + i)) (j mod 128)"
  by (simp add: pad_bytes_def)

lemma nth_unpad_bytes:
  "j < 127 * n \<Longrightarrow> unpad_bytes n inn ! j = unpadded_byte (\<lambda>i. inn ! (128 * (j div 127) + i)) (j mod 127)"
  by (simp add: unpad_bytes_def)

lemma chunk_of: "c * k \<le> j \<Longrightarrow> j < c * k + k \<Longrightarrow> j div k = c \<and> j mod k = j - c * k" for c k j :: nat
  by (metis add.commute add_left_cancel div_nat_eqI le_add_diff_inverse mod_div_mult_eq mult.commute mult_Suc)

lemma pad_loop_snoc: "pad_loop inn (cs @ [c]) out = Option.bind (pad_loop inn cs out) (pad_loop inn [c])"
  by (induction cs arbitrary: out) simp_all

lemma unpad_loop_snoc: "unpad_loop inn (cs @ [c]) out = Option.bind (unpad_loop inn cs out) (unpad_loop inn [c])"
  by (induction cs arbitrary: out) simp_all

lemma pad_loop_bytes:
  assumes "127 * n \<le> length inn" "128 * n \<le> length out"
  shows "pad_loop inn [0..<n] out = Some (pad_bytes n inn @ drop (128 * n) out)"
  using assms
proof (induction n)
  case (Suc n)
  let ?out = "pad_bytes n inn @ drop (128 * n) out"
  have l: "n * 127 + 127 \<le> length inn" "n * 128 + 128 \<le> length ?out" using Suc.prems by simp_all
  have "pad_chunk inn (n * 127) (n * 128) ?out = pad_bytes (Suc n) inn @ drop (128 * Suc n) out"
  proof (rule nth_equalityI)
    show "length (pad_chunk inn (n * 127) (n * 128) ?out) = length (pad_bytes (Suc n) inn @ drop (128 * Suc n) out)"
      using Suc.prems pad_chunk_nth(1) [OF l] by simp
    fix j assume "j < length (pad_chunk inn (n * 127) (n * 128) ?out)"
    then have j: "j < length ?out" using pad_chunk_nth(1) [OF l] by simp
    show "pad_chunk inn (n * 127) (n * 128) ?out ! j = (pad_bytes (Suc n) inn @ drop (128 * Suc n) out) ! j"
      unfolding pad_chunk_nth(2) [OF l j]
      using chunk_of [of n 128 j] Suc.prems j
      by (auto simp: nth_append nth_pad_bytes mult.commute [of n])
  qed
  then show ?case using Suc l by (simp add: pad_loop_snoc)
qed (simp add: pad_bytes_def)

lemma unpad_loop_bytes:
  assumes "128 * n \<le> length inn" "127 * n \<le> length out"
  shows "unpad_loop inn [0..<n] out = Some (unpad_bytes n inn @ drop (127 * n) out)"
  using assms
proof (induction n)
  case (Suc n)
  let ?out = "unpad_bytes n inn @ drop (127 * n) out"
  have l: "n * 128 + 128 \<le> length inn" "n * 127 + 127 \<le> length ?out" using Suc.prems by simp_all
  have "unpad_chunk inn n (n * 127) ?out = unpad_bytes (Suc n) inn @ drop (127 * Suc n) out"
  proof (rule nth_equalityI)
    show "length (unpad_chunk inn n (n * 127) ?out) = length (unpad_bytes (Suc n) inn @ drop (127 * Suc n) out)"
      using Suc.prems unpad_chunk_nth(1) [OF l] by simp
    fix j assume "j < length (unpad_chunk inn n (n * 127) ?out)"
    then have j: "j < length ?out" using unpad_chunk_nth(1) [OF l] by simp
    show "unpad_chunk inn n (n * 127) ?out ! j = (unpad_bytes (Suc n) inn @ drop (127 * Suc n) out) ! j"
      unfolding unpad_chunk_nth(2) [OF l j]
      using chunk_of [of n 127 j] Suc.prems j
      by (auto simp: nth_append nth_unpad_bytes mult.commute [of n])
  qed
  then show ?case using Suc l by (simp add: unpad_loop_snoc)
qed (simp add: unpad_bytes_def)


lemma pad_eq:
  assumes "127 * (length out div 128) \<le> length inn"
  shows "pad inn out = Some (pad_bytes (length out div 128) inn @ drop (128 * (length out div 128)) out)"
  unfolding pad_def using assms by (intro pad_loop_bytes) auto

lemma unpad_eq:
  assumes "127 * (length inn div 128) \<le> length out"
  shows "unpad out inn = Some (unpad_bytes (length inn div 128) inn @ drop (127 * (length inn div 128)) out)"
  unfolding unpad_def using assms by (intro unpad_loop_bytes) auto

lemma pad_bytes_append:
  assumes "length xs = 127 * m"
  shows "pad_bytes (m + n) (xs @ ys) = pad_bytes m xs @ pad_bytes n ys"
proof (rule nth_equalityI)
  fix j assume "j < length (pad_bytes (m + n) (xs @ ys))"
  then have j: "j < 128 * (m + n)" by simp
  show "pad_bytes (m + n) (xs @ ys) ! j = (pad_bytes m xs @ pad_bytes n ys) ! j"
  proof (cases "j < 128 * m")
    case True
    then have "j div 128 < m" "j mod 128 < 128" by (simp_all add: div_less_iff_less_mult mult.commute)
    then have "i < 127 \<Longrightarrow> (xs @ ys) ! (127 * (j div 128) + i) = xs ! (127 * (j div 128) + i)" for i
      using assms by (simp add: nth_append)
    then have "padded_byte (\<lambda>i. (xs @ ys) ! (127 * (j div 128) + i)) (j mod 128) =
        padded_byte (\<lambda>i. xs ! (127 * (j div 128) + i)) (j mod 128)"
      by (rule padded_byte_cong)
    then show ?thesis using True j by (simp add: nth_append nth_pad_bytes)
  next
    case False
    define i where "i = j - 128 * m"
    with False have i: "j = i + 128 * m" by simp
    then have "127 * (j div 128) = 127 * m + 127 * (i div 128)" "j mod 128 = i mod 128" by simp_all
    then show ?thesis using j assms i by (simp add: nth_append nth_pad_bytes add.assoc)
  qed
qed simp

lemma unpad_bytes_append:
  assumes "length xs = 128 * m"
  shows "unpad_bytes (m + n) (xs @ ys) = unpad_bytes m xs @ unpad_bytes n ys"
proof (rule nth_equalityI)
  fix j assume "j < length (unpad_bytes (m + n) (xs @ ys))"
  then have j: "j < 127 * (m + n)" by simp
  show "unpad_bytes (m + n) (xs @ ys) ! j = (unpad_bytes m xs @ unpad_bytes n ys) ! j"
  proof (cases "j < 127 * m")
    case True
    then have "j div 127 < m" "j mod 127 < 127" by (simp_all add: div_less_iff_less_mult mult.commute)
    then have "i < 128 \<Longrightarrow> (xs @ ys) ! (128 * (j div 127) + i) = xs ! (128 * (j div 127) + i)" for i
      using assms by (simp add: nth_append)
    then have "unpadded_byte (\<lambda>i. (xs @ ys) ! (128 * (j div 127) + i)) (j mod 127) =
        unpadded_byte (\<lambda>i. xs ! (128 * (j div 127) + i)) (j mod 127)"
      by (rule unpadded_byte_cong) simp_all
    then show ?thesis using True j by (simp add: nth_append nth_unpad_bytes)
  next
    case False
    define i where "i = j - 127 * m"
    with False have i: "j = i + 127 * m" by simp
    then have "128 * (j div 127) = 128 * m + 128 * (i div 127)" "j mod 127 = i mod 127" by simp_all
    then show ?thesis using j assms i by (simp add: nth_append nth_unpad_bytes add.assoc)
  qed
qed simp

lemma unpad_pad_bytes: "127 * n \<le> length x \<Longrightarrow> unpad_bytes n (pad_bytes n x) = take (127 * n) x"
proof (rule nth_equalityI)
  fix j assume x: "127 * n \<le> length x" and "j < length (unpad_bytes n (pad_bytes n x))"
  then have j: "j < 127 * n" by simp
  then have c: "j div 127 < n" "j mod 127 < 127" by (simp_all add: div_less_iff_less_mult mult.commute)
  have "pad_bytes n x ! (128 * (j div 127) + i) = padded_byte (\<lambda>i. x ! (127 * (j div 127) + i)) i" if "i < 128" for i
    using c that by (simp add: nth_pad_bytes)
  then have "unpadded_byte (\<lambda>i. pad_bytes n x ! (128 * (j div 127) + i)) (j mod 127) =
      unpadded_byte (padded_byte (\<lambda>i. x ! (127 * (j div 127) + i))) (j mod 127)"
    using c(2) by (intro unpadded_byte_cong) simp_all
  then show "unpad_bytes n (pad_bytes n x) ! j = take (127 * n) x ! j"
    using j c(2) by (simp add: nth_unpad_bytes unpadded_padded_byte)
qed simp

section \<open>The bits of the padding\<close>

text \<open>Bit \<open>k\<close> of a byte string, least significant bit first.\<close>

definition bit_at :: "bytes \<Rightarrow> nat \<Rightarrow> bool" where
  "bit_at xs k = bit (xs ! (k div 8)) (k mod 8)"

lemma bit_at_byte: "b < 8 \<Longrightarrow> bit_at x (8 * m + b) = bit (x ! m) b"
  by (simp add: bit_at_def)

lemma padded_bit:
  assumes "j < 128" "b < 8" "p = 8 * (j mod 32) + b"
  shows "bit (padded_byte (\<lambda>i. x ! (a + i)) j) b \<longleftrightarrow>
    p < 254 \<and> bit_at x (8 * a + (254 * (j div 32) + p))"
proof -
  define s where "s = j div 32"
  define r where "r = j mod 32"
  have j: "j = 32 * s + r" "r < 32" by (simp_all add: s_def r_def)
  then have s: "s = 0 \<or> s = 1 \<or> s = 2 \<or> s = 3" using assms(1) by auto
  have i: "8 * a + (254 * s + p) = (if 2 * s \<le> b then 8 * (a + j) + (b - 2 * s) else 8 * (a + (j - 1)) + (8 + b - 2 * s))"
    using j s assms(2,3) unfolding r_def [symmetric] by auto
  have q: "bit_at x (8 * a + (254 * s + p)) =
      (if 2 * s \<le> b then bit (x ! (a + j)) (b - 2 * s) else bit (x ! (a + (j - 1))) (8 + b - 2 * s))"
  proof (cases "2 * s \<le> b")
    case True
    then show ?thesis unfolding i if_P [OF True] by (intro bit_at_byte) (use assms(2) in simp)
  next
    case False
    then show ?thesis unfolding i if_not_P [OF False] by (intro bit_at_byte) (use assms(2) in simp)
  qed
  define t where "t = 2 * s"
  have t: "s = 0 \<and> t = 0 \<or> s = 1 \<and> t = 2 \<or> s = 2 \<and> t = 4 \<or> s = 3 \<and> t = 6" using s by (auto simp: t_def)
  have p: "p < 254 \<longleftrightarrow> \<not> (r = 31 \<and> 6 \<le> b)" using assms(2,3) j(2) unfolding r_def [symmetric] by auto
  show ?thesis
    unfolding s_def [symmetric] q p padded_byte_bit t_def [symmetric] using t j assms(2)
    by (cases "r = 31"; elim disjE) (auto simp: add.commute)
qed

lemma pad_bytes_bit:
  assumes "k < 1024 * n"
  shows "bit_at (pad_bytes n x) k \<longleftrightarrow> k mod 256 < 254 \<and> bit_at x (254 * (k div 256) + k mod 256)"
proof -
  define b where "b = k mod 8"
  define j where "j = (k div 8) mod 128"
  define c where "c = k div 8 div 128"
  have k: "k = 8 * (128 * c + j) + b" "j < 128" "b < 8" unfolding j_def c_def b_def by simp_all
  define q where "q = j div 32"
  define r where "r = j mod 32"
  have j: "j = 32 * q + r" "r < 32" by (simp_all add: q_def r_def)
  then have "k = 256 * (4 * c + q) + (8 * r + b)" "8 * r + b < 256" using k by simp_all
  then have m: "k div 256 = 4 * c + j div 32" "k mod 256 = 8 * (j mod 32) + b" 
    by (simp_all only: q_def [symmetric] r_def [symmetric] div_mult_self4 mod_mult_self4 div_less mod_less)
  have "128 * c + j < 128 * n" using assms k(1) by simp
  moreover have "k div 8 = 128 * c + j" "k mod 8 = b" using k by (simp_all only: div_mult_self4 mod_mult_self4 div_less mod_less)
  ultimately have "bit_at (pad_bytes n x) k = bit (padded_byte (\<lambda>i. x ! (127 * c + i)) j) b"
    using k(2) by (simp add: bit_at_def nth_pad_bytes)
  also have "\<dots> \<longleftrightarrow> k mod 256 < 254 \<and> bit_at x (8 * (127 * c) + (254 * (j div 32) + k mod 256))"
    by (rule padded_bit) (use k m in simp_all)
  finally show ?thesis unfolding m(1) by (simp add: distrib_left add.assoc)
qed

section \<open>Properties\<close>

text \<open>
  C30. The byte loops of \<open>pad\<close> are the Fr32 padding: when the input holds 127 bytes for every 128
  bytes of the output, \<open>pad\<close> does not panic, and the output is the bit stream of the input with two
  zero bits inserted after every 254 bits.
\<close>

theorem pad_inserts_zero_bits:
  assumes "length out = 128 * n" "length inn = 127 * n"
  shows "\<exists>out'. pad inn out = Some out' \<and> length out' = 128 * n \<and>
    (\<forall>k < 8 * length out'. bit_at out' k \<longleftrightarrow> k mod 256 < 254 \<and> bit_at inn (254 * (k div 256) + k mod 256))"
  using pad_eq [of out inn] assms pad_bytes_bit [of _ n inn] by simp

theorem pad_inserts_zero_bits_witness:
  "\<exists>out'. pad (replicate 127 (0xff :: 8 word)) (replicate 128 0) = Some out' \<and> \<not> bit_at out' 254 \<and> bit_at out' 256"
proof -
  obtain out' where o: "pad (replicate 127 (0xff :: 8 word)) (replicate 128 0) = Some out'" "length out' = 128"
    "\<forall>k < 8 * length out'. bit_at out' k \<longleftrightarrow> k mod 256 < 254 \<and> bit_at (replicate 127 0xff) (254 * (k div 256) + k mod 256)"
    using pad_inserts_zero_bits [of "replicate 128 0" 1 "replicate 127 0xff"] by auto
  have "bit (0xff :: 8 word) 6" by simp
  then have "bit_at (replicate 127 0xff) 254" by (simp add: bit_at_def)
  with o(1,2) o(3) [rule_format, of 254] o(3) [rule_format, of 256] show ?thesis by simp
qed

end
