(* ===== verification/Fr32_Parallel.thy ===== *)
theory Fr32_Parallel
  imports Fr32 "HOL-Library.Multiset"
begin

text \<open>
  The rest of \<^verbatim>\<open>extern/sector-storage/fr32/fr32.go\<close>: \<open>mtChunkCount\<close>, \<open>mt\<close> and the entry points \<open>Pad\<close> and
  \<open>Unpad\<close>, which split a large buffer among goroutines. The goroutines write disjoint parts of one slice
  and read parts of another that none of them writes, so a run is given by the order in which they do
  their work: \<open>sched n\<close> lists the thread numbers below \<open>n\<close>. \<open>ncpu\<close> is \<^verbatim>\<open>runtime.NumCPU()\<close> and \<open>unpadded\<close> is
  \<^verbatim>\<open>abi.PaddedPieceSize.Unpadded\<close>.

  The locale \<open>chunked\<close> states what both directions share: they work chunk by chunk. It is interpreted for
  padding and for unpadding.
\<close>

section \<open>Definitions\<close>

definition MTTresh :: nat where
  "MTTresh = 32 * 2 ^ 20"

text \<open>\<^verbatim>\<open>bits.Len32\<close>: the number of bits needed to write its argument.\<close>

fun bit_len :: "nat \<Rightarrow> nat" where
  "bit_len n = (if n = 0 then 0 else Suc (bit_len (n div 2)))"

declare bit_len.simps [simp del]

definition Len32 :: "nat \<Rightarrow> nat" where
  "Len32 n = bit_len (n mod 2 ^ 32)"

definition mtChunkCount :: "nat \<Rightarrow> nat \<Rightarrow> nat" where
  "mtChunkCount ncpu usz =
    (let threads = usz div MTTresh;
         threads = (if threads > ncpu then 2 ^ Len32 ncpu else threads)
     in if threads = 0 then 1 else if threads > 32 then 32 else threads)"

text \<open>
  The goroutines, in the order of the list. The buffers have no spare capacity: a part that reaches beyond the length
  of a buffer, which Go allows within its capacity, is a panic here. Parts within the buffers are not affected.
\<close>

fun mt_threads ::
  "(u64 \<Rightarrow> u64) \<Rightarrow> (bytes \<Rightarrow> bytes \<Rightarrow> (bytes \<times> bytes) option) \<Rightarrow> nat \<Rightarrow> nat list \<Rightarrow> bytes \<times> bytes \<Rightarrow> (bytes \<times> bytes) option" where
  "mt_threads unpadded op threadBytes [] (inn, out) = Some (inn, out)"
| "mt_threads unpadded op threadBytes (thread # threads) (inn, out) =
    (let start = threadBytes * thread; stop = start + threadBytes;
         ustart = unat (unpadded (of_nat start)); ustop = unat (unpadded (of_nat stop))
     in if ustart > ustop \<or> ustop > length inn \<or> stop > length out then None
        else case op (take (ustop - ustart) (drop ustart inn)) (take threadBytes (drop start out)) of
            None \<Rightarrow> None
          | Some (inn', out') \<Rightarrow>
              mt_threads unpadded op threadBytes threads (go_copy inn ustart inn', go_copy out start out'))"

definition mt ::
  "(u64 \<Rightarrow> u64) \<Rightarrow> nat \<Rightarrow> (nat \<Rightarrow> nat list) \<Rightarrow> bytes \<Rightarrow> bytes \<Rightarrow> nat \<Rightarrow> (bytes \<Rightarrow> bytes \<Rightarrow> (bytes \<times> bytes) option) \<Rightarrow>
   (bytes \<times> bytes) option" where
  "mt unpadded ncpu sched inn out padLen op =
    (let threads = mtChunkCount ncpu padLen; threadBytes = padLen div threads
     in mt_threads unpadded op threadBytes (sched threads) (inn, out))"

definition Pad :: "(u64 \<Rightarrow> u64) \<Rightarrow> nat \<Rightarrow> (nat \<Rightarrow> nat list) \<Rightarrow> bytes \<Rightarrow> bytes \<Rightarrow> bytes option" where
  "Pad unpadded ncpu sched inn out =
    (if length out > MTTresh
     then map_option snd (mt unpadded ncpu sched inn out (length out) (\<lambda>u p. map_option (Pair u) (pad u p)))
     else pad inn out)"

definition Unpad :: "(u64 \<Rightarrow> u64) \<Rightarrow> nat \<Rightarrow> (nat \<Rightarrow> nat list) \<Rightarrow> bytes \<Rightarrow> bytes \<Rightarrow> bytes option" where
  "Unpad unpadded ncpu sched inn out =
    (if length inn > MTTresh
     then map_option fst (mt unpadded ncpu sched out inn (length inn) (\<lambda>u p. map_option (\<lambda>u'. (u', p)) (unpad u p)))
     else unpad out inn)"

section \<open>Working chunk by chunk\<close>

text \<open>Writing blocks of \<open>m\<close> chunks in the order of \<open>ts\<close>.\<close>

definition put_blocks :: "(nat \<Rightarrow> bytes \<Rightarrow> bytes) \<Rightarrow> nat \<Rightarrow> nat \<Rightarrow> nat \<Rightarrow> bytes \<Rightarrow> nat list \<Rightarrow> bytes \<Rightarrow> bytes" where
  "put_blocks f p q m x ts out = fold (\<lambda>t out. go_copy out (q * m * t) (f m (take (p * m) (drop (p * m * t) x)))) ts out"

text \<open>
  \<open>f n x\<close> turns the first \<open>n\<close> chunks of \<open>p\<close> bytes of \<open>x\<close> into \<open>n\<close> chunks of \<open>q\<close> bytes.
\<close>

locale chunked =
  fixes f :: "nat \<Rightarrow> bytes \<Rightarrow> bytes" and p q :: nat
  assumes length_f: "length (f n x) = q * n"
    and f_append: "length x = p * m \<Longrightarrow> f (m + n) (x @ y) = f m x @ f n y"
    and f_take: "f n (take (p * n) x) = f n x"
    and q_pos: "0 < q"
begin

text \<open>A block of \<open>m\<close> chunks of the result is the result on the block.\<close>

lemma f_block:
  assumes "t < T" "p * (T * m) \<le> length x"
  shows "take (q * m) (drop (q * m * t) (f (T * m) x)) = f m (take (p * m) (drop (p * m * t) x))"
proof -
  obtain d where d: "T = t + Suc d" using assms(1) by (metis add_Suc_right less_imp_Suc_add)
  let ?a = "take (p * m * t) x" and ?r = "drop (p * m * t) x"
  let ?b = "take (p * m) ?r" and ?c = "drop (p * m) ?r"
  have "p * m * t + p * m \<le> p * (T * m)" unfolding d by (simp add: algebra_simps)
  then have l: "length ?a = p * (m * t)" "length ?b = p * m" using assms(2) by (simp_all add: algebra_simps)
  have x: "?a @ ?b @ ?c = x" by (simp only: append_take_drop_id)
  have "f (T * m) x = f (m * t + (m + d * m)) (?a @ ?b @ ?c)" unfolding x d by (simp add: algebra_simps)
  also have "\<dots> = f (m * t) ?a @ f m ?b @ f (d * m) ?c" using l by (simp add: f_append)
  finally show ?thesis by (simp add: length_f algebra_simps)
qed

lemma put_blocks_nth:
  assumes "0 < m" "set ts \<subseteq> {..<T}" "p * (T * m) \<le> length x" "length out = q * (T * m)"
  shows "length (put_blocks f p q m x ts out) = length out \<and>
    (\<forall>j < length out. put_blocks f p q m x ts out ! j = (if j div (q * m) \<in> set ts then f (T * m) x ! j else out ! j))"
  using assms(2,4)
proof (induction ts arbitrary: out)
  case (Cons t ts)
  let ?b = "f m (take (p * m) (drop (p * m * t) x))"
  have t: "t < T" using Cons.prems by simp
  then have "Suc t * (q * m) \<le> T * (q * m)" by (intro mult_le_mono1) simp
  then have fits: "q * m * t + length ?b \<le> length out" using Cons.prems(2) by (simp add: length_f algebra_simps)
  let ?o = "go_copy out (q * m * t) ?b"
  have o: "length ?o = length out" using fits by (rule length_go_copy)
  have ih: "length (put_blocks f p q m x ts ?o) = length ?o"
    "\<And>j. j < length ?o \<Longrightarrow> put_blocks f p q m x ts ?o ! j = (if j div (q * m) \<in> set ts then f (T * m) x ! j else ?o ! j)"
    using Cons.IH [of ?o] Cons.prems o by auto
  have b: "?b ! i = f (T * m) x ! (q * m * t + i)" if "i < q * m" for i
    using f_block [OF t assms(3)] that fits Cons.prems(2)
    by (metis length_f add_leD1 assms(1) nth_drop nth_take)
  have qm: "0 < q * m" using q_pos assms(1) by simp
  have "?o ! j = (if j div (q * m) = t then f (T * m) x ! j else out ! j)" if j: "j < length out" for j
  proof (cases "j div (q * m) = t")
    case True
    then have "q * m * t \<le> j" "j < q * m * t + q * m"
      using div_times_less_eq_dividend [of j "q * m"] dividend_less_div_times [OF qm, of j] by (auto simp: algebra_simps)
    then show ?thesis using nth_go_copy [OF fits j] b [of "j - q * m * t"] True by (simp add: length_f)
  next
    case False
    then have "\<not> (q * m * t \<le> j \<and> j < q * m * t + q * m)"
      using div_nat_eqI [of "q * m" t j] by (auto simp: algebra_simps)
    then show ?thesis using nth_go_copy [OF fits j] False by (auto simp: length_f)
  qed
  with ih o show ?case by (auto simp: put_blocks_def)
qed (simp add: put_blocks_def)

lemma put_blocks_all:
  assumes "0 < m" "set ts = {..<T}" "p * (T * m) \<le> length x" "length out = q * (T * m)"
  shows "put_blocks f p q m x ts out = f (T * m) x"
proof -
  have qm: "0 < q * m" using q_pos assms(1) by simp
  have "j div (q * m) < T" if "j < length out" for j
    using that assms(4) qm by (simp add: div_less_iff_less_mult algebra_simps)
  then show ?thesis
    using put_blocks_nth [OF assms(1) _ assms(3,4), of ts] assms(2,4) by (intro nth_equalityI) (auto simp: length_f)
qed

end

lemma pad_bytes_take: "pad_bytes n (take (127 * n) x) = pad_bytes n x"
proof (rule nth_equalityI)
  fix j assume "j < length (pad_bytes n (take (127 * n) x))"
  then have j: "j < 128 * n" by simp
  then have "j div 128 < n" by (simp add: div_less_iff_less_mult mult.commute)
  then show "pad_bytes n (take (127 * n) x) ! j = pad_bytes n x ! j"
    using j by (auto simp: nth_pad_bytes intro!: padded_byte_cong)
qed simp

lemma unpad_bytes_take: "unpad_bytes n (take (128 * n) x) = unpad_bytes n x"
proof (rule nth_equalityI)
  fix j assume "j < length (unpad_bytes n (take (128 * n) x))"
  then have j: "j < 127 * n" by simp
  then have "j div 127 < n" by (simp add: div_less_iff_less_mult mult.commute)
  then show "unpad_bytes n (take (128 * n) x) ! j = unpad_bytes n x ! j"
    using j by (auto simp: nth_unpad_bytes intro!: unpadded_byte_cong)
qed simp

interpretation padding: chunked pad_bytes 127 128
  by unfold_locales (simp_all add: pad_bytes_append pad_bytes_take)

interpretation unpadding: chunked unpad_bytes 128 127
  by unfold_locales (simp_all add: unpad_bytes_append unpad_bytes_take)

section \<open>The threads\<close>

lemma unat_unpadded:
  assumes "unpadded_spec unpadded" "128 * k < 2 ^ 64"
  shows "unat (unpadded (of_nat (128 * k))) = 127 * k"
proof -
  have k: "of_nat (128 * k) = (128 :: u64) * of_nat k" by simp
  have "unat (of_nat (128 * k) :: u64) = 128 * k" using assms(2) by (rule unat_of_nat_64)
  then have "unat ((of_nat (128 * k) :: u64) div 128) = k" by (simp add: unat_div del: of_nat_mult)
  moreover have "(of_nat (128 * k) :: u64) div 128 \<le> of_nat (128 * k)" by (simp add: word_le_nat_alt unat_div)
  ultimately show ?thesis
    using assms by (simp add: unpadded_spec_def unat_sub unat_of_nat_64 del: of_nat_mult)
qed

lemma mt_threads_pad:
  assumes "unpadded_spec unpadded" "128 * (T * m) < 2 ^ 64" "set ts \<subseteq> {..<T}"
    and "127 * (T * m) \<le> length inn" "length out = 128 * (T * m)"
  shows "mt_threads unpadded (\<lambda>u p. map_option (Pair u) (pad u p)) (128 * m) ts (inn, out) =
    Some (inn, put_blocks pad_bytes 127 128 m inn ts out)"
  using assms(3,5)
proof (induction ts arbitrary: out)
  case (Cons t ts)
  have "Suc t * m \<le> T * m" using Cons.prems(1) by (intro mult_le_mono1) auto
  then have tm: "m * t + m \<le> T * m" by (simp add: algebra_simps)
  have u: "unat (unpadded (of_nat (128 * m * t))) = 127 * (m * t)"
    "unat (unpadded (of_nat (128 * m * t + 128 * m))) = 127 * (m * t + m)"
    using unat_unpadded [OF assms(1), of "m * t"] unat_unpadded [OF assms(1), of "m * t + m"] tm assms(2)
    by (simp_all add: algebra_simps del: of_nat_mult of_nat_add)
  let ?u = "take (127 * m) (drop (127 * (m * t)) inn)" and ?o = "take (128 * m) (drop (128 * m * t) out)"
  have l: "length ?u = 127 * m" "length ?o = 128 * m" using tm assms(4) Cons.prems(2) by simp_all
  have pd: "pad ?u ?o = Some (pad_bytes m ?u)" using pad_eq [of ?o ?u] l by simp
  have same: "go_copy inn (127 * (m * t)) ?u = inn"
    unfolding go_copy_def l by (metis add.commute append_take_drop_id drop_drop)
  have "length (go_copy out (128 * m * t) (pad_bytes m ?u)) = length out"
    using tm Cons.prems(2) by (intro length_go_copy) simp
  then have ih: "mt_threads unpadded (\<lambda>u p. map_option (Pair u) (pad u p)) (128 * m) ts
      (inn, go_copy out (128 * m * t) (pad_bytes m ?u)) =
      Some (inn, put_blocks pad_bytes 127 128 m inn ts (go_copy out (128 * m * t) (pad_bytes m ?u)))"
    using Cons by simp
  have "\<not> (127 * (m * t) > 127 * (m * t + m) \<or> 127 * (m * t + m) > length inn \<or> 128 * m * t + 128 * m > length out)"
    using tm assms(4) Cons.prems(2) by simp
  then show ?case
    using pd same ih unfolding mt_threads.simps Let_def u
    by (simp add: put_blocks_def mult.assoc del: of_nat_mult of_nat_add)
qed (simp add: put_blocks_def)

lemma mt_threads_unpad:
  assumes "unpadded_spec unpadded" "128 * (T * m) < 2 ^ 64" "set ts \<subseteq> {..<T}"
    and "128 * (T * m) = length inn" "length out = 127 * (T * m)"
  shows "mt_threads unpadded (\<lambda>u p. map_option (\<lambda>u'. (u', p)) (unpad u p)) (128 * m) ts (out, inn) =
    Some (put_blocks unpad_bytes 128 127 m inn ts out, inn)"
  using assms(3,5)
proof (induction ts arbitrary: out)
  case (Cons t ts)
  have "Suc t * m \<le> T * m" using Cons.prems(1) by (intro mult_le_mono1) auto
  then have tm: "m * t + m \<le> T * m" by (simp add: algebra_simps)
  have u: "unat (unpadded (of_nat (128 * m * t))) = 127 * (m * t)"
    "unat (unpadded (of_nat (128 * m * t + 128 * m))) = 127 * (m * t + m)"
    using unat_unpadded [OF assms(1), of "m * t"] unat_unpadded [OF assms(1), of "m * t + m"] tm assms(2)
    by (simp_all add: algebra_simps del: of_nat_mult of_nat_add)
  let ?u = "take (127 * m) (drop (127 * (m * t)) out)" and ?i = "take (128 * m) (drop (128 * m * t) inn)"
  have l: "length ?u = 127 * m" "length ?i = 128 * m" using tm assms(4) Cons.prems(2) by simp_all
  have pd: "unpad ?u ?i = Some (unpad_bytes m ?i)" using unpad_eq [of ?i ?u] l by simp
  have same: "go_copy inn (128 * m * t) ?i = inn"
    unfolding go_copy_def l by (metis add.commute append_take_drop_id drop_drop)
  have "length (go_copy out (127 * (m * t)) (unpad_bytes m ?i)) = length out"
    using tm Cons.prems(2) by (intro length_go_copy) simp
  then have ih: "mt_threads unpadded (\<lambda>u p. map_option (\<lambda>u'. (u', p)) (unpad u p)) (128 * m) ts
      (go_copy out (127 * (m * t)) (unpad_bytes m ?i), inn) =
      Some (put_blocks unpad_bytes 128 127 m inn ts (go_copy out (127 * (m * t)) (unpad_bytes m ?i)), inn)"
    using Cons by simp
  have "\<not> (127 * (m * t) > 127 * (m * t + m) \<or> 127 * (m * t + m) > length out \<or> 128 * m * t + 128 * m > length inn)"
    using tm assms(4) Cons.prems(2) by simp
  then show ?case
    using pd same ih unfolding mt_threads.simps Let_def u
    by (simp add: put_blocks_def mult.assoc del: of_nat_mult of_nat_add)
qed (simp add: put_blocks_def)


section \<open>Even splits\<close>

text \<open>
  The number of chunks of a buffer that is not split, or is split evenly: a power of two is split into
  equal parts of whole chunks, whatever the number of processors.
\<close>

definition splits_evenly :: "nat \<Rightarrow> bool" where
  "splits_evenly n \<longleftrightarrow> 128 * n \<le> MTTresh \<or> (\<exists>i. n = 2 ^ i \<and> i + 7 < 64)"

lemma mtChunkCount_pow: "\<exists>i \<le> 5. mtChunkCount ncpu (2 ^ k) = 2 ^ i"
proof -
  let ?t = "if (2 :: nat) ^ k div MTTresh > ncpu then 2 ^ Len32 ncpu else 2 ^ k div MTTresh"
  have m: "MTTresh = 2 ^ 25" by (simp add: MTTresh_def)
  have "?t = 0 \<or> (\<exists>i. ?t = 2 ^ i)"
  proof (cases "25 \<le> k")
    case True
    then have "(2 :: nat) ^ k div MTTresh = 2 ^ (k - 25)" unfolding m by (simp only: power_diff)
    then show ?thesis by auto
  next
    case False
    then have "(2 :: nat) ^ k < 2 ^ 25" by (intro power_strict_increasing) auto
    then show ?thesis unfolding m by simp
  qed
  then obtain t where t: "t = ?t" "t = 0 \<or> (\<exists>i. t = 2 ^ i)" by blast
  have c: "mtChunkCount ncpu (2 ^ k) = (if t = 0 then 1 else if t > 32 then 32 else t)"
    unfolding t(1) by (simp only: mtChunkCount_def Let_def)
  consider "t = 0" | "32 < t" | i where "t = 2 ^ i" "t \<le> 32" using t(2) not_less [of 32 t] by blast
  then show ?thesis
  proof cases
    case 3
    then have "i \<le> 5" using power_le_imp_le_exp [of "2 :: nat" i 5] by simp
    then show ?thesis using 3 c by (intro exI [of _ i]) simp
  qed (use c in \<open>auto intro: exI [of _ 0] exI [of _ 5]\<close>)
qed

lemma even_split:
  assumes "splits_evenly n" "128 * n > MTTresh" "T = mtChunkCount ncpu (128 * n)"
  shows "\<exists>m > 0. n = T * m \<and> 128 * n div T = 128 * m" "0 < T" "128 * n < 2 ^ 64"
proof -
  obtain i where i: "n = 2 ^ i" "i + 7 < 64" using assms(1,2) by (auto simp: splits_evenly_def)
  then have p: "128 * n = 2 ^ (7 + i)" by (simp add: power_add)
  obtain l where l: "l \<le> 5" "T = 2 ^ l" using mtChunkCount_pow [of ncpu "7 + i"] unfolding assms(3) p by blast
  have "(2 :: nat) ^ 25 < 2 ^ (7 + i)" using assms(2) p by (simp add: MTTresh_def)
  then have "25 < 7 + i" by (rule power_less_imp_less_exp [rotated]) simp
  then have "n = T * 2 ^ (i - l)" using i l by (simp flip: power_add)
  then show "\<exists>m > 0. n = T * m \<and> 128 * n div T = 128 * m" using l by (intro exI [of _ "2 ^ (i - l)"]) simp
  show "0 < T" using l by simp
  show "128 * n < 2 ^ 64" unfolding p using i(2) by (intro power_strict_increasing) auto
qed

text \<open>Any schedule runs every thread once.\<close>

definition schedules :: "(nat \<Rightarrow> nat list) \<Rightarrow> bool" where
  "schedules sched \<longleftrightarrow> (\<forall>n. mset (sched n) = mset [0..<n])"

lemma set_sched: "schedules sched \<Longrightarrow> set (sched n) = {..<n}"
  unfolding schedules_def by (metis atLeast_upt mset_eq_setD)

lemma Pad_bytes:
  assumes "unpadded_spec unpadded" "schedules sched" "splits_evenly n" "length inn = 127 * n" "length out = 128 * n"
  shows "Pad unpadded ncpu sched inn out = Some (pad_bytes n inn)"
proof (cases "128 * n > MTTresh")
  case True
  define T where "T = mtChunkCount ncpu (128 * n)"
  obtain m where m: "0 < m" "n = T * m" "128 * n div T = 128 * m" using even_split(1) [OF assms(3) True T_def] by auto
  have "mt_threads unpadded (\<lambda>u p. map_option (Pair u) (pad u p)) (128 * m) (sched T) (inn, out) =
      Some (inn, put_blocks pad_bytes 127 128 m inn (sched T) out)"
    by (rule mt_threads_pad [OF assms(1)])
      (use even_split(3) [OF assms(3) True T_def] m assms(4,5) set_sched [OF assms(2)] in auto)
  moreover have "put_blocks pad_bytes 127 128 m inn (sched T) out = pad_bytes n inn"
    unfolding m(2) by (rule padding.put_blocks_all) (use m assms(4,5) set_sched [OF assms(2)] in auto)
  ultimately show ?thesis
    using True assms(5) m(3) by (simp add: Pad_def mt_def Let_def T_def [symmetric])
next
  case False
  then show ?thesis using assms(4,5) pad_eq [of out inn] by (simp add: Pad_def)
qed

lemma Unpad_bytes:
  assumes "unpadded_spec unpadded" "schedules sched" "splits_evenly n" "length inn = 128 * n" "length out = 127 * n"
  shows "Unpad unpadded ncpu sched inn out = Some (unpad_bytes n inn)"
proof (cases "128 * n > MTTresh")
  case True
  define T where "T = mtChunkCount ncpu (128 * n)"
  obtain m where m: "0 < m" "n = T * m" "128 * n div T = 128 * m" using even_split(1) [OF assms(3) True T_def] by auto
  have "mt_threads unpadded (\<lambda>u p. map_option (\<lambda>u'. (u', p)) (unpad u p)) (128 * m) (sched T) (out, inn) =
      Some (put_blocks unpad_bytes 128 127 m inn (sched T) out, inn)"
    by (rule mt_threads_unpad [OF assms(1)])
      (use even_split(3) [OF assms(3) True T_def] m assms(4,5) set_sched [OF assms(2)] in auto)
  moreover have "put_blocks unpad_bytes 128 127 m inn (sched T) out = unpad_bytes n inn"
    unfolding m(2) by (rule unpadding.put_blocks_all) (use m assms(4,5) set_sched [OF assms(2)] in auto)
  ultimately show ?thesis
    using True assms(4) m(3) by (simp add: Unpad_def mt_def Let_def T_def [symmetric])
next
  case False
  then show ?thesis using assms(4,5) unpad_eq [of inn out] by (simp add: Unpad_def)
qed

section \<open>Properties\<close>

text \<open>
  C31. Splitting the work among threads changes nothing: for a buffer whose number of chunks is a power
  of two, or that is not split at all, \<open>Pad\<close> and \<open>Unpad\<close> return what the single-threaded loops return, for
  every number of processors and every order in which the threads run.
\<close>

theorem parallel_padding_equals_sequential:
  assumes "unpadded_spec unpadded" "schedules sched" "splits_evenly n" "length data = 127 * n" "length padded = 128 * n"
  shows "Pad unpadded ncpu sched data padded = pad data padded \<and>
    Unpad unpadded ncpu sched padded data = unpad data padded"
  using Pad_bytes [OF assms] Unpad_bytes [OF assms(1-3,5,4)] pad_eq [of padded data] unpad_eq [of padded data] assms(4,5)
  by simp

theorem parallel_padding_equals_sequential_witness:
  "Pad (\<lambda>s. s - s div 128) 8 (\<lambda>n. rev [0..<n]) (replicate (127 * 2 ^ 20) 7) (replicate (128 * 2 ^ 20) 0) =
   pad (replicate (127 * 2 ^ 20) 7) (replicate (128 * 2 ^ 20) 0)"
proof (rule parallel_padding_equals_sequential [where n = "2 ^ 20", THEN conjunct1])
  show "splits_evenly (2 ^ 20)" unfolding splits_evenly_def by (rule disjI2, rule exI [of _ 20]) simp
qed (simp_all only: unpadded_spec_def schedules_def length_replicate mset_rev simp_thms)

text \<open>
  C32. Padding and unpadding invert each other: for data of such a size, \<open>Pad\<close> succeeds and \<open>Unpad\<close> of
  its result is the data, whatever the target buffers held before, the numbers of processors and the
  schedules.
\<close>

theorem unpad_inverts_pad:
  assumes "unpadded_spec unpadded" "schedules sched" "schedules sched'" "splits_evenly n"
    and "length data = 127 * n" "length buf = 128 * n" "length out = 127 * n"
  shows "\<exists>padded. Pad unpadded ncpu sched data buf = Some padded \<and> Unpad unpadded ncpu' sched' padded out = Some data"
  using Pad_bytes [OF assms(1,2,4,5,6)] Unpad_bytes [OF assms(1,3,4) _ assms(7)] unpad_pad_bytes [of n data] assms(5)
  by simp

theorem unpad_inverts_pad_witness:
  "\<exists>padded. Pad (\<lambda>s. s - s div 128) 8 (\<lambda>n. [0..<n]) (replicate 254 7) (replicate 256 0) = Some padded \<and>
    Unpad (\<lambda>s. s - s div 128) 4 (\<lambda>n. rev [0..<n]) padded (replicate 254 0) = Some (replicate 254 7)"
  by (rule unpad_inverts_pad [where n = 2])
    (simp_all add: unpadded_spec_def schedules_def splits_evenly_def MTTresh_def)

end
