(* ===== verification/Fr32_Streams.thy ===== *)
theory Fr32_Streams
  imports Fr32_Parallel
begin

text \<open>
  \<^verbatim>\<open>extern/sector-storage/fr32/utils.go\<close> and \<^verbatim>\<open>readers.go\<close>: the stream writer that pads what is written to
  it and the stream reader that unpads what it reads. The underlying \<^verbatim>\<open>io.Writer\<close> and \<^verbatim>\<open>io.Reader\<close> are
  parameters: functions from a state and a request to the new state and the outcome; a nil writer is
  \<open>None\<close>. \<open>padded\<close>, \<open>unpadded\<close> and \<open>validate\<close> are \<^verbatim>\<open>UnpaddedPieceSize.Padded\<close>, \<^verbatim>\<open>PaddedPieceSize.Unpadded\<close> and
  \<^verbatim>\<open>PaddedPieceSize.Validate\<close>. A run-time panic is \<open>None\<close>, as is a loop that does not end; that the loop of
  \<open>Write\<close> ends is part of the properties.
\<close>

section \<open>\<open>utils.go\<close>\<close>

text \<open>The loop is the one of \<open>fillersFromRem\<close>.\<close>

definition subPieces :: "(u64 \<Rightarrow> u64) \<Rightarrow> (u64 \<Rightarrow> u64) \<Rightarrow> u64 \<Rightarrow> u64 list" where
  "subPieces padded unpadded inn = (let w = padded inn in fillers_loop unpadded (OnesCount64 w) w)"

section \<open>\<open>padWriter\<close>\<close>

text \<open>\<open>work\<close> is the whole backing array of the slice, so its length is \<^verbatim>\<open>cap(w.work)\<close>.\<close>

record 'd padWriter =
  dst :: "'d option"
  stash :: bytes
  work :: bytes

type_synonym 'd io_writer = "'d \<Rightarrow> bytes \<Rightarrow> 'd \<times> nat \<times> gerr option"

record fr32_env =
  Padded_of :: "u64 \<Rightarrow> u64"
  Unpadded_of :: "u64 \<Rightarrow> u64"
  Validate_of :: "u64 \<Rightarrow> gerr option"
  NumCPU :: nat
  Sched :: "nat \<Rightarrow> nat list"

definition NewPadWriter :: "'d \<Rightarrow> 'd padWriter" where
  "NewPadWriter d = \<lparr>dst = Some d, stash = [], work = []\<rparr>"

partial_function (option) write_loop ::
  "fr32_env \<Rightarrow> 'd io_writer \<Rightarrow> nat \<Rightarrow> bytes \<Rightarrow> 'd padWriter \<Rightarrow> (nat \<times> gerr option \<times> 'd padWriter) option" where
  "write_loop env wr lenp inn w =
    (let pieces = subPieces (Padded_of env) (Unpadded_of env) (of_nat (length inn)) in
     if pieces = [] then None
     else
       let biggest = last pieces; pad_len = unat (Padded_of env biggest);
           w = (if length (work w) < pad_len then w\<lparr>work := replicate pad_len 0\<rparr> else w)
       in if length inn < unat biggest then None
       else
         (case Pad (Unpadded_of env) (NumCPU env) (Sched env) (take (unat biggest) inn) (take pad_len (work w)) of
            None \<Rightarrow> None
          | Some out \<Rightarrow>
              (let w = w\<lparr>work := go_copy (work w) 0 out\<rparr> in
               case dst w of
                 None \<Rightarrow> None
               | Some d \<Rightarrow>
                   (case wr d (take pad_len (work w)) of
                      (d, n, Some err) \<Rightarrow> Some (unat (Unpadded_of env (of_nat n)), Some err, w\<lparr>dst := Some d\<rparr>)
                    | (d, n, None) \<Rightarrow>
                        (let w = w\<lparr>dst := Some d\<rparr>; inn = drop (unat biggest) inn in
                         if length inn < 127 then Some (lenp, None, w\<lparr>stash := inn\<rparr>)
                         else write_loop env wr lenp inn w)))))"

definition Write :: "fr32_env \<Rightarrow> 'd io_writer \<Rightarrow> 'd padWriter \<Rightarrow> bytes \<Rightarrow> (nat \<times> gerr option \<times> 'd padWriter) option" where
  "Write env wr w p =
    (if length p + length (stash w) < 127 then Some (length p, None, w\<lparr>stash := stash w @ p\<rparr>)
     else write_loop env wr (length p) (if stash w \<noteq> [] then stash w @ p else p) w)"

definition Close_padWriter :: "'d padWriter \<Rightarrow> gerr option \<times> 'd padWriter" where
  "Close_padWriter w =
    (if length (stash w) > 0 then (Some ''still have unprocessed bytes'', w)
     else (None, w\<lparr>stash := [], work := [], dst := None\<rparr>))"

section \<open>\<open>unpadReader\<close>\<close>

datatype io_err = EOF | ReadErr gerr

type_synonym 's io_reader = "'s \<Rightarrow> nat \<Rightarrow> 's \<times> bytes \<times> io_err option"

record 's unpadReader =
  src :: 's
  left :: u64
  rwork :: bytes

definition NewUnpadReader :: "fr32_env \<Rightarrow> 's \<Rightarrow> u64 \<Rightarrow> gerr + 's unpadReader" where
  "NewUnpadReader env s sz =
    (case Validate_of env sz of
       Some err \<Rightarrow> Inl (Errorf ''bad piece size'' err)
     | None \<Rightarrow> Inr \<lparr>src = s, left = sz, rwork = replicate (MTTresh * mtChunkCount (NumCPU env) (unat sz)) 0\<rparr>)"

text \<open>\<^verbatim>\<open>1 << (63 - bits.LeadingZeros64(x))\<close>; the shift count is negative for 0, a run-time panic.\<close>

definition floor_pow2 :: "nat \<Rightarrow> nat option" where
  "floor_pow2 x = (if x = 0 then None else Some (2 ^ (bit_len x - 1)))"

text \<open>
  \<open>Read\<close> returns the number of bytes, the error and the bytes of \<open>out\<close> afterwards. A source that
  returns more bytes than it was asked for breaks the contract of \<^verbatim>\<open>io.Reader\<close>.
\<close>

definition Read ::
  "fr32_env \<Rightarrow> 's io_reader \<Rightarrow> 's unpadReader \<Rightarrow> bytes \<Rightarrow> (nat \<times> io_err option \<times> bytes \<times> 's unpadReader) option" where
  "Read env rd r out =
    (if left r = 0 then Some (0, Some EOF, out, r)
     else
       let chunks = length out div 127 in
       case floor_pow2 (chunks * 128) of
         None \<Rightarrow> None
       | Some outTwoPow \<Rightarrow>
           (case Validate_of env (of_nat outTwoPow) of
              Some err \<Rightarrow> Some (0, Some (ReadErr (Errorf ''output must be of valid padded piece size'' err)), out, r)
            | None \<Rightarrow>
                (case (if unat (left r) < outTwoPow then floor_pow2 (unat (left r)) else Some outTwoPow) of
                   None \<Rightarrow> None
                 | Some todo \<Rightarrow>
                     (let r = r\<lparr>left := left r - of_nat todo\<rparr> in
                      if length (rwork r) < todo then None
                      else
                        (case rd (src r) todo of
                           (s, bs, err) \<Rightarrow>
                             (let n = length bs; r = r\<lparr>src := s, rwork := go_copy (rwork r) 0 bs\<rparr> in
                              if err \<noteq> None \<and> err \<noteq> Some EOF then Some (n, err, out, r)
                              else if n \<noteq> todo then
                                Some (0, Some (ReadErr (Errorf ''didn't read enough'' (case err of None \<Rightarrow> ''nil'' | _ \<Rightarrow> ''EOF''))), out, r)
                              else
                                let ulen = unat (Unpadded_of env (of_nat todo)) in
                                if length out < ulen then None
                                else
                                  (case Unpad (Unpadded_of env) (NumCPU env) (Sched env) (take todo (rwork r)) (take ulen out) of
                                     None \<Rightarrow> None
                                   | Some u \<Rightarrow> Some (ulen, err, go_copy out 0 u, r))))))))"


section \<open>The biggest sub-piece\<close>

text \<open>The documented behaviour of the piece sizes and of the scheduler.\<close>

definition fr32_ok :: "fr32_env \<Rightarrow> bool" where
  "fr32_ok env \<longleftrightarrow> unpadded_spec (Unpadded_of env) \<and> (\<forall>u. Padded_of env u = u + u div 127) \<and>
     (\<forall>s. Validate_of env s = None \<longleftrightarrow> 128 \<le> s \<and> (\<exists>i. s = push_bit i 1)) \<and> schedules (Sched env)"

lemma top_bit:
  assumes "0 < unat w"
  shows "set_bits w \<noteq> [] \<and> last (set_bits w) < 64 \<and>
    2 ^ last (set_bits w) \<le> unat w \<and> unat w < 2 ^ Suc (last (set_bits w))"
proof -
  obtain i where i: "2 ^ i \<le> unat w" "unat w < 2 ^ Suc i"
    using ex_power_ivl1 [of 2 "unat w"] assms by auto
  have i64: "i < 64"
    using power_less_imp_less_exp [of 2 i 64] order_le_less_trans [OF i(1) unat_lt_64] by simp
  have "unat w div 2 ^ i = 1" using i by (intro div_nat_eqI) auto
  then have "bit (unat w) i" by (simp add: bit_iff_odd)
  then have b: "bit w i" by (simp add: bit_unsigned_iff)
  have no: "\<not> bit w k" if "i < k" for k
  proof -
    have "unat w < 2 ^ k" using i(2) power_increasing [of "Suc i" k "2 :: nat"] that by simp
    then have "unat w div 2 ^ k = 0" by simp
    then have "\<not> bit (unat w) k" by (simp add: bit_iff_odd)
    then show ?thesis by (auto simp: bit_unsigned_iff dest: bit_imp_le_length)
  qed
  have "[0..<64] = [0..<i] @ [i] @ [Suc i..<64]"
    using i64 upt_add_eq_append [of 0 i "64 - i"] upt_conv_Cons [of i 64] by simp
  then have "set_bits w = filter (bit w) [0..<i] @ [i]"
    using b no by (simp add: filter_empty_conv)
  then show ?thesis using i i64 by simp
qed

lemma biggest_piece:
  assumes "fr32_ok env" "127 \<le> length inn" "length inn < 2 ^ 62"
  shows "\<exists>i. let pieces = subPieces (Padded_of env) (Unpadded_of env) (of_nat (length inn)) in
    pieces \<noteq> [] \<and> unat (last pieces) = 127 * 2 ^ i \<and> unat (Padded_of env (last pieces)) = 128 * 2 ^ i \<and>
    2 ^ i \<le> length inn div 127 \<and> i + 7 < 64"
proof -
  let ?L = "length inn"
  let ?pieces = "subPieces (Padded_of env) (Unpadded_of env) (of_nat ?L)"
  define w where "w = Padded_of env (of_nat ?L)"
  have L: "unat (of_nat ?L :: u64) = ?L" using assms(3) by (intro unat_of_nat_64) simp
  have "?L + ?L div 127 < 2 ^ 64" using assms(3) div_le_dividend [of ?L 127] by simp
  then have w: "unat w = ?L + ?L div 127"
    using assms(1) L unfolding w_def fr32_ok_def by (simp add: unat_word_ariths unat_div)
  have w0: "0 < unat w" using w assms(2) by linarith
  define k where "k = last (set_bits w)"
  have k: "set_bits w \<noteq> []" "k < 64" "2 ^ k \<le> unat w" "unat w < 2 ^ Suc k"
    using top_bit [OF w0] unfolding k_def by blast+
  have "2 ^ 7 < (2 :: nat) ^ Suc k" using k(4) w assms(2) by simp
  then have "7 \<le> k" by (metis Suc_leI less_Suc_eq_le nat_power_less_imp_less zero_less_numeral)
  then obtain i where i: "k = i + 7" by (metis le_add_diff_inverse2)
  have "?pieces = map (\<lambda>i. Unpadded_of env (push_bit i 1)) (set_bits w)"
    unfolding subPieces_def Let_def w_def [symmetric] by (rule fillers_loop_eq) (simp add: OnesCount64_def)
  then have last: "last ?pieces = Unpadded_of env (push_bit k 1)" and ne: "?pieces \<noteq> []"
    using k(1) by (simp_all add: last_map k_def del: push_bit_of_1)
  have "128 * unat (last ?pieces) = 127 * 2 ^ k"
    unfolding last using assms(1) \<open>7 \<le> k\<close> k(2) unat_unpadded_pow unfolding fr32_ok_def by blast
  then have b: "unat (last ?pieces) = 127 * 2 ^ i" by (simp add: i power_add)
  have i57: "i + 7 < 64" using k(2) i by simp
  then have "(2 :: nat) ^ (i + 7) < 2 ^ 64" by (intro power_strict_increasing) auto
  then have "unat (last ?pieces + last ?pieces div 127) = 128 * 2 ^ i"
    using b by (simp add: unat_word_ariths unat_div power_add)
  moreover have "2 ^ i \<le> ?L div 127"
  proof -
    define q where "q = ?L div 127"
    have "?L = 127 * q + ?L mod 127" "?L mod 127 < 127" unfolding q_def by simp_all
    moreover have "128 * 2 ^ i \<le> ?L + q" using k(3) w i by (simp add: power_add q_def)
    ultimately show ?thesis unfolding q_def [symmetric] by linarith
  qed
  ultimately show ?thesis
    using assms(1) ne b i57 unfolding fr32_ok_def by (intro exI [of _ i]) (simp add: Let_def)
qed


section \<open>Writing\<close>

text \<open>A writer that takes everything; \<open>cont\<close> is what it has taken.\<close>

definition takes_all :: "'d io_writer \<Rightarrow> ('d \<Rightarrow> bytes) \<Rightarrow> bool" where
  "takes_all wr cont \<longleftrightarrow> (\<forall>d b. \<exists>d'. wr d b = (d', length b, None) \<and> cont d' = cont d @ b)"

lemma pad_bytes_split:
  assumes "c \<le> m" "127 * c \<le> length inn"
  shows "pad_bytes m inn = pad_bytes c (take (127 * c) inn) @ pad_bytes (m - c) (drop (127 * c) inn)"
  using padding.f_append [of "take (127 * c) inn" c "m - c" "drop (127 * c) inn"] assms by simp

lemma unpad_bytes_split:
  assumes "c \<le> m" "128 * c \<le> length inn"
  shows "unpad_bytes m inn = unpad_bytes c (take (128 * c) inn) @ unpad_bytes (m - c) (drop (128 * c) inn)"
  using unpadding.f_append [of "take (128 * c) inn" c "m - c" "drop (128 * c) inn"] assms by simp

lemma write_loop_pads:
  assumes "fr32_ok env" "takes_all wr cont" "127 \<le> length inn" "length inn < 2 ^ 62" "dst w = Some d"
  shows "\<exists>w' d'. write_loop env wr lenp inn w = Some (lenp, None, w') \<and> dst w' = Some d' \<and>
    cont d' = cont d @ pad_bytes (length inn div 127) inn \<and> stash w' = drop (127 * (length inn div 127)) inn"
  using assms(3-5)
proof (induction "length inn" arbitrary: inn w d rule: less_induct)
  case less
  let ?m = "length inn div 127"
  let ?pieces = "subPieces (Padded_of env) (Unpadded_of env) (of_nat (length inn))"
  obtain i where p: "?pieces \<noteq> []" "unat (last ?pieces) = 127 * 2 ^ i" "unat (Padded_of env (last ?pieces)) = 128 * 2 ^ i"
    "2 ^ i \<le> ?m" "i + 7 < 64"
    using biggest_piece [OF assms(1) less.prems(1,2)] by (auto simp: Let_def)
  define c :: nat where "c = 2 ^ i"
  note p = p [folded c_def]
  have "127 * c \<le> 127 * ?m" using p(4) by simp
  then have c: "127 * c \<le> length inn" "0 < c" "\<not> length inn < 127 * c" using div_times_less_eq_dividend [of "length inn" 127] by (simp_all add: c_def)
  define w1 where "w1 = (if length (work w) < 128 * c then w\<lparr>work := replicate (128 * c) 0\<rparr> else w)"
  have w1: "dst w1 = Some d" "128 * c \<le> length (work w1)" using less.prems(3) by (auto simp: w1_def)
  let ?in1 = "take (127 * c) inn" and ?rest = "drop (127 * c) inn"
  have pad1: "Pad (Unpadded_of env) (NumCPU env) (Sched env) ?in1 (take (128 * c) (work w1)) = Some (pad_bytes c ?in1)"
    by (rule Pad_bytes) (use assms(1) c w1(2) p(5) in \<open>auto simp: fr32_ok_def splits_evenly_def c_def\<close>)
  define w2 where "w2 = w1\<lparr>work := go_copy (work w1) 0 (pad_bytes c ?in1)\<rparr>"
  have tk: "take (128 * c) (work w2) = pad_bytes c ?in1" by (simp add: w2_def go_copy_def)
  obtain d1 where d1: "wr d (pad_bytes c ?in1) = (d1, length (pad_bytes c ?in1), None)" "cont d1 = cont d @ pad_bytes c ?in1"
    using assms(2) unfolding takes_all_def by blast
  have w2: "dst w2 = Some d" using w1(1) by (simp add: w2_def)
  define w3 where "w3 = w2\<lparr>dst := Some d1\<rparr>"
  have step: "write_loop env wr lenp inn w =
      (if length ?rest < 127 then Some (lenp, None, w3\<lparr>stash := ?rest\<rparr>) else write_loop env wr lenp ?rest w3)"
    using w2 unfolding write_loop.simps [of env wr lenp inn w] Let_def if_not_P [OF p(1)] p(2,3) w1_def [symmetric]
      if_not_P [OF c(3)] pad1 option.case w2_def [symmetric] tk
    by (simp add: d1(1) w3_def)
  show ?case
  proof (cases "length ?rest < 127")
    case True
    have "length inn - 127 * c < 127" using True by simp
    then have "?m = c" using c(1) p(4) by (intro antisym) (auto simp: less_mult_imp_div_less less_Suc_eq_le [symmetric])
    then show ?thesis using True step d1(2) by (simp add: w3_def padding.f_take)
  next
    case False
    then have f: "127 \<le> length ?rest" "length ?rest < length inn" "length ?rest < 2 ^ 62" "dst w3 = Some d1"
      using c less.prems(2) by (auto simp: w3_def)
    have m: "length ?rest div 127 = ?m - c" by (simp add: div_mult_self4 [symmetric])
    obtain w' d' where r: "write_loop env wr lenp ?rest w3 = Some (lenp, None, w')" "dst w' = Some d'"
      "cont d' = cont d1 @ pad_bytes (?m - c) ?rest" "stash w' = drop (127 * (?m - c)) ?rest"
      using less.hyps [OF f(2,1,3,4)] unfolding m by blast
    have "127 * (?m - c) + 127 * c = 127 * ?m" using p(4) by (simp flip: distrib_left)
    then show ?thesis using r step False d1(2) pad_bytes_split [OF p(4) c(1)] by simp
  qed
qed


text \<open>
  What a padding writer has taken is data: whole chunks of it are padded and in the writer below,
  the rest is in the stash.
\<close>

definition pad_state :: "('d \<Rightarrow> bytes) \<Rightarrow> bytes \<Rightarrow> bytes \<Rightarrow> 'd padWriter \<Rightarrow> bool" where
  "pad_state cont before data w \<longleftrightarrow> (\<exists>d. dst w = Some d \<and>
     cont d = before @ pad_bytes (length data div 127) data \<and> stash w = drop (127 * (length data div 127)) data)"

lemma pad_bytes_prefix: "127 * n \<le> length x \<Longrightarrow> pad_bytes n (x @ y) = pad_bytes n x"
  by (metis append_eq_conv_conj padding.f_take take_append diff_is_0_eq take0 append_Nil2)

lemma Write_pads:
  assumes "fr32_ok env" "takes_all wr cont" "pad_state cont before data w" "length p < 2 ^ 61"
  shows "\<exists>w'. Write env wr w p = Some (length p, None, w') \<and> pad_state cont before (data @ p) w'"
proof -
  let ?k = "length data div 127"
  obtain d where d: "dst w = Some d" "cont d = before @ pad_bytes ?k data" "stash w = drop (127 * ?k) data"
    using assms(3) by (auto simp: pad_state_def)
  let ?in = "stash w @ p"
  have st: "length (stash w) = length data mod 127" using d(3) by (simp add: minus_mult_div_eq_mod)
  have len: "length (data @ p) = 127 * ?k + length ?in" using st by simp
  then have div: "length (data @ p) div 127 = ?k + length ?in div 127" by simp
  have dr: "drop (127 * ?k) (data @ p) = ?in" using d(3) by simp
  have k: "127 * ?k \<le> length (data @ p)" unfolding len by simp
  show ?thesis
  proof (cases "length p + length (stash w) < 127")
    case True
    then have "length ?in div 127 = 0" by simp
    then have "pad_state cont before (data @ p) (w\<lparr>stash := ?in\<rparr>)"
      using d dr by (simp add: pad_state_def div pad_bytes_prefix del: length_append)
    then show ?thesis using True by (simp add: Write_def)
  next
    case False
    have "length (stash w) < 127" using st by simp
    then have "127 \<le> length ?in" "length ?in < 2 ^ 62" using False assms(4) by auto
    then obtain w' d' where w': "write_loop env wr (length p) ?in w = Some (length p, None, w')" "dst w' = Some d'"
      "cont d' = cont d @ pad_bytes (length ?in div 127) ?in" "stash w' = drop (127 * (length ?in div 127)) ?in"
      using write_loop_pads [OF assms(1,2) _ _ d(1)] by blast
    have "pad_bytes (?k + length ?in div 127) (data @ p) = pad_bytes ?k data @ pad_bytes (length ?in div 127) ?in"
      using pad_bytes_split [of ?k "?k + length ?in div 127" "data @ p"] dr k
      by (simp add: padding.f_take del: length_append)
    moreover have "drop (127 * (?k + length ?in div 127)) (data @ p) = drop (127 * (length ?in div 127)) ?in"
      unfolding dr [symmetric] drop_drop by (simp only: distrib_left add.commute)
    ultimately have "pad_state cont before (data @ p) w'" using w'(2-4) d(2) by (simp add: pad_state_def div del: length_append)
    moreover have "(if stash w \<noteq> [] then ?in else p) = ?in" by simp
    ultimately show ?thesis using False w'(1) by (simp add: Write_def)
  qed
qed

text \<open>A client that writes several slices, and stops when a write fails or is short.\<close>

fun write_all :: "fr32_env \<Rightarrow> 'd io_writer \<Rightarrow> 'd padWriter \<Rightarrow> bytes list \<Rightarrow> 'd padWriter option" where
  "write_all env wr w [] = Some w"
| "write_all env wr w (p # ps) =
    (case Write env wr w p of
       Some (n, None, w') \<Rightarrow> if n = length p then write_all env wr w' ps else None
     | _ \<Rightarrow> None)"

lemma write_all_pads:
  assumes "fr32_ok env" "takes_all wr cont" "pad_state cont before data w" "\<forall>p \<in> set ps. length p < 2 ^ 61"
  shows "\<exists>w'. write_all env wr w ps = Some w' \<and> pad_state cont before (data @ concat ps) w'"
  using assms(3,4)
proof (induction ps arbitrary: data w)
  case (Cons p ps)
  then obtain w1 where w1: "Write env wr w p = Some (length p, None, w1)" "pad_state cont before (data @ p) w1"
    using Write_pads [OF assms(1,2)] by fastforce
  then show ?case using Cons.IH [OF w1(2)] Cons.prems(2) by simp
qed simp

section \<open>Reading\<close>

text \<open>
  A source that delivers as many bytes as it is asked for while it has them; \<open>cont\<close> is what is left
  in it. It may return \<open>EOF\<close> with its last bytes.
\<close>

definition delivers :: "'s io_reader \<Rightarrow> ('s \<Rightarrow> bytes) \<Rightarrow> bool" where
  "delivers rd cont \<longleftrightarrow> (\<forall>s n. n \<le> length (cont s) \<longrightarrow>
     (\<exists>s' e. rd s n = (s', take n (cont s), e) \<and> cont s' = drop n (cont s) \<and> (e = None \<or> e = Some EOF)))"

lemma bit_len_bounds: "0 < x \<Longrightarrow> 2 ^ (bit_len x - 1) \<le> x \<and> x < 2 * 2 ^ (bit_len x - 1) \<and> 0 < bit_len x"
proof (induction x rule: bit_len.induct)
  case (1 n)
  show ?case
  proof (cases "n div 2 = 0")
    case True
    then have "n = 1" using 1(2) by auto
    then show ?thesis by (simp add: bit_len.simps)
  next
    case False
    then have ih: "2 ^ (bit_len (n div 2) - 1) \<le> n div 2" "n div 2 < 2 * 2 ^ (bit_len (n div 2) - 1)" "0 < bit_len (n div 2)"
      using 1 by auto
    have b: "bit_len n = Suc (bit_len (n div 2))" using 1(2) by (subst bit_len.simps) simp
    obtain l where l: "bit_len (n div 2) = Suc l" using ih(3) gr0_implies_Suc by blast
    show ?thesis using ih unfolding b l by simp linarith
  qed
qed

text \<open>The largest power of two chunks below \<open>c\<close> chunks.\<close>

lemma floor_pow2_chunks:
  assumes "0 < c"
  shows "\<exists>i. floor_pow2 (128 * c) = Some (128 * 2 ^ i) \<and> 2 ^ i \<le> c \<and> c < 2 * 2 ^ i"
proof -
  let ?l = "bit_len (128 * c)"
  have b: "2 ^ (?l - 1) \<le> 128 * c" "128 * c < 2 * 2 ^ (?l - 1)" using bit_len_bounds [of "128 * c"] assms by auto
  have "2 ^ 7 < (2 :: nat) ^ Suc (?l - 1)" using b(2) assms by simp
  then have "7 < Suc (?l - 1)" by (rule power_less_imp_less_exp [rotated]) simp
  then obtain i where i: "?l - 1 = i + 7" by (metis less_Suc_eq_le le_add_diff_inverse2)
  then show ?thesis using b assms by (intro exI [of _ i]) (simp add: floor_pow2_def power_add)
qed


lemma valid_size:
  assumes "fr32_ok env" "i + 7 < 64"
  shows "Validate_of env (of_nat (128 * 2 ^ i)) = None"
proof -
  have "push_bit (i + 7) (1 :: u64) = of_nat (128 * 2 ^ i)"
    by (simp add: push_bit_eq_mult power_add mult.commute)
  moreover have "unat (of_nat (128 * 2 ^ i) :: u64) = 128 * 2 ^ i"
    using power_strict_increasing [of "i + 7" 64 "2 :: nat"] assms(2) by (intro unat_of_nat_64) (simp add: power_add)
  then have "128 \<le> (of_nat (128 * 2 ^ i) :: u64)" by (simp add: word_le_nat_alt del: of_nat_mult of_nat_power)
  ultimately show ?thesis using assms(1) unfolding fr32_ok_def by metis
qed

lemma Read_unpads:
  assumes "fr32_ok env" "delivers rd cont" "left r = of_nat (128 * c)" "128 * c < 2 ^ 64" "0 < c"
    and "128 * c \<le> length (cont (src r))" "MTTresh \<le> length (rwork r)" "127 \<le> length out" "length out \<le> 127 * 2 ^ 18"
  shows "\<exists>t e r'. 0 < t \<and> t \<le> c \<and> 127 * t \<le> length out \<and> (e = None \<or> e = Some EOF) \<and>
    Read env rd r out = Some (127 * t, e, unpad_bytes t (cont (src r)) @ drop (127 * t) out, r') \<and>
    left r' = of_nat (128 * (c - t)) \<and> cont (src r') = drop (128 * t) (cont (src r)) \<and>
    MTTresh \<le> length (rwork r')"
proof -
  let ?n = "length out div 127"
  have l: "unat (left r) = 128 * c" "left r \<noteq> 0"
    using assms(3-5) unat_of_nat_64 [OF assms(4)] by auto
  have "0 < ?n" using assms(8) by simp
  then obtain i where i: "floor_pow2 (128 * ?n) = Some (128 * 2 ^ i)" "2 ^ i \<le> ?n" using floor_pow2_chunks by blast
  have "?n \<le> 2 ^ 18" using assms(9) by simp
  then have i18: "(2 :: nat) ^ i \<le> 2 ^ 18" using i(2) by linarith
  then have "i \<le> 18" by (rule power_le_imp_le_exp [rotated]) simp
  obtain j where j: "(if 128 * c < 128 * 2 ^ i then floor_pow2 (128 * c) else Some (128 * 2 ^ i)) = Some (128 * 2 ^ j)"
      "2 ^ j \<le> c" "j \<le> i"
  proof (cases "c < 2 ^ i")
    case True
    obtain j where "floor_pow2 (128 * c) = Some (128 * 2 ^ j)" "2 ^ j \<le> c" using floor_pow2_chunks [OF assms(5)] by blast
    moreover from this True have "(2 :: nat) ^ j \<le> 2 ^ i" by linarith
    then have "j \<le> i" by (rule power_le_imp_le_exp [rotated]) simp
    ultimately show thesis using that [of j] True by simp
  next
    case False
    then show thesis using that [of i] by simp
  qed
  define t :: nat where "t = 2 ^ j"
  have t: "0 < t" "t \<le> c" "splits_evenly t" using j \<open>i \<le> 18\<close> by (auto simp: t_def splits_evenly_def)
  have ti: "t \<le> 2 ^ i" using j(3) by (simp add: t_def)
  then have tn: "127 * t \<le> length out" using i(2) by (metis div_times_less_eq_dividend dual_order.trans mult.commute mult_le_mono2)
  have "t \<le> 2 ^ 18" using ti i18 by linarith
  then have tw: "128 * t \<le> length (rwork r)" using assms(7) by (simp add: MTTresh_def)
  obtain s' e where s: "rd (src r) (128 * t) = (s', take (128 * t) (cont (src r)), e)" "cont s' = drop (128 * t) (cont (src r))"
      "e = None \<or> e = Some EOF"
    using assms(2,6) t(2) unfolding delivers_def by (meson le_trans mult_le_mono2)
  define d where "d = take (128 * t) (cont (src r))"
  have dl: "length d = 128 * t" using assms(6) t(2) by (simp add: d_def)
  define r' where "r' = r\<lparr>left := left r - of_nat (128 * t), src := s', rwork := go_copy (rwork r) 0 d\<rparr>"
  have u: "unat (Unpadded_of env (of_nat (128 * t))) = 127 * t"
    using assms(1,4) t(2) by (intro unat_unpadded) (auto simp: fr32_ok_def)
  have un: "Unpad (Unpadded_of env) (NumCPU env) (Sched env) d (take (127 * t) out) = Some (unpad_bytes t d)"
    by (rule Unpad_bytes) (use assms(1) t(3) dl tn in \<open>auto simp: fr32_ok_def\<close>)
  have tk: "take (128 * t) (go_copy (rwork r) 0 d) = d" using dl by (simp add: go_copy_def)
  have "Read env rd r out = Some (127 * t, e, go_copy out 0 (unpad_bytes t d), r')"
    using l(2) i(1) valid_size [OF assms(1), of i] \<open>i \<le> 18\<close> j(1) tw s(1,3) dl u tn un tk
    unfolding Read_def l(1) t_def [symmetric] d_def [symmetric] r'_def
    by (auto simp: Let_def mult.commute [of _ 128] simp del: of_nat_mult of_nat_power)
  moreover have "go_copy out 0 (unpad_bytes t d) = unpad_bytes t (cont (src r)) @ drop (127 * t) out"
    by (simp add: go_copy_def d_def unpadding.f_take)
  moreover have "left r' = of_nat (128 * (c - t))"
    using t(2) assms(3) by (simp add: r'_def of_nat_diff right_diff_distrib)
  moreover have "length (rwork r') = length (rwork r)" using tw dl by (simp add: r'_def length_go_copy)
  ultimately show ?thesis
    using t tn s(2,3) assms(7) by (intro exI [of _ t] exI [of _ e] exI [of _ r']) (simp add: r'_def)
qed

text \<open>A client that reads into several buffers.\<close>

fun read_all :: "fr32_env \<Rightarrow> 's io_reader \<Rightarrow> 's unpadReader \<Rightarrow> bytes list \<Rightarrow> bytes option" where
  "read_all env rd r [] = Some []"
| "read_all env rd r (b # bs) =
    (case Read env rd r b of
       None \<Rightarrow> None
     | Some (n, e, out, r') \<Rightarrow>
         if e = None \<or> e = Some EOF then map_option ((@) (take n out)) (read_all env rd r' bs) else None)"

lemma read_all_unpads:
  assumes "fr32_ok env" "delivers rd cont" "\<forall>b \<in> set bs. 127 \<le> length b \<and> length b \<le> 127 * 2 ^ 18"
    and "left r = of_nat (128 * c)" "128 * c < 2 ^ 64" "128 * c \<le> length (cont (src r))" "MTTresh \<le> length (rwork r)" "c \<le> length bs"
  shows "read_all env rd r bs = Some (unpad_bytes c (cont (src r)))"
  using assms(3-8)
proof (induction bs arbitrary: r c)
  case (Cons b bs)
  show ?case
  proof (cases "c = 0")
    case True
    then have "read_all env rd r bs = Some (unpad_bytes 0 (cont (src r)))"
      using Cons.IH [of r 0] Cons.prems by simp
    then show ?thesis using True Cons.prems(2) by (simp add: Read_def unpad_bytes_def)
  next
    case False
    then obtain t e r' where r': "0 < t" "t \<le> c" "127 * t \<le> length b" "e = None \<or> e = Some EOF"
      "Read env rd r b = Some (127 * t, e, unpad_bytes t (cont (src r)) @ drop (127 * t) b, r')"
      "left r' = of_nat (128 * (c - t))" "cont (src r') = drop (128 * t) (cont (src r))" "MTTresh \<le> length (rwork r')"
      using Read_unpads [OF assms(1,2) Cons.prems(2,3) _ Cons.prems(4,5), of b] Cons.prems(1) by auto
    have "read_all env rd r' bs = Some (unpad_bytes (c - t) (cont (src r')))"
      by (rule Cons.IH) (use Cons.prems r' in auto)
    then show ?thesis
      using r' unpad_bytes_split [of t c "cont (src r)"] Cons.prems(4) by (simp add: unpadding.f_take)
  qed
qed (simp add: unpad_bytes_def)


section \<open>Properties\<close>

text \<open>The documented environment, for the witnesses.\<close>

definition sample_fr32 :: fr32_env where
  "sample_fr32 = \<lparr>Padded_of = (\<lambda>u. u + u div 127), Unpadded_of = (\<lambda>s. s - s div 128),
     Validate_of = (\<lambda>s. if 128 \<le> s \<and> (\<exists>i \<in> {0..<64}. s = push_bit i 1) then None else Some ''invalid size''),
     NumCPU = 8, Sched = (\<lambda>n. [0..<n])\<rparr>"

lemma power_eq_0_word: "\<not> i < 64 \<Longrightarrow> (2 :: u64) ^ i = 0"
  by (simp add: exp_eq_zero_iff)

lemma sample_fr32_ok: "fr32_ok sample_fr32"
proof -
  have "s = push_bit i 1 \<Longrightarrow> 128 \<le> s \<Longrightarrow> i < 64" for s :: u64 and i
    by (rule ccontr) (simp add: push_bit_eq_mult word_le_nat_alt power_eq_0_word)
  then show ?thesis by (auto simp: fr32_ok_def sample_fr32_def unpadded_spec_def schedules_def)
qed

text \<open>
  C33. However data is cut into writes, a padding writer hands the writer below exactly the padding of
  all whole 127-byte chunks written so far, keeps the remaining bytes, reports every slice as written in
  full, and can be closed precisely when the data was a whole number of chunks. In particular the loop of
  \<open>Write\<close> ends.
\<close>

theorem pad_writer_stream:
  assumes "fr32_ok env" "takes_all wr cont" "\<forall>p \<in> set ps. length p < 2 ^ 61" "n = length (concat ps) div 127"
  shows "\<exists>w d' out. write_all env wr (NewPadWriter d) ps = Some w \<and> dst w = Some d' \<and>
    pad (concat ps) (replicate (128 * n) 0) = Some out \<and> cont d' = cont d @ out \<and>
    stash w = drop (127 * n) (concat ps) \<and>
    (fst (Close_padWriter w) = None \<longleftrightarrow> length (concat ps) mod 127 = 0)"
proof -
  have "pad_state cont (cont d) [] (NewPadWriter d)" by (simp add: pad_state_def NewPadWriter_def pad_bytes_def)
  then obtain w where w: "write_all env wr (NewPadWriter d) ps = Some w" "pad_state cont (cont d) ([] @ concat ps) w"
    using write_all_pads [OF assms(1,2) _ assms(3)] by blast
  moreover have "pad (concat ps) (replicate (128 * n) 0) = Some (pad_bytes n (concat ps))"
    using pad_eq [of "replicate (128 * n) 0" "concat ps"] assms(4) by simp
  moreover have "length (drop (127 * n) (concat ps)) = length (concat ps) mod 127"
    by (simp add: assms(4) minus_mult_div_eq_mod)
  ultimately show ?thesis
    unfolding append_Nil pad_state_def assms(4) [symmetric]
    by (metis (no_types, lifting) Close_padWriter_def fst_conv gr0I length_greater_0_conv list.size(3) option.distinct(1))
qed

theorem pad_writer_stream_witness:
  "\<exists>w d' out. write_all sample_fr32 (\<lambda>d b. (d @ b, length b, None)) (NewPadWriter []) [replicate 100 1, replicate 200 2] = Some w \<and>
    dst w = Some d' \<and> pad (replicate 100 1 @ replicate 200 2) (replicate 256 0) = Some out \<and> d' = out \<and> length (stash w) = 46"
proof -
  have "\<exists>w d' out. write_all sample_fr32 (\<lambda>d b. (d @ b, length b, None)) (NewPadWriter []) [replicate 100 1, replicate 200 2] = Some w \<and>
    dst w = Some d' \<and> pad (concat [replicate 100 1, replicate 200 2]) (replicate (128 * 2) 0) = Some out \<and> d' = [] @ out \<and>
    stash w = drop (127 * 2) (concat [replicate 100 1, replicate 200 2]) \<and>
    (fst (Close_padWriter w) = None \<longleftrightarrow> length (concat [replicate 100 1, replicate 200 (2 :: 8 word)]) mod 127 = 0)"
    by (rule pad_writer_stream) (simp_all add: sample_fr32_ok takes_all_def)
  then show ?thesis by fastforce
qed

text \<open>
  C34. Reading back what was written: data of \<open>127 * 2 ^ i\<close> bytes, written to a padding writer in
  arbitrary slices, is returned unchanged by an unpadding reader over the padded bytes, whatever the
  sizes of the buffers it is read into (from one chunk up to 32 MiB), once there are enough of them.
\<close>

theorem stream_roundtrip:
  assumes "fr32_ok env" "takes_all wr cont" "delivers rd rest" "\<forall>p \<in> set ps. length p < 2 ^ 61"
    and "length (concat ps) = 127 * 2 ^ i" "i + 7 < 64" "cont d = []"
    and "\<forall>b \<in> set bufs. 127 \<le> length b \<and> length b \<le> 127 * 2 ^ 18" "2 ^ i \<le> length bufs"
  shows "\<exists>w d'. write_all env wr (NewPadWriter d) ps = Some w \<and> dst w = Some d' \<and> fst (Close_padWriter w) = None \<and>
    (\<forall>s. rest s = cont d' \<longrightarrow> (\<exists>r. NewUnpadReader env s (of_nat (128 * 2 ^ i)) = Inr r \<and> read_all env rd r bufs = Some (concat ps)))"
proof -
  have "pad_state cont [] [] (NewPadWriter d)" using assms(7) by (simp add: pad_state_def NewPadWriter_def pad_bytes_def)
  then obtain w where w: "write_all env wr (NewPadWriter d) ps = Some w" "pad_state cont [] ([] @ concat ps) w"
    using write_all_pads [OF assms(1,2) _ assms(4)] by blast
  then obtain d' where d': "dst w = Some d'" "cont d' = pad_bytes (2 ^ i) (concat ps)" "stash w = []"
    using assms(5) by (auto simp: pad_state_def)
  have "\<exists>r. NewUnpadReader env s (of_nat (128 * 2 ^ i)) = Inr r \<and> read_all env rd r bufs = Some (concat ps)"
    if s: "rest s = cont d'" for s
  proof -
    let ?buf = "replicate (MTTresh * mtChunkCount (NumCPU env) (unat (of_nat (128 * 2 ^ i) :: u64))) (0 :: 8 word)"
    have "0 < mtChunkCount (NumCPU env) (unat (of_nat (128 * 2 ^ i) :: u64))" by (simp add: mtChunkCount_def Let_def)
    then have b: "MTTresh \<le> length ?buf" by simp
    let ?r = "\<lparr>src = s, left = of_nat (128 * 2 ^ i), rwork = ?buf\<rparr>"
    have "(2 :: nat) ^ (i + 7) < 2 ^ 64" using assms(6) by (intro power_strict_increasing) auto
    then have "read_all env rd ?r bufs = Some (unpad_bytes (2 ^ i) (rest s))"
      using read_all_unpads [OF assms(1,3,8), of ?r "2 ^ i"] b s d'(2) assms(9) by (simp add: power_add)
    then show ?thesis
      using valid_size [OF assms(1,6)] s d'(2) assms(5) unpad_pad_bytes [of "2 ^ i" "concat ps"]
      by (simp add: NewUnpadReader_def del: of_nat_mult of_nat_power)
  qed
  then show ?thesis using w(1) d' by (intro exI [of _ w] exI [of _ d']) (simp add: Close_padWriter_def)
qed

theorem stream_roundtrip_witness:
  "\<exists>w d'. write_all sample_fr32 (\<lambda>d b. (d @ b, length b, None)) (NewPadWriter []) [replicate 100 1, replicate 154 2] = Some w \<and>
    dst w = Some d' \<and>
    (\<exists>r. NewUnpadReader sample_fr32 d' 256 = Inr r \<and>
      read_all sample_fr32 (\<lambda>s n. (drop n s, take n s, None)) r [replicate 127 0, replicate 500 0] =
        Some (replicate 100 1 @ replicate 154 2))"
proof -
  have "\<exists>w d'. write_all sample_fr32 (\<lambda>d b. (d @ b, length b, None)) (NewPadWriter []) [replicate 100 1, replicate 154 2] = Some w \<and>
    dst w = Some d' \<and> fst (Close_padWriter w) = None \<and>
    (\<forall>s. id s = id d' \<longrightarrow> (\<exists>r. NewUnpadReader sample_fr32 s (of_nat (128 * 2 ^ 1)) = Inr r \<and>
      read_all sample_fr32 (\<lambda>s n. (drop n s, take n s, None)) r [replicate 127 0, replicate 500 0] =
        Some (concat [replicate 100 1, replicate 154 2])))"
    by (rule stream_roundtrip) (simp_all add: sample_fr32_ok takes_all_def delivers_def)
  then show ?thesis by fastforce
qed

text \<open>
  C35. A read with a buffer of fewer than 127 bytes panics (the shift count is negative) while data is
  left, although \<^verbatim>\<open>io.Reader\<close> allows buffers of every size.
\<close>

theorem read_small_buffer_panics:
  assumes "left r \<noteq> 0" "length out < 127"
  shows "Read env rd r out = None"
  using assms by (simp add: Read_def floor_pow2_def)

theorem read_small_buffer_panics_witness:
  "Read sample_fr32 (\<lambda>s n. (drop n s, take n s, None)) \<lparr>src = replicate 128 0, left = 128, rwork = replicate 128 0\<rparr> (replicate 10 0) = None"
  by (rule read_small_buffer_panics) simp_all

end
