(* ===== verification/State_Snaps.thy ===== *)
theory State_Snaps
  imports Prelude "HOL-Library.Finite_Map"
begin

text \<open>
  The snapshot layers of \<^verbatim>\<open>chain/state/statetree.go\<close>: a stack of maps that record what was written since
  each snapshot, with a cache of resolved addresses per layer. The top layer is the last element of the
  list, as in the code. An index out of range is a panic, \<open>None\<close>.

  A stack of layers over a base map stands for the stack of the maps one would see at each snapshot
  (\<open>views\<close>); the lemmas show what each operation does to that stack, and that the address cache with its
  search start \<open>lastMaybeNonEmptyResolveCache\<close> answers like a search through all layers.
\<close>

section \<open>Types\<close>

record Actor =
  Code :: cid
  Head :: cid
  Nonce :: u64
  Balance :: int

record streeOp =
  Act :: Actor
  Delete :: bool

record stateSnapLayer =
  actors :: "(address, streeOp) fmap"
  resolveCache :: "(address, address) fmap"

record stateSnaps =
  layers :: "stateSnapLayer list"
  lastMaybeNonEmptyResolveCache :: int

text \<open>Errors of the state tree; \<open>Wrap\<close> is \<^verbatim>\<open>xerrors.Errorf("...: %w", err)\<close>.\<close>

datatype state_err = ErrActorNotFound | ErrMsg string | Wrap string state_err

fun Is_ErrActorNotFound :: "state_err \<Rightarrow> bool" where
  "Is_ErrActorNotFound ErrActorNotFound = True"
| "Is_ErrActorNotFound (ErrMsg _) = False"
| "Is_ErrActorNotFound (Wrap _ e) = Is_ErrActorNotFound e"

definition zero_actor :: Actor where
  "zero_actor = \<lparr>Code = '''', Head = '''', Nonce = 0, Balance = 0\<rparr>"

section \<open>Operations\<close>

definition newStateSnapLayer :: stateSnapLayer where
  "newStateSnapLayer = \<lparr>actors = fmempty, resolveCache = fmempty\<rparr>"

definition addLayer :: "stateSnaps \<Rightarrow> stateSnaps" where
  "addLayer ss = ss\<lparr>layers := layers ss @ [newStateSnapLayer]\<rparr>"

definition newStateSnaps :: stateSnaps where
  "newStateSnaps = addLayer \<lparr>layers = [], lastMaybeNonEmptyResolveCache = 0\<rparr>"

definition dropLayer :: "stateSnaps \<Rightarrow> stateSnaps option" where
  "dropLayer ss =
    (if layers ss = [] then None
     else
       let ss = ss\<lparr>layers := butlast (layers ss)\<rparr> in
       Some (if lastMaybeNonEmptyResolveCache ss = int (length (layers ss))
             then ss\<lparr>lastMaybeNonEmptyResolveCache := int (length (layers ss)) - 1\<rparr> else ss))"

definition mergeLastLayer :: "stateSnaps \<Rightarrow> stateSnaps option" where
  "mergeLastLayer ss =
    (if length (layers ss) < 2 then None
     else
       let lst = layers ss ! (length (layers ss) - 1);
           n = length (layers ss) - 2;
           nextLast = layers ss ! n;
           nextLast = nextLast\<lparr>actors := actors nextLast ++\<^sub>f actors lst\<rparr>;
           nextLast = nextLast\<lparr>resolveCache := resolveCache nextLast ++\<^sub>f resolveCache lst\<rparr>
       in dropLayer (ss\<lparr>layers := (layers ss)[n := nextLast]\<rparr>))"

fun resolve_loop :: "stateSnapLayer list \<Rightarrow> address \<Rightarrow> nat \<Rightarrow> int \<Rightarrow> (address option \<times> int) option" where
  "resolve_loop ls addr 0 lastMaybe = Some (None, lastMaybe)"
| "resolve_loop ls addr (Suc i) lastMaybe =
    (if length ls \<le> i then None
     else if resolveCache (ls ! i) = fmempty
     then resolve_loop ls addr i (if lastMaybe = int i then int i - 1 else lastMaybe)
     else case fmlookup (resolveCache (ls ! i)) addr of
         Some resa \<Rightarrow> Some (Some resa, lastMaybe)
       | None \<Rightarrow> resolve_loop ls addr i lastMaybe)"

definition resolveAddress :: "stateSnaps \<Rightarrow> address \<Rightarrow> (address option \<times> stateSnaps) option" where
  "resolveAddress ss addr =
    map_option (\<lambda>(resa, l). (resa, ss\<lparr>lastMaybeNonEmptyResolveCache := l\<rparr>))
      (resolve_loop (layers ss) addr (nat (lastMaybeNonEmptyResolveCache ss + 1)) (lastMaybeNonEmptyResolveCache ss))"

definition top_layer :: "(stateSnapLayer \<Rightarrow> stateSnapLayer) \<Rightarrow> stateSnaps \<Rightarrow> stateSnaps option" where
  "top_layer f ss =
    (if layers ss = [] then None
     else let n = length (layers ss) - 1 in Some (ss\<lparr>layers := (layers ss)[n := f (layers ss ! n)]\<rparr>))"

definition cacheResolveAddress :: "stateSnaps \<Rightarrow> address \<Rightarrow> address \<Rightarrow> stateSnaps option" where
  "cacheResolveAddress ss addr resa =
    map_option (\<lambda>ss. ss\<lparr>lastMaybeNonEmptyResolveCache := int (length (layers ss)) - 1\<rparr>)
      (top_layer (\<lambda>l. l\<lparr>resolveCache := fmupd addr resa (resolveCache l)\<rparr>) ss)"

text \<open>The search from the top layer down; \<open>Inr None\<close> is the answer \<^verbatim>\<open>nil, nil\<close>.\<close>

fun get_loop :: "stateSnapLayer list \<Rightarrow> address \<Rightarrow> state_err + Actor option" where
  "get_loop [] addr = Inr None"
| "get_loop (l # ls) addr =
    (case fmlookup (actors l) addr of
       Some act \<Rightarrow> if Delete act then Inl ErrActorNotFound else Inr (Some (Act act))
     | None \<Rightarrow> get_loop ls addr)"

definition getActor :: "stateSnaps \<Rightarrow> address \<Rightarrow> state_err + Actor option" where
  "getActor ss addr = get_loop (rev (layers ss)) addr"

definition setActor :: "stateSnaps \<Rightarrow> address \<Rightarrow> Actor \<Rightarrow> stateSnaps option" where
  "setActor ss addr act = top_layer (\<lambda>l. l\<lparr>actors := fmupd addr \<lparr>Act = act, Delete = False\<rparr> (actors l)\<rparr>) ss"

definition deleteActor :: "stateSnaps \<Rightarrow> address \<Rightarrow> stateSnaps option" where
  "deleteActor ss addr =
    top_layer (\<lambda>l. l\<lparr>actors := fmupd addr \<lparr>Act = zero_actor, Delete = True\<rparr> (actors l)\<rparr>) ss"

section \<open>The stack of views\<close>

type_synonym view = "address \<rightharpoonup> Actor"

definition apply_layer :: "stateSnapLayer \<Rightarrow> view \<Rightarrow> view" where
  "apply_layer l v = (\<lambda>a. case fmlookup (actors l) a of
     Some op \<Rightarrow> if Delete op then None else Some (Act op) | None \<Rightarrow> v a)"

text \<open>The layers are given from the top here.\<close>

fun stack :: "view \<Rightarrow> stateSnapLayer list \<Rightarrow> view list" where
  "stack base [] = [base]"
| "stack base (l # ls) = apply_layer l (hd (stack base ls)) # stack base ls"

definition views :: "view \<Rightarrow> stateSnaps \<Rightarrow> view list" where
  "views base ss = stack base (rev (layers ss))"

lemma stack_not_Nil [simp]: "stack base ls \<noteq> []"
  by (cases ls) simp_all

lemma length_views: "length (views base ss) = Suc (length (layers ss))"
proof -
  have "length (stack base ls) = Suc (length ls)" for ls by (induction ls) simp_all
  then show ?thesis by (simp add: views_def)
qed

lemma get_loop_view:
  "hd (stack base ls) a = (case get_loop ls a of Inl e \<Rightarrow> None | Inr (Some x) \<Rightarrow> Some x | Inr None \<Rightarrow> base a)"
  by (induction ls) (auto simp: apply_layer_def split: option.splits)

lemma get_loop_err: "get_loop ls a = Inl e \<Longrightarrow> e = ErrActorNotFound"
  by (induction ls) (auto split: option.splits if_splits)

lemma last_layer_cases:
  assumes "layers ss \<noteq> []"
  obtains ls l where "layers ss = ls @ [l]"
  using assms by (metis append_butlast_last_id)

lemma top_layer_snoc: "layers ss = ls @ [l] \<Longrightarrow> top_layer f ss = Some (ss\<lparr>layers := ls @ [f l]\<rparr>)"
  by (simp add: top_layer_def Let_def)

lemma mergeLastLayer_snoc:
  assumes "layers ss = ls @ [k, l]"
  shows "mergeLastLayer ss =
    dropLayer (ss\<lparr>layers := ls @ [\<lparr>actors = actors k ++\<^sub>f actors l, resolveCache = resolveCache k ++\<^sub>f resolveCache l\<rparr>, l]\<rparr>)"
  using assms by (cases k) (simp add: mergeLastLayer_def Let_def nth_append)

lemma last_two_layers:
  assumes "mergeLastLayer ss = Some ss'"
  obtains ls k l where "layers ss = ls @ [k, l]"
proof -
  have n: "2 \<le> length (layers ss)" using assms by (auto simp: mergeLastLayer_def split: if_splits)
  then obtain ls l where l: "layers ss = ls @ [l]" by (metis last_layer_cases list.size(3) not_numeral_le_zero)
  with n have "ls \<noteq> []" by auto
  then have "layers ss = butlast ls @ [last ls, l]" using l by simp
  then show thesis by (rule that)
qed

lemma views_addLayer: "views base (addLayer ss) = hd (views base ss) # views base ss"
  by (simp add: views_def addLayer_def newStateSnapLayer_def apply_layer_def)

lemma views_dropLayer: "dropLayer ss = Some ss' \<Longrightarrow> views base ss' = tl (views base ss)"
proof -
  assume d: "dropLayer ss = Some ss'"
  then have "layers ss \<noteq> []" by (auto simp: dropLayer_def)
  then obtain ls l where l: "layers ss = ls @ [l]" by (rule last_layer_cases)
  then have "layers ss' = ls" using d by (auto simp: dropLayer_def Let_def split: if_splits)
  then show ?thesis using l by (simp add: views_def)
qed

lemma views_mergeLastLayer:
  assumes "mergeLastLayer ss = Some ss'"
  shows "\<exists>v w vs. views base ss = v # w # vs \<and> views base ss' = v # vs"
proof -
  obtain ls k l where l: "layers ss = ls @ [k, l]" using last_two_layers [OF assms] .
  let ?m = "\<lparr>actors = actors k ++\<^sub>f actors l, resolveCache = resolveCache k ++\<^sub>f resolveCache l\<rparr>"
  have "views base ss' = tl (views base (ss\<lparr>layers := ls @ [?m, l]\<rparr>))"
    using assms views_dropLayer unfolding mergeLastLayer_snoc [OF l] by blast
  also have "\<dots> = apply_layer ?m (hd (stack base (rev ls))) # stack base (rev ls)" by (simp add: views_def)
  also have "apply_layer ?m (hd (stack base (rev ls))) = apply_layer l (apply_layer k (hd (stack base (rev ls))))"
    by (rule ext) (auto simp: apply_layer_def fmlookup_dom_iff split: option.splits)
  finally show ?thesis using l by (simp add: views_def)
qed

lemma views_top_layer:
  assumes "layers ss \<noteq> []"
  shows "\<exists>ss'. setActor ss a act = Some ss' \<and> views base ss' = (hd (views base ss))(a \<mapsto> act) # tl (views base ss)"
    and "\<exists>ss'. deleteActor ss a = Some ss' \<and> views base ss' = (hd (views base ss))(a := None) # tl (views base ss)"
    and "\<exists>ss'. cacheResolveAddress ss a r = Some ss' \<and> views base ss' = views base ss"
proof -
  obtain ls l where l: "layers ss = ls @ [l]" using assms by (rule last_layer_cases)
  have "apply_layer (l\<lparr>actors := fmupd a op (actors l)\<rparr>) v = (apply_layer l v)(a := if Delete op then None else Some (Act op))"
    for op v by (rule ext) (simp add: apply_layer_def)
  then show "\<exists>ss'. setActor ss a act = Some ss' \<and> views base ss' = (hd (views base ss))(a \<mapsto> act) # tl (views base ss)"
    "\<exists>ss'. deleteActor ss a = Some ss' \<and> views base ss' = (hd (views base ss))(a := None) # tl (views base ss)"
    using l by (simp_all add: setActor_def deleteActor_def top_layer_snoc views_def)
  have "apply_layer (l\<lparr>resolveCache := c\<rparr>) v = apply_layer l v" for c v by (simp add: apply_layer_def)
  then show "\<exists>ss'. cacheResolveAddress ss a r = Some ss' \<and> views base ss' = views base ss"
    using l by (simp add: cacheResolveAddress_def top_layer_snoc views_def)
qed

section \<open>The address cache\<close>

text \<open>The reference: search all layers from the top.\<close>

fun search_layers :: "stateSnapLayer list \<Rightarrow> address \<Rightarrow> address option" where
  "search_layers [] addr = None"
| "search_layers (l # ls) addr =
    (case fmlookup (resolveCache l) addr of Some r \<Rightarrow> Some r | None \<Rightarrow> search_layers ls addr)"

definition cached :: "stateSnaps \<Rightarrow> address \<Rightarrow> address option" where
  "cached ss addr = search_layers (rev (layers ss)) addr"

text \<open>All caches above the search start are empty.\<close>

definition start_ok :: "stateSnapLayer list \<Rightarrow> int \<Rightarrow> bool" where
  "start_ok ls k \<longleftrightarrow> - 1 \<le> k \<and> k < int (length ls) \<and> (\<forall>i < length ls. k < int i \<longrightarrow> resolveCache (ls ! i) = fmempty)"

definition snaps_ok :: "stateSnaps \<Rightarrow> bool" where
  "snaps_ok ss \<longleftrightarrow> start_ok (layers ss) (lastMaybeNonEmptyResolveCache ss)"

lemma resolve_loop_search:
  assumes "n \<le> length ls" "int n - 1 \<le> k" "start_ok ls k"
  shows "\<exists>k'. resolve_loop ls a n k = Some (search_layers (rev (take n ls)) a, k') \<and> start_ok ls k'"
  using assms
proof (induction n arbitrary: k)
  case (Suc i)
  have t: "rev (take (Suc i) ls) = ls ! i # rev (take i ls)" using Suc.prems(1) by (simp add: take_Suc_conv_app_nth)
  show ?case
  proof (cases "resolveCache (ls ! i) = fmempty")
    case True
    let ?k = "if k = int i then int i - 1 else k"
    have "start_ok ls ?k"
    proof (cases "k = int i")
      case True
      have "resolveCache (ls ! j) = fmempty" if "j < length ls" "int i - 1 < int j" for j
        using that Suc.prems(3) \<open>resolveCache (ls ! i) = fmempty\<close> True unfolding start_ok_def by (cases "j = i") auto
      then show ?thesis using True Suc.prems(3) by (auto simp: start_ok_def)
    qed (use Suc.prems in simp)
    then obtain k' where "resolve_loop ls a i ?k = Some (search_layers (rev (take i ls)) a, k')" "start_ok ls k'"
      using Suc.IH [of ?k] Suc.prems by (auto split: if_splits)
    then show ?thesis using True Suc.prems(1) t by simp
  next
    case False
    then show ?thesis using Suc.IH [of k] Suc.prems t by (auto split: option.splits)
  qed
qed simp

lemma search_empty: "\<forall>l \<in> set ls. resolveCache l = fmempty \<Longrightarrow> search_layers (ls @ ks) a = search_layers ks a"
  by (induction ls) simp_all

lemma resolveAddress_search:
  assumes "snaps_ok ss"
  shows "\<exists>ss'. resolveAddress ss a = Some (cached ss a, ss') \<and> snaps_ok ss' \<and> layers ss' = layers ss"
proof -
  let ?k = "lastMaybeNonEmptyResolveCache ss" and ?ls = "layers ss"
  let ?n = "nat (?k + 1)"
  have k: "start_ok ?ls ?k" using assms by (simp add: snaps_ok_def)
  then have n: "?n \<le> length ?ls" "int ?n - 1 \<le> ?k" by (auto simp: start_ok_def)
  have "\<forall>l \<in> set (drop ?n ?ls). resolveCache l = fmempty"
    using k unfolding start_ok_def by (auto simp: in_set_conv_nth)
  then have "search_layers (rev (drop ?n ?ls) @ rev (take ?n ?ls)) a = search_layers (rev (take ?n ?ls)) a"
    by (intro search_empty) simp
  then have "cached ss a = search_layers (rev (take ?n ?ls)) a"
    unfolding cached_def by (simp flip: rev_append)
  then show ?thesis
    using resolve_loop_search [OF n k, of a] by (auto simp: resolveAddress_def snaps_ok_def)
qed

lemma start_ok_snoc:
  assumes "start_ok (ls @ [l]) k" "k \<noteq> int (length ls)"
  shows "start_ok ls k"
proof -
  have e: "\<forall>i < length (ls @ [l]). k < int i \<longrightarrow> resolveCache ((ls @ [l]) ! i) = fmempty"
    using assms(1) by (simp add: start_ok_def)
  have "resolveCache (ls ! i) = fmempty" if "i < length ls" "k < int i" for i
    using e [rule_format, of i] that by (simp add: nth_append)
  then show ?thesis using assms unfolding start_ok_def by auto
qed

lemma snaps_ok_new: "snaps_ok newStateSnaps"
  by (simp add: snaps_ok_def start_ok_def newStateSnaps_def addLayer_def newStateSnapLayer_def)

lemma snaps_ok_addLayer: "snaps_ok ss \<Longrightarrow> snaps_ok (addLayer ss)"
  unfolding snaps_ok_def start_ok_def addLayer_def newStateSnapLayer_def by (auto simp: nth_append)

lemma start_ok_top: "start_ok ls (int (length ls) - 1)"
  by (auto simp: start_ok_def)

lemma snaps_ok_dropLayer:
  assumes "snaps_ok ss" "dropLayer ss = Some ss'"
  shows "snaps_ok ss'"
proof -
  have "layers ss \<noteq> []" using assms(2) by (auto simp: dropLayer_def)
  then obtain ls l where l: "layers ss = ls @ [l]" by (rule last_layer_cases)
  have "start_ok (ls @ [l]) (lastMaybeNonEmptyResolveCache ss)" using assms(1) l by (simp add: snaps_ok_def)
  then show ?thesis
    using assms(2) l start_ok_snoc [of ls l] start_ok_top [of ls]
    by (auto simp: dropLayer_def Let_def snaps_ok_def split: if_splits)
qed

lemma snaps_ok_mergeLastLayer:
  assumes "snaps_ok ss" "mergeLastLayer ss = Some ss'"
  shows "snaps_ok ss'"
proof -
  obtain ls k l where l: "layers ss = ls @ [k, l]" using last_two_layers [OF assms(2)] .
  let ?m = "\<lparr>actors = actors k ++\<^sub>f actors l, resolveCache = resolveCache k ++\<^sub>f resolveCache l\<rparr>"
  let ?k = "lastMaybeNonEmptyResolveCache ss"
  have k: "start_ok (ls @ [k, l]) ?k" using assms(1) l by (simp add: snaps_ok_def)
  have d: "dropLayer (ss\<lparr>layers := ls @ [?m, l]\<rparr>) = Some ss'" using assms(2) mergeLastLayer_snoc [OF l] by simp
  show ?thesis
  proof (cases "?k = int (Suc (length ls))")
    case True
    then have "layers ss' = ls @ [?m]" "lastMaybeNonEmptyResolveCache ss' = int (length (layers ss')) - 1"
      using d by (auto simp: dropLayer_def Let_def butlast_append)
    then show ?thesis using start_ok_top [of "layers ss'"] by (simp add: snaps_ok_def)
  next
    case False
    have e: "\<forall>i < length (ls @ [k, l]). ?k < int i \<longrightarrow> resolveCache ((ls @ [k, l]) ! i) = fmempty"
      and b: "- 1 \<le> ?k" "?k < int (length (ls @ [k, l]))"
      using k by (simp_all add: start_ok_def)
    have l0: "resolveCache l = fmempty" using e [rule_format, of "Suc (length ls)"] False b(2) by (simp add: nth_append)
    have "resolveCache ((ls @ [?m, l]) ! i) = fmempty" if i: "i < length (ls @ [?m, l])" "?k < int i" for i
    proof -
      consider "i < length ls" | "i = length ls" | "i = Suc (length ls)" using i(1) by fastforce
      then show ?thesis using e [rule_format, of i] i l0 by cases (simp_all add: nth_append)
    qed
    then have "start_ok (ls @ [?m, l]) ?k" using b unfolding start_ok_def by simp
    then show ?thesis using snaps_ok_dropLayer [OF _ d] by (simp add: snaps_ok_def)
  qed
qed

lemma start_ok_caches:
  "length ks = length ls \<Longrightarrow> (\<And>i. i < length ls \<Longrightarrow> resolveCache (ks ! i) = resolveCache (ls ! i)) \<Longrightarrow> start_ok ks k = start_ok ls k"
  by (simp add: start_ok_def)

lemma snaps_ok_top_layer:
  assumes "snaps_ok ss"
  shows "setActor ss a act = Some ss' \<Longrightarrow> snaps_ok ss'" "deleteActor ss a = Some ss' \<Longrightarrow> snaps_ok ss'"
    "cacheResolveAddress ss a r = Some ss' \<Longrightarrow> snaps_ok ss'"
proof -
  have keep: "snaps_ok ss'" if "top_layer f ss = Some ss'" "\<And>l. resolveCache (f l) = resolveCache l" for f
  proof -
    have "layers ss \<noteq> []" using that(1) by (auto simp: top_layer_def)
    then obtain ls l where l: "layers ss = ls @ [l]" by (rule last_layer_cases)
    have "start_ok (ls @ [f l]) k = start_ok (ls @ [l]) k" for k
      using that(2) by (intro start_ok_caches) (auto simp: nth_append)
    then show ?thesis using assms that(1) l by (auto simp: snaps_ok_def top_layer_snoc)
  qed
  show "setActor ss a act = Some ss' \<Longrightarrow> snaps_ok ss'" "deleteActor ss a = Some ss' \<Longrightarrow> snaps_ok ss'"
    unfolding setActor_def deleteActor_def by (erule keep, simp)+
  show "cacheResolveAddress ss a r = Some ss' \<Longrightarrow> snaps_ok ss'"
    using start_ok_top by (auto simp: cacheResolveAddress_def snaps_ok_def)
qed

section \<open>Property\<close>

text \<open>The states of \<open>stateSnaps\<close>: every sequence of its operations.\<close>

inductive snaps_reach :: "stateSnaps \<Rightarrow> bool" where
  new: "snaps_reach newStateSnaps"
| add: "snaps_reach ss \<Longrightarrow> snaps_reach (addLayer ss)"
| drop: "snaps_reach ss \<Longrightarrow> dropLayer ss = Some ss' \<Longrightarrow> snaps_reach ss'"
| merge: "snaps_reach ss \<Longrightarrow> mergeLastLayer ss = Some ss' \<Longrightarrow> snaps_reach ss'"
| resolve: "snaps_reach ss \<Longrightarrow> resolveAddress ss a = Some (r, ss') \<Longrightarrow> snaps_reach ss'"
| cache: "snaps_reach ss \<Longrightarrow> cacheResolveAddress ss a r = Some ss' \<Longrightarrow> snaps_reach ss'"
| set: "snaps_reach ss \<Longrightarrow> setActor ss a act = Some ss' \<Longrightarrow> snaps_reach ss'"
| delete: "snaps_reach ss \<Longrightarrow> deleteActor ss a = Some ss' \<Longrightarrow> snaps_reach ss'"

lemma snaps_reach_ok: "snaps_reach ss \<Longrightarrow> snaps_ok ss"
proof (induction rule: snaps_reach.induct)
  case (resolve ss a r ss')
  then show ?case using resolveAddress_search [of ss a] by auto
qed (auto intro: snaps_ok_new snaps_ok_addLayer snaps_ok_dropLayer snaps_ok_mergeLastLayer snaps_ok_top_layer)

text \<open>
  C36. The shortcut of the address cache is sound: after any sequence of operations, \<open>resolveAddress\<close>,
  which starts at \<open>lastMaybeNonEmptyResolveCache\<close> and lowers it past empty caches, does not panic and
  answers like a search through the caches of all layers, without changing any layer.
\<close>

theorem resolveAddress_equals_search:
  assumes "snaps_reach ss"
  shows "\<exists>ss'. resolveAddress ss addr = Some (cached ss addr, ss') \<and> layers ss' = layers ss"
  using resolveAddress_search [OF snaps_reach_ok [OF assms]] by blast

definition sample_snaps :: stateSnaps where
  "sample_snaps = addLayer (the (cacheResolveAddress (addLayer newStateSnaps) ''t3key'' ''t0100''))"

theorem resolveAddress_equals_search_witness:
  "\<exists>ss'. resolveAddress sample_snaps ''t3key'' = Some (Some ''t0100'', ss') \<and> layers ss' = layers sample_snaps"
proof -
  have "cacheResolveAddress (addLayer newStateSnaps) ''t3key'' ''t0100'' =
      Some (the (cacheResolveAddress (addLayer newStateSnaps) ''t3key'' ''t0100''))"
    by (simp add: cacheResolveAddress_def top_layer_def newStateSnaps_def addLayer_def Let_def)
  then have "snaps_reach sample_snaps"
    unfolding sample_snaps_def by (intro snaps_reach.add, intro snaps_reach.cache [OF snaps_reach.add [OF snaps_reach.new]])
  moreover have "cached sample_snaps ''t3key'' = Some ''t0100''"
    by (simp add: cached_def sample_snaps_def cacheResolveAddress_def top_layer_def newStateSnaps_def newStateSnapLayer_def
        addLayer_def Let_def)
  ultimately show ?thesis using resolveAddress_equals_search [of sample_snaps "''t3key''"] by simp
qed

end
