(* ===== verification/State_Tree.thy ===== *)
theory State_Tree
  imports State_Snaps
begin

text \<open>
  The state tree of \<^verbatim>\<open>chain/state/statetree.go\<close> (and \<open>Load\<close> of \<^verbatim>\<open>chain/actors/builtin/init/init.go\<close>): a map
  from ID addresses to actors, kept in a HAMT with snapshot layers above it.

  The HAMT, the block store and the state of the init actor are code of other modules: they are the
  fields of \<open>tree_env\<close>, over types \<open>'h\<close>, \<open>'s\<close> and \<open>'i\<close>. An operation returns \<open>None\<close> when it panics, otherwise its
  result and the new tree. \<open>st.lookupIDFun\<close> is always \<open>lookupIDinternal\<close>, which calls \<open>GetActor\<close> again, on
  the address of the init actor; since that is an ID address the recursion stops there, and
  \<open>LookupID\<close> allows the depth 2 (\<open>LookupID_fuel_enough\<close> shows that no run needs more).
\<close>

section \<open>Definitions\<close>

record ('h, 's, 'i) tree_env =
  Is_ID :: "address \<Rightarrow> bool"
  Undef :: address
  InitAddress :: address
  InitActorCodeID :: cid
  load3 :: "'s \<Rightarrow> cid \<Rightarrow> state_err + 'i"
  ResolveAddress :: "'i \<Rightarrow> address \<Rightarrow> state_err + address option"
  MapAddressToNewID :: "'i \<Rightarrow> address \<Rightarrow> state_err + 'i \<times> address"
  PutInit :: "'s \<Rightarrow> 'i \<Rightarrow> state_err + 's \<times> cid"
  PutInfo :: "'s \<Rightarrow> state_err + 's \<times> cid"
  PutRoot :: "'s \<Rightarrow> nat \<times> cid \<times> cid \<Rightarrow> state_err + 's \<times> cid"
  GetRoot :: "'s \<Rightarrow> cid \<Rightarrow> state_err + nat \<times> cid \<times> cid"
  NewTree :: "'s \<Rightarrow> state_err + 's \<times> 'h"
  LoadTree :: "'s \<Rightarrow> cid \<Rightarrow> state_err + 'h"
  HGet :: "'h \<Rightarrow> address \<Rightarrow> state_err + Actor option"
  HPut :: "'h \<Rightarrow> address \<Rightarrow> Actor \<Rightarrow> state_err + 'h"
  HDelete :: "'h \<Rightarrow> address \<Rightarrow> state_err + 'h"
  HRoot :: "'h \<Rightarrow> state_err + cid"

record ('h, 's) StateTree =
  root :: 'h
  version :: nat
  info :: cid
  Store :: 's
  snaps :: stateSnaps

type_synonym ('h, 's, 'a) tree_res = "((state_err + 'a) \<times> ('h, 's) StateTree) option"

definition actors_VersionForNetwork :: "nat \<Rightarrow> nat" where
  "actors_VersionForNetwork ver = 3"

definition VersionForNetwork :: "nat \<Rightarrow> nat" where
  "VersionForNetwork ver = (if actors_VersionForNetwork ver = 0 then 0 else 2)"

definition NewStateTree :: "('h, 's, 'i) tree_env \<Rightarrow> 's \<Rightarrow> nat \<Rightarrow> state_err + ('h, 's) StateTree" where
  "NewStateTree env cst ver =
    (if ver = 2 then
       (case PutInfo env cst of
          Inl err \<Rightarrow> Inl err
        | Inr (cst, inf0) \<Rightarrow>
            (case NewTree env cst of
               Inl err \<Rightarrow> Inl (Wrap ''failed to create state tree'' err)
             | Inr (cst, tree) \<Rightarrow> Inr \<lparr>root = tree, version = ver, info = inf0, Store = cst, snaps = newStateSnaps\<rparr>))
     else Inl (ErrMsg ''unsupported state tree version''))"

definition LoadStateTree :: "('h, 's, 'i) tree_env \<Rightarrow> 's \<Rightarrow> cid \<Rightarrow> state_err + ('h, 's) StateTree" where
  "LoadStateTree env cst c =
    (case GetRoot env cst c of
       Inl err \<Rightarrow> Inl (ErrMsg ''unexpected failure to load state root'')
     | Inr (ver, acts, inf0) \<Rightarrow>
         (if ver = 2 then
            (case LoadTree env cst acts of
               Inl err \<Rightarrow> Inl (Wrap ''failed to load state tree'' err)
             | Inr tree \<Rightarrow> Inr \<lparr>root = tree, version = ver, info = inf0, Store = cst, snaps = newStateSnaps\<rparr>)
          else Inl (ErrMsg ''unsupported state tree version'')))"

definition init_Load :: "('h, 's, 'i) tree_env \<Rightarrow> 's \<Rightarrow> Actor \<Rightarrow> state_err + 'i" where
  "init_Load env st act =
    (if Code act = InitActorCodeID env then load3 env st (Head act) else Inl (ErrMsg ''unknown actor code''))"

text \<open>\<open>GetActor\<close> and \<open>lookupIDinternal\<close> with the function they call as a parameter, to tie the recursion.\<close>

definition GetActor_with ::
  "('h, 's, 'i) tree_env \<Rightarrow> (('h, 's) StateTree \<Rightarrow> address \<Rightarrow> ('h, 's, address) tree_res) \<Rightarrow>
   ('h, 's) StateTree \<Rightarrow> address \<Rightarrow> ('h, 's, Actor) tree_res" where
  "GetActor_with env lookup st addr =
    (if addr = Undef env then Some (Inl (ErrMsg ''GetActor called on undefined address''), st)
     else case lookup st addr of
         None \<Rightarrow> None
       | Some (Inl err, st) \<Rightarrow>
           Some (Inl (if Is_ErrActorNotFound err then Wrap ''resolution lookup failed'' err
                      else Wrap ''address resolution'' err), st)
       | Some (Inr addr, st) \<Rightarrow>
           (case getActor (snaps st) addr of
              Inl err \<Rightarrow> Some (Inl err, st)
            | Inr (Some snapAct) \<Rightarrow> Some (Inr snapAct, st)
            | Inr None \<Rightarrow>
                (case HGet env (root st) addr of
                   Inl err \<Rightarrow> Some (Inl (Wrap ''hamt find failed'' err), st)
                 | Inr None \<Rightarrow> Some (Inl ErrActorNotFound, st)
                 | Inr (Some act) \<Rightarrow>
                     map_option (\<lambda>ss. (Inr act, st\<lparr>snaps := ss\<rparr>)) (setActor (snaps st) addr act))))"

definition lookupIDinternal ::
  "('h, 's, 'i) tree_env \<Rightarrow> (('h, 's) StateTree \<Rightarrow> address \<Rightarrow> ('h, 's, Actor) tree_res) \<Rightarrow>
   ('h, 's) StateTree \<Rightarrow> address \<Rightarrow> ('h, 's, address) tree_res" where
  "lookupIDinternal env get_actor st addr =
    (case get_actor st (InitAddress env) of
       None \<Rightarrow> None
     | Some (Inl err, st) \<Rightarrow> Some (Inl (Wrap ''getting init actor'' err), st)
     | Some (Inr act, st) \<Rightarrow>
         (case init_Load env (Store st) act of
            Inl err \<Rightarrow> Some (Inl (Wrap ''loading init actor state'' err), st)
          | Inr ias \<Rightarrow>
              (case ResolveAddress env ias addr of
                 Inl err \<Rightarrow> Some (Inl (Wrap ''resolve address'' err), st)
               | Inr None \<Rightarrow> Some (Inl (Wrap ''resolve address'' ErrActorNotFound), st)
               | Inr (Some a) \<Rightarrow> Some (Inr a, st))))"

fun LookupID_fuel :: "nat \<Rightarrow> ('h, 's, 'i) tree_env \<Rightarrow> ('h, 's) StateTree \<Rightarrow> address \<Rightarrow> ('h, 's, address) tree_res" where
  "LookupID_fuel 0 env st addr = None"
| "LookupID_fuel (Suc n) env st addr =
    (if Is_ID env addr then Some (Inr addr, st)
     else case resolveAddress (snaps st) addr of
         None \<Rightarrow> None
       | Some (Some resa, ss) \<Rightarrow> Some (Inr resa, st\<lparr>snaps := ss\<rparr>)
       | Some (None, ss) \<Rightarrow>
           (case lookupIDinternal env (GetActor_with env (LookupID_fuel n env)) (st\<lparr>snaps := ss\<rparr>) addr of
              None \<Rightarrow> None
            | Some (Inl err, st) \<Rightarrow> Some (Inl err, st)
            | Some (Inr a, st) \<Rightarrow>
                map_option (\<lambda>ss. (Inr a, st\<lparr>snaps := ss\<rparr>)) (cacheResolveAddress (snaps st) addr a)))"

definition LookupID :: "('h, 's, 'i) tree_env \<Rightarrow> ('h, 's) StateTree \<Rightarrow> address \<Rightarrow> ('h, 's, address) tree_res" where
  "LookupID env = LookupID_fuel 2 env"

definition GetActor :: "('h, 's, 'i) tree_env \<Rightarrow> ('h, 's) StateTree \<Rightarrow> address \<Rightarrow> ('h, 's, Actor) tree_res" where
  "GetActor env = GetActor_with env (LookupID env)"

definition SetActor :: "('h, 's, 'i) tree_env \<Rightarrow> ('h, 's) StateTree \<Rightarrow> address \<Rightarrow> Actor \<Rightarrow> ('h, 's, unit) tree_res" where
  "SetActor env st addr act =
    (case LookupID env st addr of
       None \<Rightarrow> None
     | Some (Inl err, st) \<Rightarrow> Some (Inl (Wrap ''ID lookup failed'' err), st)
     | Some (Inr addr, st) \<Rightarrow> map_option (\<lambda>ss. (Inr (), st\<lparr>snaps := ss\<rparr>)) (setActor (snaps st) addr act))"

definition DeleteActor :: "('h, 's, 'i) tree_env \<Rightarrow> ('h, 's) StateTree \<Rightarrow> address \<Rightarrow> ('h, 's, unit) tree_res" where
  "DeleteActor env st addr =
    (if addr = Undef env then Some (Inl (ErrMsg ''DeleteActor called on undefined address''), st)
     else case LookupID env st addr of
         None \<Rightarrow> None
       | Some (Inl err, st) \<Rightarrow>
           Some (Inl (if Is_ErrActorNotFound err then Wrap ''resolution lookup failed'' err
                      else Wrap ''address resolution'' err), st)
       | Some (Inr addr, st) \<Rightarrow>
           (case GetActor env st addr of
              None \<Rightarrow> None
            | Some (Inl err, st) \<Rightarrow> Some (Inl err, st)
            | Some (Inr _, st) \<Rightarrow> map_option (\<lambda>ss. (Inr (), st\<lparr>snaps := ss\<rparr>)) (deleteActor (snaps st) addr)))"

text \<open>The loop of \<open>Flush\<close> over the map of the only layer; \<open>order\<close> is the order of the iteration.\<close>

fun flush_loop ::
  "('h, 's, 'i) tree_env \<Rightarrow> (address, streeOp) fmap \<Rightarrow> address list \<Rightarrow> 'h \<Rightarrow> state_err option \<times> 'h" where
  "flush_loop env acts [] h = (None, h)"
| "flush_loop env acts (addr # order) h =
    (case fmlookup acts addr of
       None \<Rightarrow> flush_loop env acts order h
     | Some sto \<Rightarrow>
         (case (if Delete sto then HDelete env h addr else HPut env h addr (Act sto)) of
            Inl err \<Rightarrow> (Some err, h)
          | Inr h \<Rightarrow> flush_loop env acts order h))"

definition Flush :: "('h, 's, 'i) tree_env \<Rightarrow> address list \<Rightarrow> ('h, 's) StateTree \<Rightarrow> (state_err + cid) \<times> ('h, 's) StateTree" where
  "Flush env order st =
    (if length (layers (snaps st)) \<noteq> 1
     then (Inl (ErrMsg ''tried to flush state tree with snapshots on the stack''), st)
     else
       case flush_loop env (actors (layers (snaps st) ! 0)) order (root st) of
         (Some err, h) \<Rightarrow> (Inl err, st\<lparr>root := h\<rparr>)
       | (None, h) \<Rightarrow>
           (case HRoot env h of
              Inl err \<Rightarrow> (Inl (Wrap ''failed to flush state-tree hamt'' err), st\<lparr>root := h\<rparr>)
            | Inr c \<Rightarrow>
                (case PutRoot env (Store st) (version st, c, info st) of
                   Inl err \<Rightarrow> (Inl err, st\<lparr>root := h\<rparr>)
                 | Inr (s, rc) \<Rightarrow> (Inr rc, st\<lparr>root := h, Store := s\<rparr>))))"

definition Snapshot :: "('h, 's) StateTree \<Rightarrow> ('h, 's) StateTree" where
  "Snapshot st = st\<lparr>snaps := addLayer (snaps st)\<rparr>"

definition ClearSnapshot :: "('h, 's) StateTree \<Rightarrow> ('h, 's) StateTree option" where
  "ClearSnapshot st = map_option (\<lambda>ss. st\<lparr>snaps := ss\<rparr>) (mergeLastLayer (snaps st))"

definition Revert :: "('h, 's) StateTree \<Rightarrow> ('h, 's) StateTree option" where
  "Revert st = map_option (\<lambda>ss. st\<lparr>snaps := addLayer ss\<rparr>) (dropLayer (snaps st))"

text \<open>\<open>f\<close> may use the tree it closes over; \<open>'x\<close> is what it leaves in captured variables.\<close>

definition MutateActor ::
  "('h, 's, 'i) tree_env \<Rightarrow> ('h, 's) StateTree \<Rightarrow> address \<Rightarrow>
   (('h, 's) StateTree \<Rightarrow> Actor \<Rightarrow> (state_err + Actor \<times> 'x) \<times> ('h, 's) StateTree) \<Rightarrow> ('h, 's, 'x) tree_res" where
  "MutateActor env st addr f =
    (case GetActor env st addr of
       None \<Rightarrow> None
     | Some (Inl err, st) \<Rightarrow> Some (Inl err, st)
     | Some (Inr act, st) \<Rightarrow>
         (case f st act of
            (Inl err, st) \<Rightarrow> Some (Inl err, st)
          | (Inr (act, x), st) \<Rightarrow> map_option (\<lambda>(r, st). (map_sum id (\<lambda>_. x) r, st)) (SetActor env st addr act)))"

definition RegisterNewAddress :: "('h, 's, 'i) tree_env \<Rightarrow> ('h, 's) StateTree \<Rightarrow> address \<Rightarrow> ('h, 's, address) tree_res" where
  "RegisterNewAddress env st addr =
    MutateActor env st (InitAddress env) (\<lambda>st initact.
      case init_Load env (Store st) initact of
        Inl err \<Rightarrow> (Inl err, st)
      | Inr ias \<Rightarrow>
          (case MapAddressToNewID env ias addr of
             Inl err \<Rightarrow> (Inl err, st)
           | Inr (ias, oaddr) \<Rightarrow>
               (case PutInit env (Store st) ias of
                  Inl err \<Rightarrow> (Inl err, st)
                | Inr (s, ncid) \<Rightarrow> (Inr (initact\<lparr>Head := ncid\<rparr>, oaddr), st\<lparr>Store := s\<rparr>))))"

section \<open>What the operations do to the views\<close>

text \<open>
  The HAMT is a map over a store that does not fail: \<open>ent h\<close> are its entries. Deleting an entry that is not there may fail or do nothing.
\<close>

definition hamt_ok :: "('h, 's, 'i) tree_env \<Rightarrow> ('h \<Rightarrow> view) \<Rightarrow> bool" where
  "hamt_ok env ent \<longleftrightarrow>
    (\<forall>h a. HGet env h a = Inr (ent h a)) \<and>
    (\<forall>h a x. \<exists>h'. HPut env h a x = Inr h' \<and> ent h' = (ent h)(a \<mapsto> x)) \<and>
    (\<forall>h a. (\<exists>h'. HDelete env h a = Inr h' \<and> ent h' = (ent h)(a := None)) \<or>
       (ent h a = None \<and> (\<exists>e. HDelete env h a = Inl e)))"

text \<open>The init actor has an ID address.\<close>

definition init_ok :: "('h, 's, 'i) tree_env \<Rightarrow> bool" where
  "init_ok env \<longleftrightarrow> Is_ID env (InitAddress env) \<and> InitAddress env \<noteq> Undef env"

definition tree_ok :: "('h, 's) StateTree \<Rightarrow> bool" where
  "tree_ok st \<longleftrightarrow> snaps_ok (snaps st) \<and> layers (snaps st) \<noteq> []"

definition tviews :: "('h \<Rightarrow> view) \<Rightarrow> ('h, 's) StateTree \<Rightarrow> view list" where
  "tviews ent st = views (ent (root st)) (snaps st)"

text \<open>Trees that differ in cached lookups only.\<close>

definition same_tree :: "('h \<Rightarrow> view) \<Rightarrow> ('h, 's) StateTree \<Rightarrow> ('h, 's) StateTree \<Rightarrow> bool" where
  "same_tree ent st st' \<longleftrightarrow> tviews ent st' = tviews ent st \<and> Store st' = Store st \<and> root st' = root st"

text \<open>The actor a view holds, as \<open>GetActor\<close> returns it, and the ID the init actor of a view gives an address.\<close>

definition actor_of :: "view \<Rightarrow> address \<Rightarrow> state_err + Actor" where
  "actor_of v a = (case v a of Some x \<Rightarrow> Inr x | None \<Rightarrow> Inl ErrActorNotFound)"

definition init_resolve :: "('h, 's, 'i) tree_env \<Rightarrow> 's \<Rightarrow> view \<Rightarrow> address \<Rightarrow> state_err + address" where
  "init_resolve env s v a =
    (case v (InitAddress env) of
       None \<Rightarrow> Inl (Wrap ''getting init actor'' ErrActorNotFound)
     | Some act \<Rightarrow>
         (case init_Load env s act of
            Inl err \<Rightarrow> Inl (Wrap ''loading init actor state'' err)
          | Inr ias \<Rightarrow>
              (case ResolveAddress env ias a of
                 Inl err \<Rightarrow> Inl (Wrap ''resolve address'' err)
               | Inr None \<Rightarrow> Inl (Wrap ''resolve address'' ErrActorNotFound)
               | Inr (Some r) \<Rightarrow> Inr r)))"

lemma tviews_snaps: "tviews ent (st\<lparr>snaps := ss\<rparr>) = views (ent (root st)) ss"
  by (simp add: tviews_def)

lemma GetActor_with_view:
  assumes "hamt_ok env ent" "addr \<noteq> Undef env" "lookup st addr = Some (Inr ia, st1)" "tree_ok st1"
  shows "\<exists>st'. GetActor_with env lookup st addr = Some (actor_of (hd (tviews ent st1)) ia, st') \<and>
    same_tree ent st1 st' \<and> tree_ok st' \<and> (\<forall>a. cached (snaps st') a = cached (snaps st1) a)"
proof -
  let ?v = "hd (tviews ent st1)"
  have v: "?v ia = (case getActor (snaps st1) ia of Inl e \<Rightarrow> None | Inr (Some x) \<Rightarrow> Some x | Inr None \<Rightarrow> ent (root st1) ia)"
    by (simp add: tviews_def views_def getActor_def get_loop_view)
  have h: "HGet env (root st1) ia = Inr (ent (root st1) ia)" using assms(1) by (simp add: hamt_ok_def)
  consider e where "getActor (snaps st1) ia = Inl e" | x where "getActor (snaps st1) ia = Inr (Some x)"
    | "getActor (snaps st1) ia = Inr None" "ent (root st1) ia = None"
    | x where "getActor (snaps st1) ia = Inr None" "ent (root st1) ia = Some x"
    by (metis old.sum.exhaust option.exhaust)
  then show ?thesis
  proof cases
    case 1
    then have "e = ErrActorNotFound" using get_loop_err by (auto simp: getActor_def)
    then show ?thesis using 1 v assms by (auto simp: GetActor_with_def actor_of_def same_tree_def)
  next
    case 2
    then show ?thesis using v assms by (auto simp: GetActor_with_def actor_of_def same_tree_def)
  next
    case 3
    then show ?thesis using v h assms by (auto simp: GetActor_with_def actor_of_def same_tree_def)
  next
    case (4 x)
    have l: "layers (snaps st1) \<noteq> []" using assms(4) by (simp add: tree_ok_def)
    obtain ss where s: "setActor (snaps st1) ia x = Some ss"
      "views (ent (root st1)) ss = ?v(ia \<mapsto> x) # tl (tviews ent st1)"
      using views_top_layer(1) [OF l] unfolding tviews_def by blast
    have "?v(ia \<mapsto> x) = ?v" using v 4 by (simp add: fun_upd_idem)
    then have "views (ent (root st1)) ss = tviews ent st1" using s(2) by (simp add: tviews_def views_def)
    moreover have "snaps_ok ss" using snaps_ok_top_layer(1) [OF _ s(1)] assms(4) by (simp add: tree_ok_def)
    moreover have "layers ss \<noteq> []" "cached ss a = cached (snaps st1) a" for a
    proof -
      obtain ls t where "layers (snaps st1) = ls @ [t]" using l by (rule last_layer_cases)
      then show "layers ss \<noteq> []" "cached ss a = cached (snaps st1) a"
        using s(1) by (auto simp: setActor_def top_layer_snoc cached_def)
    qed
    ultimately show ?thesis
      using 4 v h s(1) assms(2,3)
      by (auto simp: GetActor_with_def actor_of_def same_tree_def tree_ok_def tviews_snaps)
  qed
qed

lemma LookupID_fuel_id: "Is_ID env a \<Longrightarrow> LookupID_fuel (Suc n) env st a = Some (Inr a, st)"
  by simp

lemma LookupID_fuel_view:
  assumes "hamt_ok env ent" "init_ok env" "tree_ok st"
  shows "\<exists>st'. LookupID_fuel (Suc (Suc n)) env st a =
      Some (if Is_ID env a then Inr a
            else case cached (snaps st) a of Some r \<Rightarrow> Inr r | None \<Rightarrow> init_resolve env (Store st) (hd (tviews ent st)) a, st') \<and>
    same_tree ent st st' \<and> tree_ok st'"
proof (cases "Is_ID env a")
  case True
  then show ?thesis using assms(3) by (simp add: same_tree_def)
next
  case False
  obtain ss where ss: "resolveAddress (snaps st) a = Some (cached (snaps st) a, ss)" "snaps_ok ss" "layers ss = layers (snaps st)"
    using resolveAddress_search assms(3) unfolding tree_ok_def by blast
  define st1 where "st1 = st\<lparr>snaps := ss\<rparr>"
  have ok1: "tree_ok st1" using ss assms(3) by (simp add: st1_def tree_ok_def)
  have v1: "same_tree ent st st1" using ss(3) by (simp add: st1_def same_tree_def tviews_def views_def)
  show ?thesis
  proof (cases "cached (snaps st) a")
    case (Some r)
    then show ?thesis using False ss(1) v1 ok1 by (auto simp: st1_def [symmetric])
  next
    case None
    have "LookupID_fuel (Suc n) env st1 (InitAddress env) = Some (Inr (InitAddress env), st1)"
      using assms(2) by (simp add: init_ok_def)
    then obtain st2 where g: "GetActor_with env (LookupID_fuel (Suc n) env) st1 (InitAddress env) =
        Some (actor_of (hd (tviews ent st1)) (InitAddress env), st2)" "same_tree ent st1 st2" "tree_ok st2"
      using GetActor_with_view [OF assms(1) _ _ ok1] assms(2) unfolding init_ok_def by blast
    have st2: "same_tree ent st st2" using v1 g(2) by (simp add: same_tree_def)
    have i: "lookupIDinternal env (GetActor_with env (LookupID_fuel (Suc n) env)) st1 a =
        Some (init_resolve env (Store st) (hd (tviews ent st)) a, st2)"
      using g(1) v1 st2 unfolding lookupIDinternal_def init_resolve_def actor_of_def
      by (auto simp: same_tree_def split: option.splits sum.splits)
    have l2: "layers (snaps st2) \<noteq> []" "snaps_ok (snaps st2)" using g(3) by (auto simp: tree_ok_def)
    show ?thesis
    proof (cases "init_resolve env (Store st) (hd (tviews ent st)) a")
      case (Inl e)
      then show ?thesis using False None ss(1) i st2 g(3) by (auto simp: st1_def [symmetric])
    next
      case (Inr r)
      obtain ss3 where c: "cacheResolveAddress (snaps st2) a r = Some ss3" "views (ent (root st2)) ss3 = views (ent (root st2)) (snaps st2)"
        using views_top_layer(3) [OF l2(1)] by blast
      have "layers ss3 \<noteq> []" using c(1) by (auto simp: cacheResolveAddress_def top_layer_def Let_def split: if_splits)
      then have "tree_ok (st2\<lparr>snaps := ss3\<rparr>)" using snaps_ok_top_layer(3) [OF l2(2) c(1)] by (simp add: tree_ok_def)
      moreover have "same_tree ent st (st2\<lparr>snaps := ss3\<rparr>)" using st2 c(2) by (auto simp: same_tree_def tviews_def)
      ultimately show ?thesis using False None ss(1) i Inr c(1) by (auto simp: st1_def [symmetric])
    qed
  qed
qed


text \<open>More depth changes nothing.\<close>

lemma LookupID_fuel_enough:
  assumes "init_ok env"
  shows "LookupID_fuel (Suc (Suc n)) env st a = LookupID env st a"
proof -
  have "GetActor_with env (LookupID_fuel (Suc n) env) st1 (InitAddress env) =
      GetActor_with env (LookupID_fuel (Suc 0) env) st1 (InitAddress env)" for st1
    using assms by (simp add: GetActor_with_def init_ok_def)
  then show ?thesis
    by (simp add: LookupID_def numeral_2_eq_2 lookupIDinternal_def cong: option.case_cong)
qed

lemmas LookupID_view = LookupID_fuel_view [where n = 0, folded numeral_2_eq_2, folded LookupID_def]

lemma GetActor_view:
  assumes "hamt_ok env ent" "init_ok env" "tree_ok st" "a \<noteq> Undef env" "LookupID env st a = Some (Inr ia, st1)"
  shows "\<exists>st'. GetActor env st a = Some (actor_of (hd (tviews ent st)) ia, st') \<and> same_tree ent st st' \<and> tree_ok st'"
proof -
  have s1: "same_tree ent st st1" "tree_ok st1" using LookupID_view [OF assms(1-3), of a] assms(5) by auto
  then show ?thesis
    using GetActor_with_view [where lookup = "LookupID env", OF assms(1,4,5)] unfolding GetActor_def same_tree_def by metis
qed

lemma SetActor_view:
  assumes "hamt_ok env ent" "init_ok env" "tree_ok st" "LookupID env st a = Some (Inr ia, st1)"
  shows "\<exists>st'. SetActor env st a x = Some (Inr (), st') \<and>
    tviews ent st' = (hd (tviews ent st))(ia \<mapsto> x) # tl (tviews ent st) \<and> Store st' = Store st \<and> root st' = root st \<and> tree_ok st'"
proof -
  have s1: "same_tree ent st st1" "tree_ok st1" using LookupID_view [OF assms(1-3), of a] assms(4) by auto
  then have l: "layers (snaps st1) \<noteq> []" by (simp add: tree_ok_def)
  obtain ss where s: "setActor (snaps st1) ia x = Some ss"
      "views (ent (root st1)) ss = (hd (views (ent (root st1)) (snaps st1)))(ia \<mapsto> x) # tl (views (ent (root st1)) (snaps st1))"
    using views_top_layer(1) [OF l] by blast
  have "layers ss \<noteq> []" using s(1) by (auto simp: setActor_def top_layer_def Let_def split: if_splits)
  then have "tree_ok (st1\<lparr>snaps := ss\<rparr>)" using snaps_ok_top_layer(1) [OF _ s(1)] s1(2) by (simp add: tree_ok_def)
  then show ?thesis using assms(4) s s1(1) by (auto simp: SetActor_def tviews_def same_tree_def)
qed

lemma DeleteActor_view:
  assumes "hamt_ok env ent" "init_ok env" "tree_ok st" "Is_ID env a" "a \<noteq> Undef env"
  shows "\<exists>st'. DeleteActor env st a = Some (map_sum id (\<lambda>_. ()) (actor_of (hd (tviews ent st)) a), st') \<and>
    tviews ent st' = (hd (tviews ent st))(a := None) # tl (tviews ent st) \<and> Store st' = Store st \<and> root st' = root st \<and> tree_ok st'"
proof -
  have lk: "LookupID env st a = Some (Inr a, st)" using assms(4) by (simp add: LookupID_def numeral_2_eq_2)
  obtain st1 where g: "GetActor env st a = Some (actor_of (hd (tviews ent st)) a, st1)" "same_tree ent st st1" "tree_ok st1"
    using GetActor_view [OF assms(1-3,5) lk] by blast
  have ne: "tviews ent st \<noteq> []" by (simp add: tviews_def views_def)
  show ?thesis
  proof (cases "hd (tviews ent st) a")
    case None
    then have "(hd (tviews ent st))(a := None) = hd (tviews ent st)" by (simp add: fun_upd_idem)
    then show ?thesis using None lk g assms(5) ne by (auto simp: DeleteActor_def actor_of_def same_tree_def)
  next
    case (Some x)
    have l: "layers (snaps st1) \<noteq> []" using g(3) by (simp add: tree_ok_def)
    obtain ss where s: "deleteActor (snaps st1) a = Some ss"
        "views (ent (root st1)) ss = (hd (views (ent (root st1)) (snaps st1)))(a := None) # tl (views (ent (root st1)) (snaps st1))"
      using views_top_layer(2) [OF l] by blast
    have "layers ss \<noteq> []" using s(1) by (auto simp: deleteActor_def top_layer_def Let_def split: if_splits)
    then have "tree_ok (st1\<lparr>snaps := ss\<rparr>)" using snaps_ok_top_layer(2) [OF _ s(1)] g(3) by (simp add: tree_ok_def)
    then show ?thesis using Some lk g s assms(5) by (auto simp: DeleteActor_def actor_of_def tviews_def same_tree_def)
  qed
qed

lemma Snapshot_view:
  assumes "tree_ok st"
  shows "tviews ent (Snapshot st) = hd (tviews ent st) # tviews ent st" "tree_ok (Snapshot st)"
  using assms snaps_ok_addLayer
  by (auto simp: Snapshot_def tviews_def views_addLayer tree_ok_def) (simp add: addLayer_def)

lemma dropLayer_Some: "layers ss \<noteq> [] \<Longrightarrow> \<exists>ss'. dropLayer ss = Some ss'"
  by (simp add: dropLayer_def Let_def)

lemma Revert_view:
  assumes "tree_ok st"
  shows "\<exists>st'. Revert st = Some st' \<and> tree_ok st' \<and>
    tviews ent st' = hd (tl (tviews ent st)) # tl (tviews ent st) \<and> Store st' = Store st"
proof -
  obtain ss where d: "dropLayer (snaps st) = Some ss" using dropLayer_Some assms by (auto simp: tree_ok_def)
  have "snaps_ok (addLayer ss)" using snaps_ok_addLayer snaps_ok_dropLayer [OF _ d] assms by (simp add: tree_ok_def)
  moreover have "layers (addLayer ss) \<noteq> []" by (simp add: addLayer_def)
  ultimately show ?thesis
    using d views_dropLayer [OF d] by (auto simp: Revert_def tviews_def views_addLayer tree_ok_def)
qed

lemma ClearSnapshot_view:
  assumes "tree_ok st"
  shows "case tviews ent st of
      v # w # x # vs \<Rightarrow> \<exists>st'. ClearSnapshot st = Some st' \<and> tree_ok st' \<and> tviews ent st' = v # x # vs \<and> Store st' = Store st
    | _ \<Rightarrow> ClearSnapshot st = None"
proof (cases "length (layers (snaps st)) < 2")
  case True
  then have "length (tviews ent st) \<le> 2" by (simp add: tviews_def length_views)
  then show ?thesis using True by (auto simp: ClearSnapshot_def mergeLastLayer_def split: list.splits)
next
  case False
  then have "\<exists>ss. mergeLastLayer (snaps st) = Some ss"
    using assms unfolding mergeLastLayer_def Let_def if_not_P [OF False]
    by (intro dropLayer_Some) (simp add: tree_ok_def)
  then obtain ss where m: "mergeLastLayer (snaps st) = Some ss" by blast
  obtain v w vs where v: "tviews ent st = v # w # vs" "views (ent (root st)) ss = v # vs"
    using views_mergeLastLayer [OF m] unfolding tviews_def by blast
  have "length vs = length (layers ss)" using v(2) length_views [of "ent (root st)" ss] by simp
  moreover have "Suc (length vs) = length (layers (snaps st))" using v(1) length_views [of "ent (root st)" "snaps st"] by (simp add: tviews_def)
  ultimately have ne: "layers ss \<noteq> []" "vs \<noteq> []" using False by auto
  moreover have "snaps_ok ss" using snaps_ok_mergeLastLayer [OF _ m] assms by (simp add: tree_ok_def)
  ultimately show ?thesis
    using m v by (cases vs) (auto simp: ClearSnapshot_def tree_ok_def tviews_def)
qed

end
