(* ===== verification/State_Refine.thy ===== *)
theory State_Refine
  imports State_Tree
begin

text \<open>
  The contract of the state tree: a stack of maps from addresses to actors. \<open>tree_step\<close> runs an operation
  of the tree, \<open>spec_step\<close> says what it does to the stack; the interpretation of \<open>simulation\<close> shows that
  the tree implements the stack. On top of it: reverting a snapshot undoes everything since, flushing
  writes the current map, registering an address makes it resolvable.
\<close>

section \<open>The specification\<close>

datatype tree_op = OpGet address | OpSet address Actor | OpDelete address | OpSnapshot | OpClear | OpRevert

datatype answer = Done | Failed state_err | Got Actor

definition tree_step :: "('h, 's, 'i) tree_env \<Rightarrow> tree_op \<Rightarrow> ('h, 's) StateTree \<Rightarrow> (answer \<times> ('h, 's) StateTree) option" where
  "tree_step env op st =
    (case op of
       OpGet a \<Rightarrow> map_option (\<lambda>(r, st). (case_sum Failed Got r, st)) (GetActor env st a)
     | OpSet a x \<Rightarrow> map_option (\<lambda>(r, st). (case_sum Failed (\<lambda>_. Done) r, st)) (SetActor env st a x)
     | OpDelete a \<Rightarrow> map_option (\<lambda>(r, st). (case_sum Failed (\<lambda>_. Done) r, st)) (DeleteActor env st a)
     | OpSnapshot \<Rightarrow> Some (Done, Snapshot st)
     | OpClear \<Rightarrow> map_option (Pair Done) (ClearSnapshot st)
     | OpRevert \<Rightarrow> map_option (Pair Done) (Revert st))"

fun spec_step :: "tree_op \<Rightarrow> view list \<Rightarrow> (answer \<times> view list) option" where
  "spec_step (OpGet a) (v # vs) = Some (case v a of Some x \<Rightarrow> Got x | None \<Rightarrow> Failed ErrActorNotFound, v # vs)"
| "spec_step (OpSet a x) (v # vs) = Some (Done, v(a \<mapsto> x) # vs)"
| "spec_step (OpDelete a) (v # vs) =
    Some (case v a of Some x \<Rightarrow> Done | None \<Rightarrow> Failed ErrActorNotFound, v(a := None) # vs)"
| "spec_step OpSnapshot (v # vs) = Some (Done, v # v # vs)"
| "spec_step OpClear (v # w # x # vs) = Some (Done, v # x # vs)"
| "spec_step OpRevert (v # w # vs) = Some (Done, w # w # vs)"
| "spec_step _ _ = None"

definition op_ok :: "('h, 's, 'i) tree_env \<Rightarrow> tree_op \<Rightarrow> bool" where
  "op_ok env op = (case op of
     OpGet a \<Rightarrow> Is_ID env a \<and> a \<noteq> Undef env | OpSet a x \<Rightarrow> Is_ID env a | OpDelete a \<Rightarrow> Is_ID env a \<and> a \<noteq> Undef env | _ \<Rightarrow> True)"

definition tree_inv :: "('h, 's, 'i) tree_env \<Rightarrow> ('h \<Rightarrow> view) \<Rightarrow> ('h, 's) StateTree \<Rightarrow> bool" where
  "tree_inv env ent st \<longleftrightarrow> hamt_ok env ent \<and> init_ok env \<and> tree_ok st"

lemma LookupID_id: "Is_ID env a \<Longrightarrow> LookupID env st a = Some (Inr a, st)"
  by (simp add: LookupID_def numeral_2_eq_2)

lemma tviews_Cons: "tree_ok st \<Longrightarrow> \<exists>v w vs. tviews ent st = v # w # vs"
  using length_views [of "ent (root st)" "snaps st"]
  by (auto simp: tree_ok_def tviews_def length_Suc_conv neq_Nil_conv)

lemma tree_step_sim:
  assumes "tree_inv env ent st" "op_ok env op"
  shows "map_option (apsnd (tviews ent)) (tree_step env op st) = spec_step op (tviews ent st) \<and>
    (\<forall>a st'. tree_step env op st = Some (a, st') \<longrightarrow> tree_inv env ent st')"
proof -
  have h: "hamt_ok env ent" "init_ok env" "tree_ok st" using assms(1) by (auto simp: tree_inv_def)
  obtain v w vs where v: "tviews ent st = v # w # vs" using tviews_Cons [OF h(3)] by blast
  note d = tree_step_def actor_of_def tree_inv_def op_ok_def same_tree_def
  show ?thesis
  proof (cases op)
    case (OpGet a)
    then have "Is_ID env a" "a \<noteq> Undef env" using assms(2) by (auto simp: op_ok_def)
    then show ?thesis
      using GetActor_view [OF h, where a = a and ia = a] LookupID_id [where env = env and a = a and st = st] v h OpGet by (auto simp: d split: option.splits)
  next
    case (OpSet a x)
    then have "Is_ID env a" using assms(2) by (auto simp: op_ok_def)
    then show ?thesis
      using SetActor_view [OF h, where a = a and ia = a and x = x] LookupID_id [where env = env and a = a and st = st] v h OpSet by (auto simp: d)
  next
    case (OpDelete a)
    then have "Is_ID env a" "a \<noteq> Undef env" using assms(2) by (auto simp: op_ok_def)
    then show ?thesis
      using DeleteActor_view [OF h, where a = a] v h OpDelete by (auto simp: d split: option.splits)
  next
    case OpSnapshot
    then show ?thesis using Snapshot_view(1) [OF h(3), of ent] Snapshot_view(2) [OF h(3)] v h by (simp add: d)
  next
    case OpClear
    then show ?thesis using ClearSnapshot_view(1) [OF h(3), of ent] Snapshot_view(2) [OF h(3)] v h by (cases vs) (auto simp: d)
  next
    case OpRevert
    then show ?thesis using Revert_view [OF h(3), of ent] v h by (auto simp: d)
  qed
qed

interpretation tree: simulation "tree_step env" spec_step "tviews ent" "tree_inv env ent" "op_ok env" for env ent
  by unfold_locales (use tree_step_sim in blast)+

section \<open>Nested snapshots\<close>

text \<open>
  Sequences in which every snapshot is closed: cleared, which keeps what was done since, or reverted
  and cleared, as the virtual machine does around each message and each nested send.
\<close>

inductive balanced :: "tree_op list \<Rightarrow> bool" where
  nil: "balanced []"
| get: "balanced ops \<Longrightarrow> balanced (OpGet a # ops)"
| set: "balanced ops \<Longrightarrow> balanced (OpSet a x # ops)"
| delete: "balanced ops \<Longrightarrow> balanced (OpDelete a # ops)"
| commit: "balanced xs \<Longrightarrow> balanced ys \<Longrightarrow> balanced (OpSnapshot # xs @ OpClear # ys)"
| abort: "balanced xs \<Longrightarrow> balanced ys \<Longrightarrow> balanced (OpSnapshot # xs @ OpRevert # OpClear # ys)"

lemma run_ops_append:
  "run_ops step (xs @ ys) s =
    (case run_ops step xs s of
       None \<Rightarrow> None
     | Some (as, s') \<Rightarrow> map_option (\<lambda>(bs, s''). (as @ bs, s'')) (run_ops step ys s'))"
proof (induction xs arbitrary: s)
  case Nil
  show ?case by (cases "run_ops step ys s") auto
next
  case (Cons x xs)
  show ?case
  proof (cases "step x s")
    case (Some r)
    obtain a s1 where r: "r = (a, s1)" by fastforce
    show ?thesis
    proof (cases "run_ops step xs s1")
      case (Some q)
      obtain as s2 where "q = (as, s2)" by fastforce
      then show ?thesis using Some r \<open>step x s = Some r\<close> Cons.IH [of s1] by (cases "run_ops step ys s2") auto
    qed (use Some r Cons.IH [of s1] in simp)
  qed simp
qed

lemma balanced_spec: "balanced ops \<Longrightarrow> \<exists>as v'. run_ops spec_step ops (v # w # vs) = Some (as, v' # w # vs)"
proof (induction ops arbitrary: v w vs rule: balanced.induct)
  case (commit xs ys)
  obtain as v1 where "run_ops spec_step xs (v # v # w # vs) = Some (as, v1 # v # w # vs)" using commit.IH(1) by blast
  moreover obtain bs v2 where "run_ops spec_step ys (v1 # w # vs) = Some (bs, v2 # w # vs)" using commit.IH(2) by blast
  ultimately show ?case by (simp add: run_ops_append)
next
  case (abort xs ys)
  obtain as v1 where "run_ops spec_step xs (v # v # w # vs) = Some (as, v1 # v # w # vs)" using abort.IH(1) by blast
  moreover obtain bs v2 where "run_ops spec_step ys (v # w # vs) = Some (bs, v2 # w # vs)" using abort.IH(2) by blast
  ultimately show ?case by (simp add: run_ops_append)
next
  case (get ops a)
  then show ?case by fastforce
next
  case (set ops a x)
  obtain as v' where "run_ops spec_step ops (v(a \<mapsto> x) # w # vs) = Some (as, v' # w # vs)" using set.IH by blast
  then show ?case by simp
next
  case (delete ops a)
  obtain as v' where "run_ops spec_step ops (v(a := None) # w # vs) = Some (as, v' # w # vs)" using delete.IH by blast
  then show ?case by simp
qed simp


section \<open>A sample environment\<close>

text \<open>The HAMT is a map, the block store keeps one init actor state, which maps addresses to IDs.\<close>

definition sample_tree_env :: "(view, address \<rightharpoonup> address, address \<rightharpoonup> address) tree_env" where
  "sample_tree_env = \<lparr>Is_ID = (\<lambda>a. take 2 a = ''t0''), Undef = '''', InitAddress = ''t01'', InitActorCodeID = ''init'',
     load3 = (\<lambda>s c. Inr s), ResolveAddress = (\<lambda>i a. Inr (i a)),
     MapAddressToNewID = (\<lambda>i a. Inr (i(a \<mapsto> ''t0100''), ''t0100'')), PutInit = (\<lambda>s i. Inr (i, ''c'')),
     PutInfo = (\<lambda>s. Inr (s, ''info'')), PutRoot = (\<lambda>s r. Inr (s, ''root'')), GetRoot = (\<lambda>s c. Inr (2, ''hamt'', ''info'')),
     NewTree = (\<lambda>s. Inr (s, Map.empty)), LoadTree = (\<lambda>s c. Inr Map.empty),
     HGet = (\<lambda>h a. Inr (h a)), HPut = (\<lambda>h a x. Inr (h(a \<mapsto> x))), HDelete = (\<lambda>h a. Inr (h(a := None))), HRoot = (\<lambda>h. Inr ''hamt'')\<rparr>"

definition init_actor :: Actor where
  "init_actor = \<lparr>Code = ''init'', Head = ''c'', Nonce = 0, Balance = 0\<rparr>"

definition sample_tree :: "(view, address \<rightharpoonup> address) StateTree" where
  "sample_tree = \<lparr>root = [''t01'' \<mapsto> init_actor], version = 2, info = ''info'', Store = Map.empty, snaps = newStateSnaps\<rparr>"

lemma sample_tree_inv: "tree_inv sample_tree_env id sample_tree"
  using snaps_ok_new
  by (auto simp: tree_inv_def hamt_ok_def init_ok_def tree_ok_def sample_tree_env_def sample_tree_def newStateSnaps_def addLayer_def)

lemma sample_tree_views: "tviews id sample_tree = [[''t01'' \<mapsto> init_actor], [''t01'' \<mapsto> init_actor]]"
  by (simp add: tviews_def views_def sample_tree_def newStateSnaps_def addLayer_def newStateSnapLayer_def apply_layer_def fun_eq_iff)

section \<open>Properties\<close>

text \<open>
  C37. The state tree implements a stack of maps: for every sequence of reads, writes and deletions of
  actors (by ID address), snapshots, clears and reverts, the tree panics exactly when the stack has no
  snapshot to clear, and otherwise gives the same answers and ends in a tree that stands for the stack
  the specification ends in.
\<close>

theorem tree_implements_stack:
  assumes "tree_inv env ent st" "\<forall>op \<in> set ops. op_ok env op"
  shows "map_option (apsnd (tviews ent)) (run_ops (tree_step env) ops st) = run_ops spec_step ops (tviews ent st)"
  using assms by (rule tree.run_sim)

theorem tree_implements_stack_witness:
  "map_option (apsnd (tviews id)) (run_ops (tree_step sample_tree_env)
      [OpSnapshot, OpSet ''t05'' zero_actor, OpGet ''t05'', OpRevert, OpGet ''t05'', OpClear, OpClear] sample_tree) = None \<and>
   map_option fst (map_option (apsnd (tviews id)) (run_ops (tree_step sample_tree_env)
      [OpSnapshot, OpSet ''t05'' zero_actor, OpGet ''t05'', OpRevert, OpGet ''t05'', OpClear] sample_tree)) =
    Some [Done, Done, Got zero_actor, Done, Failed ErrActorNotFound, Done]"
  by (subst tree_implements_stack [OF sample_tree_inv];
      (subst tree_implements_stack [OF sample_tree_inv])?; simp add: op_ok_def sample_tree_env_def sample_tree_views)

text \<open>
  C38. Reverting undoes: whatever reads, writes, deletions and properly closed nested snapshots happen
  after a snapshot, reverting and clearing it succeeds and gives back the stack of maps from before.
\<close>

theorem revert_restores:
  assumes "tree_inv env ent st" "balanced ops" "\<forall>op \<in> set ops. op_ok env op"
  shows "\<exists>as st'. run_ops (tree_step env) (OpSnapshot # ops @ [OpRevert, OpClear]) st = Some (as, st') \<and>
    tviews ent st' = tviews ent st"
proof -
  let ?ops = "OpSnapshot # ops @ [OpRevert, OpClear]"
  obtain v w vs where v: "tviews ent st = v # w # vs"
    using tviews_Cons assms(1) unfolding tree_inv_def by blast
  obtain as v' where "run_ops spec_step ops (v # v # w # vs) = Some (as, v' # v # w # vs)"
    using balanced_spec [OF assms(2)] by blast
  then have "run_ops spec_step ?ops (tviews ent st) = Some (Done # as @ [Done, Done], tviews ent st)"
    by (simp add: run_ops_append v)
  moreover have "\<forall>op \<in> set ?ops. op_ok env op" using assms(3) by (auto simp: op_ok_def)
  ultimately have "map_option (apsnd (tviews ent)) (run_ops (tree_step env) ?ops st) = Some (Done # as @ [Done, Done], tviews ent st)"
    using tree.run_sim [OF assms(1)] by metis
  then show ?thesis by auto
qed

theorem revert_restores_witness:
  "\<exists>as st'. run_ops (tree_step sample_tree_env) (OpSnapshot # [OpSet ''t05'' zero_actor, OpDelete ''t01''] @ [OpRevert, OpClear]) sample_tree =
      Some (as, st') \<and> tviews id st' = tviews id sample_tree"
  by (rule revert_restores [OF sample_tree_inv])
    (auto simp: op_ok_def sample_tree_env_def intro: balanced.intros)


section \<open>Flushing\<close>

lemma hamt_put: "hamt_ok env ent \<Longrightarrow> \<exists>h'. HPut env h a x = Inr h' \<and> ent h' = (ent h)(a \<mapsto> x)"
  by (simp add: hamt_ok_def)

lemma hamt_delete:
  assumes "hamt_ok env ent" "ent h a \<noteq> None"
  shows "\<exists>h'. HDelete env h a = Inr h' \<and> ent h' = (ent h)(a := None)"
proof -
  have "(\<exists>h'. HDelete env h a = Inr h' \<and> ent h' = (ent h)(a := None)) \<or> (ent h a = None \<and> (\<exists>e. HDelete env h a = Inl e))"
    using assms(1) unfolding hamt_ok_def by simp
  then show ?thesis using assms(2) by simp
qed

text \<open>What a layer makes of the entries of the HAMT, for the addresses the loop has been through.\<close>

lemma flush_loop_entries:
  assumes "hamt_ok env ent" "flush_loop env acts order h = (e, h')"
  shows "\<exists>done \<subseteq> set order. (e = None \<longrightarrow> done = set order) \<and>
    ent h' = (\<lambda>a. if a \<in> done then (case fmlookup acts a of
        Some op \<Rightarrow> if Delete op then None else Some (Act op) | None \<Rightarrow> ent h a) else ent h a)"
  using assms(2)
proof (induction order arbitrary: h)
  case (Cons addr order)
  let ?f = "\<lambda>h done. \<lambda>a. if a \<in> done then (case fmlookup acts a of
        Some op \<Rightarrow> if Delete op then None else Some (Act op) | None \<Rightarrow> ent h a) else ent h a"
  show ?case
  proof (cases "fmlookup acts addr")
    case None
    then obtain D where "D \<subseteq> set order" "e = None \<longrightarrow> D = set order" "ent h' = ?f h D"
      using Cons.IH [of h] Cons.prems by auto
    then show ?thesis using None by (intro exI [of _ "if e = None then insert addr D else D"]) (auto simp: fun_eq_iff)
  next
    case (Some op)
    show ?thesis
    proof (cases "if Delete op then HDelete env h addr else HPut env h addr (Act op)")
      case (Inl err)
      then have "e = Some err" "h' = h" using Cons.prems Some by auto
      then show ?thesis by (intro exI [of _ "{}"]) auto
    next
      case (Inr h1)
      have h1: "ent h1 = (ent h)(addr := if Delete op then None else Some (Act op))"
        using assms(1) Inr unfolding hamt_ok_def by (cases "Delete op") (auto, (metis sum.inject(2) sum.distinct(1))+)
      obtain D where D: "D \<subseteq> set order" "e = None \<longrightarrow> D = set order" "ent h' = ?f h1 D"
        using Cons.IH [of h1] Cons.prems Some Inr by auto
      then show ?thesis using Some h1 by (intro exI [of _ "insert addr D"]) (auto simp: fun_eq_iff split: option.splits)
    qed
  qed
qed auto

lemma flush_loop_succeeds:
  assumes "hamt_ok env ent" "distinct order"
    and "\<forall>a \<in> set order. \<forall>op. fmlookup acts a = Some op \<longrightarrow> Delete op \<longrightarrow> ent h a \<noteq> None"
  shows "fst (flush_loop env acts order h) = None"
  using assms(2,3)
proof (induction order arbitrary: h)
  case (Cons addr order)
  show ?case
  proof (cases "fmlookup acts addr")
    case None
    then show ?thesis using Cons by simp
  next
    case (Some op)
    obtain h1 where h1: "(if Delete op then HDelete env h addr else HPut env h addr (Act op)) = Inr h1"
      "ent h1 = (ent h)(addr := if Delete op then None else Some (Act op))"
    proof (cases "Delete op")
      case True
      then have "ent h addr \<noteq> None" using Cons.prems(2) Some by simp
      then obtain h1 where "HDelete env h addr = Inr h1" "ent h1 = (ent h)(addr := None)"
        using hamt_delete [OF assms(1)] by blast
      then show thesis using that [of h1] True by simp
    next
      case False
      obtain h1 where "HPut env h addr (Act op) = Inr h1" "ent h1 = (ent h)(addr \<mapsto> Act op)"
        using hamt_put [OF assms(1)] by blast
      then show thesis using that [of h1] False by simp
    qed
    have "\<forall>a \<in> set order. \<forall>op. fmlookup acts a = Some op \<longrightarrow> Delete op \<longrightarrow> ent h1 a \<noteq> None"
      using Cons.prems h1(2) by auto
    then show ?thesis using Cons Some h1(1) by simp
  qed
qed simp

text \<open>
  C39. Flushing: with snapshots on the stack it is refused and changes nothing. Otherwise it writes
  exactly the current map into the HAMT, in whatever order it goes through the layer, and it succeeds when
  the store does and every deleted actor is one the HAMT had. A flush that fails midway leaves the current
  map as it was.
\<close>

theorem flush_writes_view:
  assumes "tree_inv env ent st" "distinct order" "set order = fset (fmdom (actors (layers (snaps st) ! 0)))"
  shows "case Flush env order st of (r, st') \<Rightarrow>
    (length (layers (snaps st)) \<noteq> 1 \<longrightarrow> (\<exists>e. r = Inl e) \<and> st' = st) \<and>
    hd (tviews ent st') = hd (tviews ent st) \<and>
    (\<forall>c. r = Inr c \<longrightarrow> ent (root st') = hd (tviews ent st)) \<and>
    (length (layers (snaps st)) = 1 \<and> (\<forall>h. \<exists>c. HRoot env h = Inr c) \<and> (\<forall>s x. \<exists>s' c. PutRoot env s x = Inr (s', c)) \<and>
      (\<forall>a op. fmlookup (actors (layers (snaps st) ! 0)) a = Some op \<longrightarrow> Delete op \<longrightarrow> ent (root st) a \<noteq> None) \<longrightarrow> (\<exists>c. r = Inr c))"
proof (cases "length (layers (snaps st)) = 1")
  case True
  then obtain l where l: "layers (snaps st) = [l]" by (auto simp: length_Suc_conv)
  have h: "hamt_ok env ent" using assms(1) by (simp add: tree_inv_def)
  obtain e h' where fl: "flush_loop env (actors l) order (root st) = (e, h')" by fastforce
  obtain D where D: "D \<subseteq> set order" "e = None \<longrightarrow> D = set order"
    "ent h' = (\<lambda>a. if a \<in> D then (case fmlookup (actors l) a of
        Some op \<Rightarrow> if Delete op then None else Some (Act op) | None \<Rightarrow> ent (root st) a) else ent (root st) a)"
    using flush_loop_entries [OF h fl] by blast
  have hv: "hd (tviews ent (st\<lparr>root := x\<rparr>)) = apply_layer l (ent x)" "hd (tviews ent st) = apply_layer l (ent (root st))" for x
    using l by (simp_all add: tviews_def views_def)
  have keep: "apply_layer l (ent h') = apply_layer l (ent (root st))"
    by (rule ext) (auto simp: D(3) apply_layer_def split: option.splits)
  have dom: "set order = fset (fmdom (actors l))" using assms(3) l by simp
  have wr: "ent h' = apply_layer l (ent (root st))" if "e = None"
  proof
    fix a
    show "ent h' a = apply_layer l (ent (root st)) a"
      using D(2) that dom unfolding D(3) apply_layer_def
      by (cases "fmlookup (actors l) a") (auto simp: fmlookup_dom_iff)
  qed
  have ok: "(\<forall>a op. fmlookup (actors l) a = Some op \<longrightarrow> Delete op \<longrightarrow> ent (root st) a \<noteq> None) \<Longrightarrow> e = None"
    using flush_loop_succeeds [OF h assms(2), of "actors l" "root st"] fl by auto
  have tv: "hd (tviews ent (st\<lparr>root := h', Store := s\<rparr>)) = apply_layer l (ent h')" for s
    using l by (simp add: tviews_def views_def)
  have fd: "Flush env order st = (case e of Some err \<Rightarrow> (Inl err, st\<lparr>root := h'\<rparr>) | None \<Rightarrow>
      (case HRoot env h' of
         Inl err \<Rightarrow> (Inl (Wrap ''failed to flush state-tree hamt'' err), st\<lparr>root := h'\<rparr>)
       | Inr c \<Rightarrow> (case PutRoot env (Store st) (version st, c, info st) of
           Inl err \<Rightarrow> (Inl err, st\<lparr>root := h'\<rparr>)
         | Inr (s, rc) \<Rightarrow> (Inr rc, st\<lparr>root := h', Store := s\<rparr>))))"
    using l fl by (simp add: Flush_def)
  show ?thesis
  proof (cases e)
    case (Some err)
    then show ?thesis unfolding fd using True hv keep ok l by auto
  next
    case None
    show ?thesis
    proof (cases "HRoot env h'")
      case (Inl err)
      then have "\<not> (\<forall>h. \<exists>c. HRoot env h = Inr c)" by (metis Inl_Inr_False)
      then show ?thesis unfolding fd using True None hv keep Inl by simp
    next
      case (Inr c)
      note root_ok = this
      show ?thesis
      proof (cases "PutRoot env (Store st) (version st, c, info st)")
        case (Inl err)
        then have "\<not> (\<forall>s x. \<exists>s' c. PutRoot env s x = Inr (s', c))" by (metis Inl_Inr_False)
        then show ?thesis unfolding fd using True None hv keep Inl root_ok by simp
      next
        case (Inr p)
        then show ?thesis unfolding fd using True None hv keep wr tv root_ok by (cases p) simp
      qed
    qed
  qed
next
  case False
  then show ?thesis by (auto simp: Flush_def)
qed

text \<open>The sample tree with its actor deleted and another one written.\<close>

definition sample_dirty :: "(view, address \<rightharpoonup> address) StateTree" where
  "sample_dirty = sample_tree\<lparr>snaps := the (setActor (the (deleteActor newStateSnaps ''t01'')) ''t05'' zero_actor)\<rparr>"

lemmas sample_snaps = setActor_def deleteActor_def top_layer_def newStateSnaps_def addLayer_def newStateSnapLayer_def

lemma sample_dirty_layer:
  "length (layers (snaps sample_dirty)) = 1" "root sample_dirty = [''t01'' \<mapsto> init_actor]"
  "actors (layers (snaps sample_dirty) ! 0) =
    fmupd ''t05'' \<lparr>Act = zero_actor, Delete = False\<rparr> (fmupd ''t01'' \<lparr>Act = zero_actor, Delete = True\<rparr> fmempty)"
  by (simp_all add: sample_dirty_def sample_tree_def sample_snaps)

lemma sample_dirty_inv: "tree_inv sample_tree_env id sample_dirty"
proof -
  obtain s1 s2 where s: "deleteActor newStateSnaps ''t01'' = Some s1" "setActor s1 ''t05'' zero_actor = Some s2"
    by (simp add: sample_snaps)
  then have "snaps_ok s2" using snaps_ok_top_layer snaps_ok_new by blast
  then show ?thesis
    using sample_tree_inv sample_dirty_layer(1) s by (auto simp: tree_inv_def tree_ok_def sample_dirty_def)
qed

lemma sample_dirty_view: "hd (tviews id sample_dirty) = [''t05'' \<mapsto> zero_actor]"
  by (simp add: tviews_def views_def sample_dirty_def sample_tree_def sample_snaps apply_layer_def fun_eq_iff)

theorem flush_writes_view_witness:
  "\<exists>c st'. Flush sample_tree_env [''t05'', ''t01''] sample_dirty = (Inr c, st') \<and> root st' = [''t05'' \<mapsto> zero_actor]"
proof -
  let ?o = "[''t05'', ''t01'']"
  obtain r st' where f: "Flush sample_tree_env ?o sample_dirty = (r, st')" by fastforce
  have o: "distinct ?o" "set ?o = fset (fmdom (actors (layers (snaps sample_dirty) ! 0)))"
    unfolding sample_dirty_layer by auto
  have "\<forall>h. \<exists>c. HRoot sample_tree_env h = Inr c" "\<forall>s x. \<exists>s' c. PutRoot sample_tree_env s x = Inr (s', c)"
    by (simp_all add: sample_tree_env_def)
  moreover have "\<forall>a op. fmlookup (actors (layers (snaps sample_dirty) ! 0)) a = Some op \<longrightarrow> Delete op \<longrightarrow> id (root sample_dirty) a \<noteq> None"
    unfolding sample_dirty_layer by auto
  ultimately have "(\<exists>c. r = Inr c) \<and> (\<forall>c. r = Inr c \<longrightarrow> id (root st') = hd (tviews id sample_dirty))"
    using flush_writes_view [OF sample_dirty_inv o] f sample_dirty_layer(1) by simp
  with f show ?thesis unfolding sample_dirty_view by auto
qed

section \<open>Registering an address\<close>

text \<open>
  The documented behaviour of the init actor state: it is read back from the store as it was put there,
  and resolves the address it has just mapped to the new ID.
\<close>

definition init_lib_ok :: "('h, 's, 'i) tree_env \<Rightarrow> bool" where
  "init_lib_ok env \<longleftrightarrow>
    (\<forall>s i s' c. PutInit env s i = Inr (s', c) \<longrightarrow> load3 env s' c = Inr i) \<and>
    (\<forall>i a i' b. MapAddressToNewID env i a = Inr (i', b) \<longrightarrow> ResolveAddress env i' a = Inr (Some b))"

lemma cached_setActor: "setActor ss a x = Some ss' \<Longrightarrow> cached ss' b = cached ss b"
proof -
  assume s: "setActor ss a x = Some ss'"
  then have "layers ss \<noteq> []" by (auto simp: setActor_def top_layer_def)
  then obtain ls l where "layers ss = ls @ [l]" by (rule last_layer_cases)
  then show ?thesis using s by (auto simp: setActor_def top_layer_snoc cached_def)
qed

lemma SetActor_id:
  assumes "Is_ID env a" "SetActor env st a x = Some (r, st')"
  shows "r = Inr () \<and> cached (snaps st') b = cached (snaps st) b"
  using assms cached_setActor by (auto simp: SetActor_def LookupID_id)

lemma map_sum_const: "map_sum id (\<lambda>_. b) r = Inr c \<Longrightarrow> c = b"
  by (cases r) auto

lemma hd_tviews_Store [simp]: "tviews ent (st\<lparr>Store := s\<rparr>) = tviews ent st" "tree_ok (st\<lparr>Store := s\<rparr>) = tree_ok st"
  by (simp_all add: tviews_def tree_ok_def)

text \<open>
  C40. An address registered with \<open>RegisterNewAddress\<close> resolves to its new ID from then on: \<open>LookupID\<close>
  finds it through the changed init actor when no older resolution of the address is cached.
\<close>

theorem registered_address_resolves:
  assumes "tree_inv env ent st" "init_lib_ok env" "\<not> Is_ID env addr" "cached (snaps st) addr = None"
    and "RegisterNewAddress env st addr = Some (Inr new, st1)"
  shows "\<exists>st2. LookupID env st1 addr = Some (Inr new, st2)"
proof -
  let ?I = "InitAddress env" and ?v = "hd (tviews ent st)"
  have h: "hamt_ok env ent" "init_ok env" "tree_ok st" using assms(1) by (auto simp: tree_inv_def)
  have I: "Is_ID env ?I" "?I \<noteq> Undef env" using h(2) by (auto simp: init_ok_def)
  have lk: "LookupID env st ?I = Some (Inr ?I, st)" using I(1) by (rule LookupID_id)
  obtain st' where g: "GetActor env st ?I = Some (actor_of ?v ?I, st')" "same_tree ent st st'" "tree_ok st'"
    "\<forall>a. cached (snaps st') a = cached (snaps st) a"
    using GetActor_with_view [where lookup = "LookupID env", OF h(1) I(2) lk h(3)] unfolding GetActor_def by blast
  obtain act where act: "?v ?I = Some act"
    using assms(5) g(1) unfolding RegisterNewAddress_def MutateActor_def actor_of_def by (cases "?v ?I") auto
  note reg = assms(5) [unfolded RegisterNewAddress_def MutateActor_def g(1) actor_of_def act option.case prod.case sum.case]
  obtain ias ias' s c where i: "init_Load env (Store st') act = Inr ias" "MapAddressToNewID env ias addr = Inr (ias', new)"
      "PutInit env (Store st') ias' = Inr (s, c)" and
    set: "\<exists>r. SetActor env (st'\<lparr>Store := s\<rparr>) ?I (act\<lparr>Head := c\<rparr>) = Some (r, st1)"
    using reg by (auto split: sum.splits prod.splits dest!: map_sum_const)
  let ?st = "st'\<lparr>Store := s\<rparr>" and ?act = "act\<lparr>Head := c\<rparr>"
  have "tree_ok ?st" using g(3) by simp
  then obtain st3 where st3: "SetActor env ?st ?I ?act = Some (Inr (), st3)"
    "tviews ent st3 = (hd (tviews ent ?st))(?I \<mapsto> ?act) # tl (tviews ent ?st)" "Store st3 = Store ?st" "tree_ok st3"
    using SetActor_view [OF h(1,2) _ LookupID_id [OF I(1)]] by blast
  then have e: "st3 = st1" using set by auto
  have c1: "cached (snaps st1) addr = None"
    using SetActor_id [OF I(1) st3(1), of addr] e g(4) assms(4) by simp
  have "Code act = InitActorCodeID env" using i(1) by (auto simp: init_Load_def split: if_splits)
  then have "init_Load env s ?act = Inr ias'" using assms(2) i(3) by (simp add: init_Load_def init_lib_ok_def)
  moreover have "ResolveAddress env ias' addr = Inr (Some new)" using assms(2) i(2) by (simp add: init_lib_ok_def)
  ultimately have "init_resolve env (Store st1) (hd (tviews ent st1)) addr = Inr new"
    using st3(2,3) e by (simp add: init_resolve_def)
  then show ?thesis
    using LookupID_view [OF h(1,2), of st1 addr] st3(4) e c1 assms(3) by auto
qed

theorem registered_address_resolves_witness:
  "\<exists>st1 st2. RegisterNewAddress sample_tree_env sample_tree ''t3key'' = Some (Inr ''t0100'', st1) \<and>
    LookupID sample_tree_env st1 ''t3key'' = Some (Inr ''t0100'', st2)"
proof -
  have "\<exists>st1. RegisterNewAddress sample_tree_env sample_tree ''t3key'' = Some (Inr ''t0100'', st1)"
    by (simp add: RegisterNewAddress_def MutateActor_def GetActor_def GetActor_with_def LookupID_id SetActor_def sample_tree_env_def
        sample_tree_def getActor_def setActor_def top_layer_def newStateSnaps_def addLayer_def newStateSnapLayer_def
        init_Load_def init_actor_def Let_def)
  then obtain st1 where r: "RegisterNewAddress sample_tree_env sample_tree ''t3key'' = Some (Inr ''t0100'', st1)" by blast
  have "\<exists>st2. LookupID sample_tree_env st1 ''t3key'' = Some (Inr ''t0100'', st2)"
    by (rule registered_address_resolves [OF sample_tree_inv _ _ _ r])
      (simp_all add: init_lib_ok_def sample_tree_env_def sample_tree_def cached_def newStateSnaps_def addLayer_def newStateSnapLayer_def)
  with r show ?thesis by blast
qed

end
