(* ===== verification/VM_Runtime.thy ===== *)
theory VM_Runtime
  imports State_Refine Chain_Gas
begin

text \<open>
  The virtual machine, part one: actor errors (\<^verbatim>\<open>chain/actors/aerrors\<close>), gas prices (\<^verbatim>\<open>chain/vm/gas.go\<close>,
  \<^verbatim>\<open>gas_v0.go\<close>), the moving of funds (\<^verbatim>\<open>vm.go\<close>) and the runtime an actor method is given (\<^verbatim>\<open>runtime.go\<close>),
  without sending, which is in \<open>VM_Apply\<close>.

  An operation of the runtime takes the runtime and the state tree and returns \<open>None\<close> when the state tree
  itself panics (which its invariant excludes), otherwise the value it panics with or its result, and the
  runtime and tree it leaves. Actor code is a value of type \<open>prog\<close>: a tree of runtime operations. Exit codes,
  addresses, block store, hashing, randomness and system calls are other modules: they are fields of
  \<open>vm_env\<close>. The text of an error is kept without its arguments.
\<close>

section \<open>Actor errors\<close>

record actorError =
  fatal :: bool
  retCode :: int
  err_msg :: string

definition Newf :: "int \<Rightarrow> string \<Rightarrow> actorError" where
  "Newf code msg =
    (if code = 0 then \<lparr>fatal = True, retCode = 0, err_msg = ''tried creating an error and setting RetCode to 0''\<rparr>
     else \<lparr>fatal = False, retCode = code, err_msg = msg\<rparr>)"

definition Fatalf :: "string \<Rightarrow> actorError" where
  "Fatalf msg = \<lparr>fatal = True, retCode = 0, err_msg = msg\<rparr>"

definition aerr_Wrap :: "actorError \<Rightarrow> string \<Rightarrow> actorError" where
  "aerr_Wrap err msg = \<lparr>fatal = fatal err, retCode = retCode err, err_msg = msg\<rparr>"

text \<open>The error that is absorbed or escalated is an \<open>ActorError\<close> or some other error (\<open>None\<close>).\<close>

definition Absorb :: "actorError option \<Rightarrow> int \<Rightarrow> string \<Rightarrow> actorError" where
  "Absorb err code msg =
    (if (case err of Some e \<Rightarrow> fatal e | None \<Rightarrow> False)
     then \<lparr>fatal = True, retCode = 0, err_msg = ''tried absorbing an error that is already a fatal error''\<rparr>
     else if code = 0
     then \<lparr>fatal = True, retCode = 0, err_msg = ''tried absorbing an error and setting RetCode to 0''\<rparr>
     else \<lparr>fatal = False, retCode = code, err_msg = msg\<rparr>)"

definition Escalate :: "string \<Rightarrow> actorError" where
  "Escalate msg = \<lparr>fatal = True, retCode = 0, err_msg = msg\<rparr>"

definition IsFatal :: "actorError option \<Rightarrow> bool" where
  "IsFatal err = (case err of Some e \<Rightarrow> fatal e | None \<Rightarrow> False)"

definition RetCode :: "actorError option \<Rightarrow> int" where
  "RetCode err = (case err of Some e \<Rightarrow> retCode e | None \<Rightarrow> 0)"

section \<open>Gas prices\<close>

record GasCharge =
  gas_Name :: string
  ComputeGas :: int
  StorageGas :: int

definition Total :: "GasCharge \<Rightarrow> int" where
  "Total g = wrap64 (ComputeGas g + StorageGas g)"

definition newGasCharge :: "string \<Rightarrow> int \<Rightarrow> int \<Rightarrow> GasCharge" where
  "newGasCharge name computeGas storageGas = \<lparr>gas_Name = name, ComputeGas = computeGas, StorageGas = storageGas\<rparr>"

definition gasOnActorExec :: GasCharge where
  "gasOnActorExec = newGasCharge ''OnActorExec'' 0 0"

datatype sig_type = SigTypeSecp256k1 | SigTypeBLS | SigTypeOther

datatype post_proof = StackedDrgWindow512MiBV1 | StackedDrgWindow32GiBV1 | StackedDrgWindow64GiBV1 | OtherPoStProof

record scalingCost =
  flat :: int
  scale :: int

record pricelistV0 =
  computeGasMulti :: int
  storageGasMulti :: int
  onChainMessageComputeBase :: int
  onChainMessageStorageBase :: int
  onChainMessageStoragePerByte :: int
  onChainReturnValuePerByte :: int
  sendBase :: int
  sendTransferFunds :: int
  sendTransferOnlyPremium :: int
  sendInvokeMethod :: int
  ipldGetBase :: int
  ipldPutBase :: int
  ipldPutPerByte :: int
  createActorCompute :: int
  createActorStorage :: int
  deleteActorGas :: int
  verifySignature :: "sig_type \<Rightarrow> int option"
  hashingBase :: int
  computeUnsealedSectorCidBase :: int
  verifySealBase :: int
  verifyPostLookup :: "post_proof \<Rightarrow> scalingCost option"
  verifyPostDiscount :: bool
  verifyConsensusFault :: int

definition window_cost :: scalingCost where
  "window_cost = \<lparr>flat = 117680921, scale = 43780\<rparr>"

definition pricelist0 :: pricelistV0 where
  "pricelist0 = \<lparr>computeGasMulti = 1, storageGasMulti = 1300,
     onChainMessageComputeBase = 38863, onChainMessageStorageBase = 36, onChainMessageStoragePerByte = 1,
     onChainReturnValuePerByte = 1,
     sendBase = 29233, sendTransferFunds = 27500, sendTransferOnlyPremium = 159672, sendInvokeMethod = - 5377,
     ipldGetBase = 114617, ipldPutBase = 353640, ipldPutPerByte = 1,
     createActorCompute = 1108454, createActorStorage = 36 + 40, deleteActorGas = - (36 + 40),
     verifySignature = [SigTypeBLS \<mapsto> 16598605, SigTypeSecp256k1 \<mapsto> 1637292],
     hashingBase = 31355, computeUnsealedSectorCidBase = 98647, verifySealBase = 2000,
     verifyPostLookup = [StackedDrgWindow512MiBV1 \<mapsto> window_cost, StackedDrgWindow32GiBV1 \<mapsto> window_cost,
       StackedDrgWindow64GiBV1 \<mapsto> window_cost],
     verifyPostDiscount = False, verifyConsensusFault = 495422\<rparr>"

definition prices :: "(epoch \<times> pricelistV0) list" where
  "prices = [(0, pricelist0)]"

fun best_price :: "epoch \<Rightarrow> epoch \<times> pricelistV0 option \<Rightarrow> (epoch \<times> pricelistV0) list \<Rightarrow> pricelistV0 option" where
  "best_price ep (bestEpoch, bestPrice) [] = bestPrice"
| "best_price ep (bestEpoch, bestPrice) ((e, pl) # ps) =
    (if e > bestEpoch \<and> e \<le> ep then best_price ep (e, Some pl) ps else best_price ep (bestEpoch, bestPrice) ps)"

definition PricelistByEpoch :: "epoch \<Rightarrow> pricelistV0 option" where
  "PricelistByEpoch ep = best_price ep (0, map_of prices 0) prices"

definition OnChainMessage :: "pricelistV0 \<Rightarrow> int \<Rightarrow> GasCharge" where
  "OnChainMessage pl msgSize = newGasCharge ''OnChainMessage'' (onChainMessageComputeBase pl)
     (wrap64 ((onChainMessageStorageBase pl + onChainMessageStoragePerByte pl * msgSize) * storageGasMulti pl))"

definition OnChainReturnValue :: "pricelistV0 \<Rightarrow> int \<Rightarrow> GasCharge" where
  "OnChainReturnValue pl dataSize =
     newGasCharge ''OnChainReturnValue'' 0 (wrap64 (dataSize * onChainReturnValuePerByte pl * storageGasMulti pl))"

definition OnMethodInvocation :: "pricelistV0 \<Rightarrow> int \<Rightarrow> u64 \<Rightarrow> GasCharge" where
  "OnMethodInvocation pl value methodNum =
    (let ret = sendBase pl;
         ret = (if value \<noteq> 0 then
                  let ret = ret + sendTransferFunds pl in
                  if methodNum = 0 then ret + sendTransferOnlyPremium pl else ret
                else ret);
         ret = (if methodNum \<noteq> 0 then ret + sendInvokeMethod pl else ret)
     in newGasCharge ''OnMethodInvocation'' ret 0)"

definition OnIpldGet :: "pricelistV0 \<Rightarrow> GasCharge" where
  "OnIpldGet pl = newGasCharge ''OnIpldGet'' (ipldGetBase pl) 0"

definition OnIpldPut :: "pricelistV0 \<Rightarrow> int \<Rightarrow> GasCharge" where
  "OnIpldPut pl dataSize = newGasCharge ''OnIpldPut'' (ipldPutBase pl) (wrap64 (dataSize * ipldPutPerByte pl * storageGasMulti pl))"

definition OnCreateActor :: "pricelistV0 \<Rightarrow> GasCharge" where
  "OnCreateActor pl = newGasCharge ''OnCreateActor'' (createActorCompute pl) (createActorStorage pl * storageGasMulti pl)"

definition OnDeleteActor :: "pricelistV0 \<Rightarrow> GasCharge" where
  "OnDeleteActor pl = newGasCharge ''OnDeleteActor'' 0 (deleteActorGas pl * storageGasMulti pl)"

definition OnVerifySignature :: "pricelistV0 \<Rightarrow> sig_type \<Rightarrow> GasCharge option" where
  "OnVerifySignature pl sigType = map_option (\<lambda>cost. newGasCharge ''OnVerifySignature'' cost 0) (verifySignature pl sigType)"

definition OnVerifyPost :: "pricelistV0 \<Rightarrow> post_proof option \<Rightarrow> int \<Rightarrow> GasCharge" where
  "OnVerifyPost pl proof0 challenged =
    (let cost = (case Option.bind proof0 (verifyPostLookup pl) of
            Some c \<Rightarrow> c
          | None \<Rightarrow> (case verifyPostLookup pl StackedDrgWindow512MiBV1 of Some c \<Rightarrow> c | None \<Rightarrow> \<lparr>flat = 0, scale = 0\<rparr>));
         used = wrap64 (flat cost + challenged * scale cost)
     in newGasCharge ''OnVerifyPost'' (if verifyPostDiscount pl then go_div used 2 else used) 0)"

text \<open>The priced system calls; the arguments are what their price depends on, and the call itself.\<close>

datatype syscall =
    VerifySignature sig_type bytes | HashBlake2b bytes | ComputeUnsealedSectorCID bytes | VerifySeal bytes
  | VerifyPoSt "post_proof option" nat bytes | VerifyConsensusFault bytes | BatchVerifySeals bytes

definition syscall_charge :: "pricelistV0 \<Rightarrow> syscall \<Rightarrow> GasCharge option" where
  "syscall_charge pl sc =
    (case sc of
       VerifySignature ty _ \<Rightarrow> OnVerifySignature pl ty
     | HashBlake2b _ \<Rightarrow> Some (newGasCharge ''OnHashing'' (hashingBase pl) 0)
     | ComputeUnsealedSectorCID _ \<Rightarrow> Some (newGasCharge ''OnComputeUnsealedSectorCid'' (computeUnsealedSectorCidBase pl) 0)
     | VerifySeal _ \<Rightarrow> Some (newGasCharge ''OnVerifySeal'' (verifySealBase pl) 0)
     | VerifyPoSt p n _ \<Rightarrow> Some (OnVerifyPost pl p (int n))
     | VerifyConsensusFault _ \<Rightarrow> Some (newGasCharge ''OnVerifyConsensusFault'' (verifyConsensusFault pl) 0)
     | BatchVerifySeals _ \<Rightarrow> Some (newGasCharge ''BatchVerifySeals'' 0 0))"

section \<open>Actor code\<close>

text \<open>What a method returns to \<open>shimCall\<close>; marshalling may fail.\<close>

datatype retval = RetBytes bytes | RetEmpty | RetMarshal "bytes option" | RetNil | RetOther

text \<open>
  The operations of the runtime. An object that is stored or sent is what it marshals to (\<open>None\<close>: marshalling
  fails); one that is read into is a test whether the bytes unmarshal.
\<close>

datatype rt_op =
    OpResolveAddress address | OpGetActorCodeCID address
  | OpStoreGet cid "bytes \<Rightarrow> bool" | OpStorePut "bytes option" | OpStateCreate "bytes option" | OpStateReadonly "bytes \<Rightarrow> bool"
  | OpCreateActor cid address | OpDeleteActor address | OpNewActorAddress | OpCurrentBalance
  | OpValidateImmediateCallerIs "address list" | OpValidateImmediateCallerAcceptAny | OpValidateImmediateCallerType "cid list"
  | OpChargeGas int | OpSyscall syscall | OpTotalFilCircSupply | OpGetRandomness bool int epoch bytes
  | OpCaller | OpReceiver | OpValueReceived | OpCurrEpoch | OpNetworkVersion
  | OpSend address u64 "bytes option option" "int option" "bytes \<Rightarrow> bool"

datatype rt_answer =
    AUnit | AAddr address | AAddrOpt "address option" | ACid cid | ACidOpt "cid option" | ABytesOpt "bytes option"
  | AInt int | AIntOpt "int option" | ABytes bytes | AErrOr "bytes option" | ASend int bytes | ANat nat

text \<open>
  A method: it returns (with what it leaves in captured variables, when it is the function given to
  \<open>StateTransaction\<close>), aborts, panics in some other way, calls the runtime and goes on with the answer, or
  runs a transaction on its state.
\<close>

datatype prog =
    Return retval bytes
  | Abort int string
  | Crash
  | Do rt_op "rt_answer \<Rightarrow> prog"
  | StateTx "bytes \<Rightarrow> bool" "bytes option \<Rightarrow> prog" "bytes \<Rightarrow> prog"

record actorInfo =
  methods :: "(bytes \<Rightarrow> prog option) option list"
  actor_version :: nat
  IsSingletonActor :: bool

section \<open>The environment\<close>

datatype protocol = ProtoID | ProtoSECP256K1 | ProtoActor | ProtoBLS | ProtoUnknown

datatype exitname =
    SysErrSenderInvalid | SysErrSenderStateInvalid | SysErrInvalidMethod | SysErrReserved1 | SysErrInvalidReceiver
  | SysErrInsufficientFunds | SysErrOutOfGas | SysErrForbidden | SysErrorIllegalActor | SysErrorIllegalArgument
  | ErrIllegalArgument | ErrIllegalState | ErrSerialization

record block_err =
  IsNotFound :: bool
  IsSerialization :: bool

text \<open>
  A run of a system call: the actors it reads from the state tree, the number of blocks it reads through the block
  store that charges gas, and its answer (\<open>None\<close>: it panics).
\<close>

record sys_run =
  sys_actors :: "address list"
  sys_blocks :: nat
  sys_answer :: "bytes option option"

record ('h, 's, 'i) vm_env =
  tree :: "('h, 's, 'i) tree_env"
  Protocol :: "address \<Rightarrow> protocol"
  xcode :: "exitname \<Rightarrow> int"
  ZeroAddress :: address
  SystemActorAddr :: address
  BurntFundsActorAddr :: address
  RewardAddress :: address
  AccountActorCodeID :: cid
  StorageMinerActorCodeID :: cid
  EmptyObjectCid :: cid
  Constructor :: u64
  SubmitWindowedPoSt :: u64
  MarshalAddress :: "address \<Rightarrow> bytes option"
  address_NewActorAddress :: "bytes \<Rightarrow> address option"
  account_PubkeyAddress :: "'s \<Rightarrow> Actor \<Rightarrow> address option"
  GetBlock :: "'s \<Rightarrow> cid \<Rightarrow> block_err + bytes"
  PutBlock :: "'s \<Rightarrow> bytes \<Rightarrow> ('s \<times> cid) option"
  areg :: "cid \<Rightarrow> actorInfo option"
  blockHeight :: epoch
  baseFee :: int
  ntwkVersion :: "epoch \<Rightarrow> nat"
  circSupplyCalc :: "epoch \<Rightarrow> ('h, 's) StateTree \<Rightarrow> int option"
  randomness :: "bool \<Rightarrow> int \<Rightarrow> epoch \<Rightarrow> bytes \<Rightarrow> bytes option"
  syscalls :: "('h, 's) StateTree \<Rightarrow> syscall \<Rightarrow> sys_run"

text \<open>A token amount that was never set (\<^verbatim>\<open>types.EmptyInt\<close>) is \<open>None\<close>.\<close>

record Message =
  To :: address
  From :: address
  msg_Nonce :: u64
  Value :: "int option"
  GasLimit :: int
  GasFeeCap :: "int option"
  GasPremium :: "int option"
  Method :: u64
  Params :: bytes

record Runtime =
  rt_msg :: Message
  origin :: address
  originNonce :: u64
  height :: epoch
  gasAvailable :: int
  gasUsed :: int
  depth :: nat
  numActorsCreated :: u64
  pricelist :: pricelistV0
  allowInternal :: bool
  callerValidated :: bool

definition MaxCallDepth :: nat where "MaxCallDepth = 4096"

text \<open>What a Go panic carries: an actor error, or something else (a run-time error, another error value).\<close>

datatype panic = PanicErr actorError | PanicOther

type_synonym ('h, 's, 'a) rtm =
  "Runtime \<Rightarrow> ('h, 's) StateTree \<Rightarrow> ((panic + 'a) \<times> Runtime \<times> ('h, 's) StateTree) option"

definition rt_return :: "'a \<Rightarrow> ('h, 's, 'a) rtm" where
  "rt_return x = (\<lambda>rt st. Some (Inr x, rt, st))"

definition rt_panic :: "panic \<Rightarrow> ('h, 's, 'a) rtm" where
  "rt_panic p = (\<lambda>rt st. Some (Inl p, rt, st))"

definition rt_bind :: "('h, 's, 'a) rtm \<Rightarrow> ('a \<Rightarrow> ('h, 's, 'b) rtm) \<Rightarrow> ('h, 's, 'b) rtm" where
  "rt_bind m f = (\<lambda>rt st. case m rt st of
     None \<Rightarrow> None | Some (Inl p, rt, st) \<Rightarrow> Some (Inl p, rt, st) | Some (Inr x, rt, st) \<Rightarrow> f x rt st)"

definition rt_get :: "(Runtime \<Rightarrow> 'a) \<Rightarrow> ('h, 's, 'a) rtm" where
  "rt_get f = (\<lambda>rt st. Some (Inr (f rt), rt, st))"

definition rt_modify :: "(Runtime \<Rightarrow> Runtime) \<Rightarrow> ('h, 's, unit) rtm" where
  "rt_modify f = (\<lambda>rt st. Some (Inr (), f rt, st))"

definition on_tree :: "(('h, 's) StateTree \<Rightarrow> ('a \<times> ('h, 's) StateTree) option) \<Rightarrow> ('h, 's, 'a) rtm" where
  "on_tree f = (\<lambda>rt st. case f st of None \<Rightarrow> None | Some (x, st) \<Rightarrow> Some (Inr x, rt, st))"

text \<open>\<open>deferred d m\<close> runs \<open>d\<close> when \<open>m\<close> returns or panics.\<close>

definition deferred :: "('h, 's, unit) rtm \<Rightarrow> ('h, 's, 'a) rtm \<Rightarrow> ('h, 's, 'a) rtm" where
  "deferred d m = (\<lambda>rt st. case m rt st of
     None \<Rightarrow> None
   | Some (r, rt, st) \<Rightarrow> (case d rt st of
         None \<Rightarrow> None | Some (Inl p, rt, st) \<Rightarrow> Some (Inl p, rt, st) | Some (Inr _, rt, st) \<Rightarrow> Some (r, rt, st)))"

text \<open>An operation of the tree with what to do on an error and on success.\<close>

definition tree_try ::
  "(('h, 's) StateTree \<Rightarrow> ('h, 's, 'a) tree_res) \<Rightarrow> (state_err \<Rightarrow> ('h, 's) StateTree \<Rightarrow> 'r option) \<Rightarrow>
   ('a \<Rightarrow> ('h, 's) StateTree \<Rightarrow> 'r option) \<Rightarrow> ('h, 's) StateTree \<Rightarrow> 'r option" where
  "tree_try op f g st = (case op st of None \<Rightarrow> None | Some (Inl e, st) \<Rightarrow> f e st | Some (Inr x, st) \<Rightarrow> g x st)"

section \<open>Moving funds\<close>

definition deductFunds :: "Actor \<Rightarrow> int \<Rightarrow> Actor option" where
  "deductFunds act amt = (if Balance act < amt then None else Some (act\<lparr>Balance := Balance act - amt\<rparr>))"

definition depositFunds :: "Actor \<Rightarrow> int \<Rightarrow> Actor" where
  "depositFunds act amt = act\<lparr>Balance := Balance act + amt\<rparr>"

definition transfer ::
  "('h, 's, 'i) vm_env \<Rightarrow> address \<Rightarrow> address \<Rightarrow> int \<Rightarrow> ('h, 's) StateTree \<Rightarrow> (actorError option \<times> ('h, 's) StateTree) option" where
  "transfer env from to amt =
    (let T = tree env; ret = (\<lambda>e st. Some (e, st)) in
     if from = to then ret None
     else
       tree_try (\<lambda>st. LookupID T st from) (\<lambda>_. ret (Some (Fatalf ''transfer failed when resolving sender address''))) (\<lambda>fromID.
       tree_try (\<lambda>st. LookupID T st to) (\<lambda>_. ret (Some (Fatalf ''transfer failed when resolving receiver address''))) (\<lambda>toID.
       if fromID = toID then ret None
       else if amt < 0 then ret (Some (Newf (xcode env SysErrForbidden) ''attempted to transfer negative value''))
       else
         tree_try (\<lambda>st. GetActor T st fromID) (\<lambda>_. ret (Some (Fatalf ''transfer failed when retrieving sender actor''))) (\<lambda>f.
         tree_try (\<lambda>st. GetActor T st toID) (\<lambda>_. ret (Some (Fatalf ''transfer failed when retrieving receiver actor''))) (\<lambda>t.
         case deductFunds f amt of
           None \<Rightarrow> ret (Some (Newf (xcode env SysErrInsufficientFunds) ''transfer failed when deducting funds''))
         | Some f \<Rightarrow>
             tree_try (\<lambda>st. SetActor T st fromID f) (\<lambda>_. ret (Some (Fatalf ''transfer failed when setting receiver actor''))) (\<lambda>_.
             tree_try (\<lambda>st. SetActor T st toID (depositFunds t amt))
               (\<lambda>_. ret (Some (Fatalf ''transfer failed when setting sender actor''))) (\<lambda>_. ret None)))))))"

text \<open>The gas holder is an actor that is not in the tree; what is left in it is returned.\<close>

definition transferToGasHolder ::
  "('h, 's, 'i) vm_env \<Rightarrow> ('h, 's) StateTree \<Rightarrow> address \<Rightarrow> Actor \<Rightarrow> int \<Rightarrow> ('h, 's, Actor) tree_res" where
  "transferToGasHolder env st addr gasHolder amt =
    (if amt < 0 then Some (Inl (ErrMsg ''attempted to transfer negative value to gas holder''), st)
     else MutateActor (tree env) st addr (\<lambda>st a.
       case deductFunds a amt of
         None \<Rightarrow> (Inl (ErrMsg ''not enough funds''), st)
       | Some a \<Rightarrow> (Inr (a, depositFunds gasHolder amt), st)))"

definition transferFromGasHolder ::
  "('h, 's, 'i) vm_env \<Rightarrow> ('h, 's) StateTree \<Rightarrow> address \<Rightarrow> Actor \<Rightarrow> int \<Rightarrow> ('h, 's, Actor) tree_res" where
  "transferFromGasHolder env st addr gasHolder amt =
    (if amt < 0 then Some (Inl (ErrMsg ''attempted to transfer negative value from gas holder''), st)
     else if amt = 0 then Some (Inr gasHolder, st)
     else MutateActor (tree env) st addr (\<lambda>st a.
       case deductFunds gasHolder amt of
         None \<Rightarrow> (Inl (ErrMsg ''not enough funds''), st)
       | Some h \<Rightarrow> (Inr (depositFunds a amt, h), st)))"

definition incrementNonce :: "('h, 's, 'i) vm_env \<Rightarrow> ('h, 's) StateTree \<Rightarrow> address \<Rightarrow> ('h, 's, unit) tree_res" where
  "incrementNonce env st addr = MutateActor (tree env) st addr (\<lambda>st a. (Inr (a\<lparr>Nonce := Nonce a + 1\<rparr>, ()), st))"

section \<open>The runtime\<close>

definition chargeGasSafe :: "('h, 's, 'i) vm_env \<Rightarrow> GasCharge \<Rightarrow> ('h, 's, actorError option) rtm" where
  "chargeGasSafe env gas = (\<lambda>rt st.
    let toUse = Total gas in
    if gasUsed rt > wrap64 (gasAvailable rt - toUse)
    then Some (Inr (Some (Newf (xcode env SysErrOutOfGas) ''not enough gas'')), rt\<lparr>gasUsed := gasAvailable rt\<rparr>, st)
    else Some (Inr None, rt\<lparr>gasUsed := wrap64 (gasUsed rt + toUse)\<rparr>, st))"

definition chargeGas :: "('h, 's, 'i) vm_env \<Rightarrow> GasCharge \<Rightarrow> ('h, 's, unit) rtm" where
  "chargeGas env gas = rt_bind (chargeGasSafe env gas)
     (\<lambda>e. case e of None \<Rightarrow> rt_return () | Some err \<Rightarrow> rt_panic (PanicErr err))"

definition Abortf :: "int \<Rightarrow> string \<Rightarrow> ('h, 's, 'a) rtm" where
  "Abortf code msg = rt_panic (PanicErr (Newf code msg))"

definition rt_Caller :: "('h, 's, 'i) vm_env \<Rightarrow> ('h, 's, address) rtm" where
  "rt_Caller env = rt_bind (rt_get (\<lambda>rt. From (rt_msg rt)))
     (\<lambda>a. if Protocol env a \<noteq> ProtoID then rt_panic PanicOther else rt_return a)"

definition rt_Receiver :: "('h, 's, 'i) vm_env \<Rightarrow> ('h, 's, address) rtm" where
  "rt_Receiver env = rt_bind (rt_get (\<lambda>rt. To (rt_msg rt)))
     (\<lambda>a. if a \<noteq> Undef (tree env) \<and> Protocol env a \<noteq> ProtoID then rt_panic PanicOther else rt_return a)"

definition rt_ResolveAddress :: "('h, 's, 'i) vm_env \<Rightarrow> address \<Rightarrow> ('h, 's, address option) rtm" where
  "rt_ResolveAddress env addr = rt_bind (on_tree (\<lambda>st. LookupID (tree env) st addr))
     (\<lambda>r. case r of
        Inr a \<Rightarrow> rt_return (Some a)
      | Inl err \<Rightarrow> if Is_ErrActorNotFound err then rt_return None
                  else rt_panic (PanicErr (Fatalf ''failed to resolve address'')))"

definition GetActorCodeCID :: "('h, 's, 'i) vm_env \<Rightarrow> address \<Rightarrow> ('h, 's, cid option) rtm" where
  "GetActorCodeCID env addr = rt_bind (on_tree (\<lambda>st. GetActor (tree env) st addr))
     (\<lambda>r. case r of
        Inr act \<Rightarrow> rt_return (Some (Code act))
      | Inl err \<Rightarrow> if Is_ErrActorNotFound err then rt_return None
                  else rt_panic (PanicErr (Fatalf ''failed to get actor'')))"

text \<open>
  The block store behind \<open>gasChargingBlocks\<close>, as \<open>StoreGet\<close> and \<open>StorePut\<close> use it: reading charges for the read,
  writing for the size; bytes that do not unmarshal are a serialisation error.
\<close>

definition cst_Get :: "('h, 's, 'i) vm_env \<Rightarrow> cid \<Rightarrow> (bytes \<Rightarrow> bool) \<Rightarrow> ('h, 's, block_err + bytes) rtm" where
  "cst_Get env c unmarshals =
    rt_bind (rt_get pricelist) (\<lambda>pl.
    rt_bind (chargeGas env (OnIpldGet pl)) (\<lambda>_.
    rt_bind (on_tree (\<lambda>st. Some (GetBlock env (Store st) c, st))) (\<lambda>r.
    case r of
      Inl e \<Rightarrow> rt_return (Inl e)
    | Inr b \<Rightarrow>
        rt_bind (chargeGas env (newGasCharge ''OnIpldGetEnd'' 0 0)) (\<lambda>_.
        rt_bind (chargeGas env gasOnActorExec) (\<lambda>_.
        rt_return (if unmarshals b then Inr b else Inl \<lparr>IsNotFound = False, IsSerialization = True\<rparr>))))))"

definition StoreGet :: "('h, 's, 'i) vm_env \<Rightarrow> cid \<Rightarrow> (bytes \<Rightarrow> bool) \<Rightarrow> ('h, 's, bytes option) rtm" where
  "StoreGet env c unmarshals = rt_bind (cst_Get env c unmarshals)
     (\<lambda>r. case r of
        Inr b \<Rightarrow> rt_return (Some b)
      | Inl e \<Rightarrow>
          if IsNotFound e then
            (if IsSerialization e
             then rt_panic (PanicErr (Newf (xcode env ErrSerialization) ''failed to unmarshal cbor object''))
             else rt_return None)
          else rt_panic (PanicErr (Fatalf ''failed to get cbor object'')))"

definition put_block :: "('h, 's, 'i) vm_env \<Rightarrow> bytes \<Rightarrow> ('h, 's) StateTree \<Rightarrow> (cid option \<times> ('h, 's) StateTree) option" where
  "put_block env b st =
    Some (case PutBlock env (Store st) b of None \<Rightarrow> (None, st) | Some (s, c) \<Rightarrow> (Some c, st\<lparr>Store := s\<rparr>))"

definition StorePut :: "('h, 's, 'i) vm_env \<Rightarrow> bytes option \<Rightarrow> ('h, 's, cid) rtm" where
  "StorePut env x =
    (case x of
       None \<Rightarrow> rt_panic (PanicErr (Newf (xcode env ErrSerialization) ''failed to marshal cbor object''))
     | Some b \<Rightarrow>
         rt_bind (rt_get pricelist) (\<lambda>pl.
         rt_bind (chargeGas env (OnIpldPut pl (int (length b)))) (\<lambda>_.
         rt_bind (on_tree (put_block env b)) (\<lambda>r.
         case r of
           None \<Rightarrow> rt_panic (PanicErr (Fatalf ''failed to put cbor object''))
         | Some c \<Rightarrow> rt_bind (chargeGas env gasOnActorExec) (\<lambda>_. rt_return c)))))"

definition stateCommit :: "('h, 's, 'i) vm_env \<Rightarrow> cid \<Rightarrow> cid \<Rightarrow> ('h, 's, actorError option) rtm" where
  "stateCommit env oldh newh =
    rt_bind (rt_Receiver env) (\<lambda>recv.
    rt_bind (on_tree (\<lambda>st. GetActor (tree env) st recv)) (\<lambda>r.
    case r of
      Inl _ \<Rightarrow> rt_return (Some (Escalate ''failed to get actor to commit state''))
    | Inr act \<Rightarrow>
        if Head act \<noteq> oldh then rt_return (Some (Fatalf ''failed to update, inconsistent base reference''))
        else rt_bind (on_tree (\<lambda>st. SetActor (tree env) st recv (act\<lparr>Head := newh\<rparr>))) (\<lambda>r.
          case r of
            Inl _ \<Rightarrow> rt_return (Some (Fatalf ''failed to set actor in commit state''))
          | Inr _ \<Rightarrow> rt_return None)))"

definition StateCreate :: "('h, 's, 'i) vm_env \<Rightarrow> bytes option \<Rightarrow> ('h, 's, unit) rtm" where
  "StateCreate env x =
    rt_bind (StorePut env x) (\<lambda>c.
    rt_bind (stateCommit env (EmptyObjectCid env) c) (\<lambda>e.
    case e of Some _ \<Rightarrow> rt_panic PanicOther | None \<Rightarrow> rt_return ()))"

definition StateReadonly :: "('h, 's, 'i) vm_env \<Rightarrow> (bytes \<Rightarrow> bool) \<Rightarrow> ('h, 's, bytes option) rtm" where
  "StateReadonly env unmarshals =
    rt_bind (rt_Receiver env) (\<lambda>recv.
    rt_bind (on_tree (\<lambda>st. GetActor (tree env) st recv)) (\<lambda>r.
    case r of
      Inl _ \<Rightarrow> Abortf (xcode env SysErrorIllegalArgument) ''failed to get actor for Readonly state''
    | Inr act \<Rightarrow> StoreGet env (Head act) unmarshals))"

definition marshalled :: "retval \<Rightarrow> bytes option" where
  "marshalled r = (case r of RetBytes b \<Rightarrow> Some b | RetMarshal x \<Rightarrow> x | _ \<Rightarrow> None)"

text \<open>
  \<open>f\<close> gets the object as it was read, and gives the object it leaves, and captured variables. A \<open>nil\<close> object, which
  the code refuses with \<open>Abortf\<close>, is the program \<open>Abort\<close>.
\<close>

definition StateTransaction ::
  "('h, 's, 'i) vm_env \<Rightarrow> (bytes \<Rightarrow> bool) \<Rightarrow> (bytes option \<Rightarrow> ('h, 's, retval \<times> bytes) rtm) \<Rightarrow> ('h, 's, bytes) rtm" where
  "StateTransaction env unmarshals f =
    rt_bind (rt_Receiver env) (\<lambda>recv.
    rt_bind (on_tree (\<lambda>st. GetActor (tree env) st recv)) (\<lambda>r.
    case r of
      Inl _ \<Rightarrow> Abortf (xcode env SysErrorIllegalActor) ''failed to get actor for Transaction''
    | Inr act \<Rightarrow>
        rt_bind (StoreGet env (Head act) unmarshals) (\<lambda>obj.
        rt_bind (rt_modify (\<lambda>rt. rt\<lparr>allowInternal := False\<rparr>)) (\<lambda>_.
        rt_bind (f obj) (\<lambda>(obj, captured).
        rt_bind (rt_modify (\<lambda>rt. rt\<lparr>allowInternal := True\<rparr>)) (\<lambda>_.
        rt_bind (StorePut env (marshalled obj)) (\<lambda>c.
        rt_bind (stateCommit env (Head act) c) (\<lambda>e.
        case e of Some _ \<Rightarrow> rt_panic PanicOther | None \<Rightarrow> rt_return captured))))))))"

definition GetBalance :: "('h, 's, 'i) vm_env \<Rightarrow> address \<Rightarrow> ('h, 's, actorError + int) rtm" where
  "GetBalance env a = rt_bind (on_tree (\<lambda>st. GetActor (tree env) st a))
     (\<lambda>r. rt_return (case r of
        Inl err \<Rightarrow> if err = ErrActorNotFound then Inr 0 else Inl (Escalate ''failed to look up actor balance'')
      | Inr act \<Rightarrow> Inr (Balance act)))"

definition CurrentBalance :: "('h, 's, 'i) vm_env \<Rightarrow> ('h, 's, int) rtm" where
  "CurrentBalance env =
    rt_bind (rt_Receiver env) (\<lambda>recv. rt_bind (GetBalance env recv) (\<lambda>r.
    case r of Inl err \<Rightarrow> Abortf (retCode err) ''get current balance'' | Inr b \<Rightarrow> rt_return b))"

definition areg_Create :: "('h, 's, 'i) vm_env \<Rightarrow> cid \<Rightarrow> actorError + Actor" where
  "areg_Create env codeCid =
    (case areg env codeCid of
       None \<Rightarrow> Inl (Newf (xcode env SysErrorIllegalArgument) ''Can only create built-in actors.'')
     | Some act \<Rightarrow>
         if actors_VersionForNetwork (ntwkVersion env (blockHeight env)) \<noteq> actor_version act
         then Inl (Newf (xcode env SysErrorIllegalArgument) ''Cannot create actor'')
         else if IsSingletonActor act
         then Inl (Newf (xcode env SysErrorIllegalArgument) ''Can only have one instance of singleton actors.'')
         else Inr \<lparr>Code = codeCid, Head = EmptyObjectCid env, Nonce = 0, Balance = 0\<rparr>)"

definition CreateActor :: "('h, 's, 'i) vm_env \<Rightarrow> cid \<Rightarrow> address \<Rightarrow> ('h, 's, unit) rtm" where
  "CreateActor env codeID addr =
    (if addr = Undef (tree env) then Abortf (xcode env SysErrorIllegalArgument) ''CreateActor with Undef address''
     else case areg_Create env codeID of
         Inl aerr \<Rightarrow> Abortf (retCode aerr) (err_msg aerr)
       | Inr act \<Rightarrow>
           rt_bind (on_tree (\<lambda>st. GetActor (tree env) st addr)) (\<lambda>r.
           case r of
             Inr _ \<Rightarrow> Abortf (xcode env SysErrorIllegalArgument) ''Actor address already exists''
           | Inl _ \<Rightarrow>
               rt_bind (rt_get pricelist) (\<lambda>pl.
               rt_bind (chargeGas env (OnCreateActor pl)) (\<lambda>_.
               rt_bind (on_tree (\<lambda>st. SetActor (tree env) st addr act)) (\<lambda>r.
               case r of
                 Inl _ \<Rightarrow> rt_panic (PanicErr (Fatalf ''creating actor entry''))
               | Inr _ \<Rightarrow> rt_bind (chargeGasSafe env gasOnActorExec) (\<lambda>_. rt_return ()))))))"

definition pay_out :: "('h, 's, 'i) vm_env \<Rightarrow> Actor \<Rightarrow> address \<Rightarrow> address \<Rightarrow> ('h, 's, unit) rtm" where
  "pay_out env act recv beneficiary =
    (if Balance act = 0 then rt_return ()
     else
       rt_bind (rt_ResolveAddress env beneficiary) (\<lambda>found.
       case found of
         None \<Rightarrow> Abortf (xcode env SysErrorIllegalArgument) ''beneficiary doesn't exist''
       | Some beneficiaryId \<Rightarrow>
           if beneficiaryId = recv then Abortf (xcode env SysErrorIllegalArgument) ''benefactor cannot be beneficiary''
           else rt_bind (on_tree (transfer env recv beneficiary (Balance act))) (\<lambda>e.
             case e of Some _ \<Rightarrow> rt_panic (PanicErr (Fatalf ''failed to transfer balance to beneficiary actor''))
             | None \<Rightarrow> rt_return ())))"

definition rt_DeleteActor :: "('h, 's, 'i) vm_env \<Rightarrow> address \<Rightarrow> ('h, 's, unit) rtm" where
  "rt_DeleteActor env beneficiary =
    rt_bind (rt_get pricelist) (\<lambda>pl.
    rt_bind (chargeGas env (OnDeleteActor pl)) (\<lambda>_.
    rt_bind (rt_Receiver env) (\<lambda>recv.
    rt_bind (on_tree (\<lambda>st. GetActor (tree env) st recv)) (\<lambda>r.
    case r of
      Inl err \<Rightarrow>
        if Is_ErrActorNotFound err then Abortf (xcode env SysErrorIllegalActor) ''failed to load actor in delete actor''
        else rt_panic (PanicErr (Fatalf ''failed to get actor''))
    | Inr act \<Rightarrow>
        rt_bind (pay_out env act recv beneficiary) (\<lambda>_.
        rt_bind (on_tree (\<lambda>st. DeleteActor (tree env) st recv)) (\<lambda>r.
        case r of
          Inl _ \<Rightarrow> rt_panic (PanicErr (Fatalf ''failed to delete actor''))
        | Inr _ \<Rightarrow> rt_bind (chargeGasSafe env gasOnActorExec) (\<lambda>_. rt_return ())))))))"

definition ResolveToKeyAddr :: "('h, 's, 'i) vm_env \<Rightarrow> ('h, 's) StateTree \<Rightarrow> address \<Rightarrow> ('h, 's, address) tree_res" where
  "ResolveToKeyAddr env st addr =
    (if Protocol env addr = ProtoBLS \<or> Protocol env addr = ProtoSECP256K1 then Some (Inr addr, st)
     else tree_try (\<lambda>st. GetActor (tree env) st addr) (\<lambda>_ st. Some (Inl (ErrMsg ''failed to find actor''), st))
       (\<lambda>act st. Some (case account_PubkeyAddress env (Store st) act of
            None \<Rightarrow> Inl (ErrMsg ''failed to get account actor state'') | Some a \<Rightarrow> Inr a, st)) st)"

definition big_endian :: "u64 \<Rightarrow> bytes" where
  "big_endian x = map (\<lambda>i. ucast (drop_bit (8 * (7 - i)) x)) [0..<8]"

definition rt_NewActorAddress :: "('h, 's, 'i) vm_env \<Rightarrow> ('h, 's, address) rtm" where
  "rt_NewActorAddress env =
    rt_bind (rt_get id) (\<lambda>rt.
    rt_bind (on_tree (\<lambda>st. ResolveToKeyAddr env st (origin rt))) (\<lambda>r.
    case r of
      Inl _ \<Rightarrow> rt_panic (PanicErr (Fatalf ''resovling to key address''))
    | Inr oa \<Rightarrow>
        (case MarshalAddress env oa of
           None \<Rightarrow> rt_panic (PanicErr (Fatalf ''writing caller address into a buffer''))
         | Some b \<Rightarrow>
             (case address_NewActorAddress env (b @ big_endian (originNonce rt) @ big_endian (numActorsCreated rt)) of
                None \<Rightarrow> rt_panic (PanicErr (Fatalf ''create actor address''))
              | Some addr \<Rightarrow>
                  rt_bind (rt_modify (\<lambda>rt. rt\<lparr>numActorsCreated := numActorsCreated rt + 1\<rparr>)) (\<lambda>_. rt_return addr)))))"

definition abortIfAlreadyValidated :: "('h, 's, 'i) vm_env \<Rightarrow> ('h, 's, unit) rtm" where
  "abortIfAlreadyValidated env =
    rt_bind (rt_get callerValidated) (\<lambda>v.
    if v then Abortf (xcode env SysErrorIllegalActor) ''Method must validate caller identity exactly once''
    else rt_modify (\<lambda>rt. rt\<lparr>callerValidated := True\<rparr>))"

definition ValidateImmediateCallerIs :: "('h, 's, 'i) vm_env \<Rightarrow> address list \<Rightarrow> ('h, 's, unit) rtm" where
  "ValidateImmediateCallerIs env as =
    rt_bind (abortIfAlreadyValidated env) (\<lambda>_.
    rt_bind (rt_Caller env) (\<lambda>imm.
    if imm \<in> set as then rt_return () else Abortf (xcode env SysErrForbidden) ''caller is not one of''))"

definition ValidateImmediateCallerType :: "('h, 's, 'i) vm_env \<Rightarrow> cid list \<Rightarrow> ('h, 's, unit) rtm" where
  "ValidateImmediateCallerType env ts =
    rt_bind (abortIfAlreadyValidated env) (\<lambda>_.
    rt_bind (rt_Caller env) (\<lambda>caller.
    rt_bind (GetActorCodeCID env caller) (\<lambda>c.
    case c of
      None \<Rightarrow> rt_panic (PanicErr (Fatalf ''failed to lookup code cid for caller''))
    | Some callerCid \<Rightarrow>
        if callerCid \<in> set ts then rt_return () else Abortf (xcode env SysErrForbidden) ''caller cid type was not one of'')))"

definition TotalFilCircSupply :: "('h, 's, 'i) vm_env \<Rightarrow> ('h, 's, int) rtm" where
  "TotalFilCircSupply env =
    rt_bind (on_tree (\<lambda>st. Some (circSupplyCalc env (blockHeight env) st, st))) (\<lambda>r.
    case r of
      None \<Rightarrow> Abortf (xcode env ErrIllegalState) ''failed to get total circ supply''
    | Some cs \<Rightarrow> rt_return cs)"

definition GetRandomness :: "('h, 's, 'i) vm_env \<Rightarrow> bool \<Rightarrow> int \<Rightarrow> epoch \<Rightarrow> bytes \<Rightarrow> ('h, 's, bytes) rtm" where
  "GetRandomness env beacon pers ep entropy =
    (case randomness env beacon pers ep entropy of
       None \<Rightarrow> rt_panic (PanicErr (Fatalf ''could not get randomness''))
     | Some r \<Rightarrow> rt_return r)"

primrec read_actors :: "('h, 's, 'i) vm_env \<Rightarrow> address list \<Rightarrow> ('h, 's, unit) rtm" where
  "read_actors env [] = rt_return ()"
| "read_actors env (a # as) = rt_bind (on_tree (\<lambda>st. GetActor (tree env) st a)) (\<lambda>_. read_actors env as)"

primrec read_blocks :: "('h, 's, 'i) vm_env \<Rightarrow> nat \<Rightarrow> ('h, 's, unit) rtm" where
  "read_blocks env 0 = rt_return ()"
| "read_blocks env (Suc n) =
    rt_bind (rt_get pricelist) (\<lambda>pl.
    rt_bind (chargeGas env (OnIpldGet pl)) (\<lambda>_.
    rt_bind (chargeGas env (newGasCharge ''OnIpldGetEnd'' 0 0)) (\<lambda>_.
    rt_bind (chargeGas env gasOnActorExec) (\<lambda>_. read_blocks env n))))"

definition run_syscall :: "('h, 's, 'i) vm_env \<Rightarrow> syscall \<Rightarrow> ('h, 's, bytes option) rtm" where
  "run_syscall env sc =
    rt_bind (on_tree (\<lambda>st. Some (syscalls env st sc, st))) (\<lambda>r.
    rt_bind (read_actors env (sys_actors r)) (\<lambda>_.
    rt_bind (read_blocks env (sys_blocks r)) (\<lambda>_.
    case sys_answer r of None \<Rightarrow> rt_panic PanicOther | Some x \<Rightarrow> rt_return x)))"

text \<open>The answer is \<open>None\<close> for an error; a signature type without a price is one.\<close>

definition priced_syscall :: "('h, 's, 'i) vm_env \<Rightarrow> syscall \<Rightarrow> ('h, 's, bytes option) rtm" where
  "priced_syscall env sc =
    rt_bind (rt_get pricelist) (\<lambda>pl.
    case syscall_charge pl sc of
      None \<Rightarrow> rt_return None
    | Some c \<Rightarrow>
        rt_bind (chargeGas env c) (\<lambda>_.
        deferred (chargeGas env gasOnActorExec) (run_syscall env sc)))"

end
