(* ===== verification/VM_Apply.thy ===== *)
theory VM_Apply
  imports VM_Runtime
begin

text \<open>
  The virtual machine, part two: calling actor methods (\<^verbatim>\<open>chain/vm/invoker.go\<close>, \<open>shimCall\<close> of \<^verbatim>\<open>runtime.go\<close>), nested
  sends, the creation of accounts (\<^verbatim>\<open>mkactor.go\<close>) and the application of messages (\<^verbatim>\<open>vm.go\<close>).

  A method may send messages, whose execution calls methods again. The functions between take the \<open>send\<close> of
  the next call depth as the parameter \<open>nsend\<close>; \<open>send_fuel\<close> ties the recursion. Since a runtime deeper than
  \<open>MaxCallDepth\<close> is refused, \<open>MaxCallDepth + 2\<close> levels are enough (\<open>VM_Calls\<close> shows that no run needs more).
\<close>

section \<open>Nested sends and actor methods\<close>

text \<open>
  What \<open>send\<close> gives: the value it panics with, or the return value and the actor error; the runtime it made,
  unless making it panicked; the tree.
\<close>

type_synonym ('h, 's) send_res =
  "((panic + bytes \<times> actorError option) \<times> Runtime option \<times> ('h, 's) StateTree) option"

type_synonym ('h, 's) send_fun =
  "Message \<Rightarrow> Runtime option \<Rightarrow> GasCharge option \<Rightarrow> ('h, 's) StateTree \<Rightarrow> ('h, 's) send_res"

text \<open>
  \<open>send\<close> hands the gas used back to its parent when it returns or panics, once it has a runtime;
  \<open>ClearSnapshot\<close> is deferred, so it also runs when \<open>send\<close> panics.
\<close>

definition internalSend ::
  "('h, 's) send_fun \<Rightarrow> address \<Rightarrow> address \<Rightarrow> u64 \<Rightarrow> int option \<Rightarrow> bytes \<Rightarrow> ('h, 's, bytes \<times> actorError option) rtm" where
  "internalSend nsend from to method value params = (\<lambda>rt st.
    let msg = \<lparr>To = to, From = from, msg_Nonce = 0, Value = value, GasLimit = gasAvailable rt, GasFeeCap = None,
               GasPremium = None, Method = method, Params = params\<rparr>
    in case nsend msg (Some rt) None (Snapshot st) of
         None \<Rightarrow> None
       | Some (r, sub, st) \<Rightarrow>
           let rt = (case sub of None \<Rightarrow> rt | Some subrt \<Rightarrow> rt\<lparr>gasUsed := gasUsed subrt\<rparr>) in
           (case r of
              Inl p \<Rightarrow> map_option (\<lambda>st. (Inl p, rt, st)) (ClearSnapshot st)
            | Inr (ret, errSend) \<Rightarrow>
                (case (if errSend \<noteq> None then Revert st else Some st) of
                   None \<Rightarrow> None
                 | Some st \<Rightarrow>
                     let rt = (case sub of None \<Rightarrow> rt | Some subrt \<Rightarrow> rt\<lparr>numActorsCreated := numActorsCreated subrt\<rparr>) in
                     map_option (\<lambda>st. (Inr (ret, errSend), rt, st)) (ClearSnapshot st))))"

definition Send ::
  "('h, 's, 'i) vm_env \<Rightarrow> ('h, 's) send_fun \<Rightarrow> address \<Rightarrow> u64 \<Rightarrow> bytes option option \<Rightarrow> int option \<Rightarrow> (bytes \<Rightarrow> bool) \<Rightarrow>
   ('h, 's, int \<times> bytes) rtm" where
  "Send env nsend to method m value unmarshals =
    rt_bind (rt_get allowInternal) (\<lambda>allowed.
    if \<not> allowed then Abortf (xcode env SysErrorIllegalActor) ''runtime.Send() is currently disallowed''
    else case m of
        Some None \<Rightarrow> Abortf (xcode env ErrSerialization) ''failed to marshal input parameters''
      | _ \<Rightarrow>
          rt_bind (rt_Receiver env) (\<lambda>recv.
          rt_bind (internalSend nsend recv to method value (case m of Some (Some b) \<Rightarrow> b | _ \<Rightarrow> [])) (\<lambda>(ret, err).
          case err of
            Some e \<Rightarrow> if fatal e then rt_panic (PanicErr e) else rt_return (retCode e, [])
          | None \<Rightarrow>
              rt_bind (chargeGasSafe env gasOnActorExec) (\<lambda>_.
              if unmarshals ret then rt_return (0, ret)
              else Abortf (xcode env ErrSerialization) ''failed to unmarshal return value''))))"

definition run_op :: "('h, 's, 'i) vm_env \<Rightarrow> ('h, 's) send_fun \<Rightarrow> rt_op \<Rightarrow> ('h, 's, rt_answer) rtm" where
  "run_op env nsend op =
    (case op of
       OpResolveAddress a \<Rightarrow> rt_bind (rt_ResolveAddress env a) (\<lambda>x. rt_return (AAddrOpt x))
     | OpGetActorCodeCID a \<Rightarrow> rt_bind (GetActorCodeCID env a) (\<lambda>x. rt_return (ACidOpt x))
     | OpStoreGet c u \<Rightarrow> rt_bind (StoreGet env c u) (\<lambda>x. rt_return (ABytesOpt x))
     | OpStorePut x \<Rightarrow> rt_bind (StorePut env x) (\<lambda>x. rt_return (ACid x))
     | OpStateCreate x \<Rightarrow> rt_bind (StateCreate env x) (\<lambda>_. rt_return AUnit)
     | OpStateReadonly u \<Rightarrow> rt_bind (StateReadonly env u) (\<lambda>x. rt_return (ABytesOpt x))
     | OpCreateActor c a \<Rightarrow> rt_bind (CreateActor env c a) (\<lambda>_. rt_return AUnit)
     | OpDeleteActor a \<Rightarrow> rt_bind (rt_DeleteActor env a) (\<lambda>_. rt_return AUnit)
     | OpNewActorAddress \<Rightarrow> rt_bind (rt_NewActorAddress env) (\<lambda>x. rt_return (AAddr x))
     | OpCurrentBalance \<Rightarrow> rt_bind (CurrentBalance env) (\<lambda>x. rt_return (AInt x))
     | OpValidateImmediateCallerIs as \<Rightarrow> rt_bind (ValidateImmediateCallerIs env as) (\<lambda>_. rt_return AUnit)
     | OpValidateImmediateCallerAcceptAny \<Rightarrow> rt_bind (abortIfAlreadyValidated env) (\<lambda>_. rt_return AUnit)
     | OpValidateImmediateCallerType ts \<Rightarrow> rt_bind (ValidateImmediateCallerType env ts) (\<lambda>_. rt_return AUnit)
     | OpChargeGas compute \<Rightarrow> rt_bind (chargeGas env (newGasCharge ''actor'' compute 0)) (\<lambda>_. rt_return AUnit)
     | OpSyscall sc \<Rightarrow> rt_bind (priced_syscall env sc) (\<lambda>x. rt_return (AErrOr x))
     | OpTotalFilCircSupply \<Rightarrow> rt_bind (TotalFilCircSupply env) (\<lambda>x. rt_return (AInt x))
     | OpGetRandomness b p e x \<Rightarrow> rt_bind (GetRandomness env b p e x) (\<lambda>x. rt_return (ABytes x))
     | OpCaller \<Rightarrow> rt_bind (rt_Caller env) (\<lambda>x. rt_return (AAddr x))
     | OpReceiver \<Rightarrow> rt_bind (rt_Receiver env) (\<lambda>x. rt_return (AAddr x))
     | OpValueReceived \<Rightarrow> rt_bind (rt_get (\<lambda>rt. Value (rt_msg rt))) (\<lambda>x. rt_return (AIntOpt x))
     | OpCurrEpoch \<Rightarrow> rt_bind (rt_get height) (\<lambda>x. rt_return (AInt x))
     | OpNetworkVersion \<Rightarrow> rt_bind (rt_get (\<lambda>rt. ntwkVersion env (height rt))) (\<lambda>x. rt_return (ANat x))
     | OpSend to method m value u \<Rightarrow> rt_bind (Send env nsend to method m value u) (\<lambda>(c, b). rt_return (ASend c b)))"

primrec run_prog :: "('h, 's, 'i) vm_env \<Rightarrow> ('h, 's) send_fun \<Rightarrow> prog \<Rightarrow> ('h, 's, retval \<times> bytes) rtm" where
  "run_prog env nsend (Return r captured) = rt_return (r, captured)"
| "run_prog env nsend (Abort code msg) = Abortf code msg"
| "run_prog env nsend Crash = rt_panic PanicOther"
| "run_prog env nsend (Do op k) = rt_bind (run_op env nsend op) (\<lambda>a. run_prog env nsend (k a))"
| "run_prog env nsend (StateTx u f k) =
    rt_bind (StateTransaction env u (\<lambda>obj. run_prog env nsend (f obj))) (\<lambda>captured. run_prog env nsend (k captured))"

definition shimCall :: "('h, 's, 'i) vm_env \<Rightarrow> ('h, 's, retval \<times> bytes) rtm \<Rightarrow> ('h, 's, bytes \<times> actorError option) rtm" where
  "shimCall env f = (\<lambda>rt st.
    case rt_bind f (\<lambda>(ret, _).
        rt_bind (rt_get callerValidated) (\<lambda>v.
        if \<not> v then Abortf (xcode env SysErrorIllegalActor) ''Caller MUST be validated during method execution''
        else rt_return (case ret of
            RetBytes b \<Rightarrow> (b, None)
          | RetEmpty \<Rightarrow> ([], None)
          | RetMarshal (Some b) \<Rightarrow> (b, None)
          | RetMarshal None \<Rightarrow> ([], Some (Absorb None 2 ''failed to marshal response to cbor''))
          | RetNil \<Rightarrow> ([], None)
          | RetOther \<Rightarrow> ([], Some (Newf 3 ''could not determine type for response from call''))))) rt st of
      None \<Rightarrow> None
    | Some (Inl (PanicErr ar), rt, st) \<Rightarrow> Some (Inr ([], Some ar), rt, st)
    | Some (Inl PanicOther, rt, st) \<Rightarrow>
        Some (Inr ([], Some (Newf (xcode env SysErrReserved1) ''spec actors failure'')), rt, st)
    | Some (Inr x, rt, st) \<Rightarrow> Some (Inr x, rt, st))"

definition areg_Invoke ::
  "('h, 's, 'i) vm_env \<Rightarrow> ('h, 's) send_fun \<Rightarrow> cid \<Rightarrow> u64 \<Rightarrow> bytes \<Rightarrow> ('h, 's, bytes \<times> actorError option) rtm" where
  "areg_Invoke env nsend codeCid method params =
    (case areg env codeCid of
       None \<Rightarrow> rt_bind (rt_Receiver env) (\<lambda>_. rt_return ([], Some (Newf (xcode env SysErrorIllegalActor) ''no code for actor'')))
     | Some act \<Rightarrow>
         if actors_VersionForNetwork (ntwkVersion env (blockHeight env)) \<noteq> actor_version act
         then rt_return ([], Some (Newf (xcode env SysErrorIllegalActor) ''unsupported actor''))
         else if length (methods act) \<le> unat method
         then rt_return ([], Some (Newf (xcode env SysErrInvalidMethod) ''no method on actor''))
         else case methods act ! unat method of
             None \<Rightarrow> rt_return ([], Some (Newf (xcode env SysErrInvalidMethod) ''no method on actor''))
           | Some meth \<Rightarrow>
               (case meth params of
                  None \<Rightarrow> rt_return ([], Some (Absorb None (xcode env ErrSerialization) ''failed to decode parameters''))
                | Some p \<Rightarrow> shimCall env (run_prog env nsend p)))"

definition Invoke ::
  "('h, 's, 'i) vm_env \<Rightarrow> ('h, 's) send_fun \<Rightarrow> Actor \<Rightarrow> u64 \<Rightarrow> bytes \<Rightarrow> ('h, 's, bytes \<times> actorError option) rtm" where
  "Invoke env nsend act method params =
    rt_bind (areg_Invoke env nsend (Code act) method params)
      (\<lambda>(ret, err). rt_return (if err \<noteq> None then ([], err) else (ret, None)))"

section \<open>Creating accounts\<close>

definition newAccountActor :: "('h, 's, 'i) vm_env \<Rightarrow> nat \<Rightarrow> Actor option" where
  "newAccountActor env ver =
    (if ver = 3 then Some \<lparr>Code = AccountActorCodeID env, Head = EmptyObjectCid env, Nonce = 0, Balance = 0\<rparr> else None)"

definition makeActor :: "('h, 's, 'i) vm_env \<Rightarrow> nat \<Rightarrow> address \<Rightarrow> ('h, 's, actorError + Actor) rtm" where
  "makeActor env ver addr =
    (case Protocol env addr of
       ProtoBLS \<Rightarrow> (case newAccountActor env ver of None \<Rightarrow> rt_panic PanicOther | Some a \<Rightarrow> rt_return (Inr a))
     | ProtoSECP256K1 \<Rightarrow> (case newAccountActor env ver of None \<Rightarrow> rt_panic PanicOther | Some a \<Rightarrow> rt_return (Inr a))
     | ProtoID \<Rightarrow> rt_return (Inl (Newf (xcode env SysErrInvalidReceiver) ''no actor with given ID''))
     | ProtoActor \<Rightarrow> rt_return (Inl (Newf (xcode env SysErrInvalidReceiver) ''no such actor''))
     | ProtoUnknown \<Rightarrow> rt_return (Inl (Newf (xcode env SysErrInvalidReceiver) ''address has unsupported protocol'')))"

definition call_constructor ::
  "('h, 's, 'i) vm_env \<Rightarrow> ('h, 's) send_fun \<Rightarrow> address \<Rightarrow> address \<Rightarrow> ('h, 's, actorError + Actor \<times> address) rtm" where
  "call_constructor env nsend addr addrID =
    (case MarshalAddress env addr of
       None \<Rightarrow> rt_return (Inl (Escalate ''couldn't serialize params for actor construction''))
     | Some p \<Rightarrow>
         rt_bind (internalSend nsend (SystemActorAddr env) addrID (Constructor env) (Some 0) p) (\<lambda>(_, aerr).
         case aerr of
           Some e \<Rightarrow> rt_return (Inl (aerr_Wrap e ''failed to invoke account constructor''))
         | None \<Rightarrow>
             rt_bind (on_tree (\<lambda>st. GetActor (tree env) st addrID)) (\<lambda>r.
             case r of
               Inl _ \<Rightarrow> rt_return (Inl (Escalate ''loading newly created actor failed''))
             | Inr act \<Rightarrow> rt_return (Inr (act, addrID)))))"

definition TryCreateAccountActor ::
  "('h, 's, 'i) vm_env \<Rightarrow> ('h, 's) send_fun \<Rightarrow> address \<Rightarrow> ('h, 's, actorError + Actor \<times> address) rtm" where
  "TryCreateAccountActor env nsend addr =
    rt_bind (rt_get height) (\<lambda>h.
    case PricelistByEpoch h of
      None \<Rightarrow> rt_panic PanicOther
    | Some pl \<Rightarrow>
        rt_bind (chargeGasSafe env (OnCreateActor pl)) (\<lambda>e.
        case e of
          Some err \<Rightarrow> rt_return (Inl err)
        | None \<Rightarrow>
            if addr = ZeroAddress env
            then rt_return (Inl (Newf (xcode env ErrIllegalArgument) ''cannot create the zero bls actor''))
            else
              rt_bind (on_tree (\<lambda>st. RegisterNewAddress (tree env) st addr)) (\<lambda>r.
              case r of
                Inl _ \<Rightarrow> rt_return (Inl (Escalate ''registering actor address''))
              | Inr addrID \<Rightarrow>
                  rt_bind (makeActor env (actors_VersionForNetwork (ntwkVersion env h)) addr) (\<lambda>a.
                  case a of
                    Inl aerr \<Rightarrow> rt_return (Inl aerr)
                  | Inr act \<Rightarrow>
                      rt_bind (on_tree (\<lambda>st. SetActor (tree env) st addrID act)) (\<lambda>r.
                      case r of
                        Inl _ \<Rightarrow> rt_return (Inl (Escalate ''creating new actor failed''))
                      | Inr _ \<Rightarrow> call_constructor env nsend addr addrID)))))"

section \<open>Sending a message\<close>

text \<open>The runtime is local until \<open>makeRuntime\<close> returns it, so a panic leaves only the tree.\<close>

definition makeRuntime ::
  "('h, 's, 'i) vm_env \<Rightarrow> Message \<Rightarrow> Runtime option \<Rightarrow> ('h, 's) StateTree \<Rightarrow> ((panic + Runtime) \<times> ('h, 's) StateTree) option" where
  "makeRuntime env msg parent st =
    (case PricelistByEpoch (blockHeight env) of
       None \<Rightarrow> Some (Inl PanicOther, st)
     | Some pl \<Rightarrow>
         let rt = \<lparr>rt_msg = msg, origin = From msg, originNonce = msg_Nonce msg, height = blockHeight env,
                   gasAvailable = GasLimit msg, gasUsed = 0, depth = 0, numActorsCreated = 0, pricelist = pl,
                   allowInternal = True, callerValidated = False\<rparr>;
             forbidden = (case parent of Some p \<Rightarrow> \<not> allowInternal p | None \<Rightarrow> False);
             rt = (case parent of
                 None \<Rightarrow> rt
               | Some p \<Rightarrow> rt\<lparr>gasUsed := gasUsed p, origin := origin p, originNonce := originNonce p,
                             numActorsCreated := numActorsCreated p, depth := depth p + 1\<rparr>)
         in if forbidden then Some (Inl (PanicErr (Newf (xcode env SysErrForbidden) ''internal calls currently disabled'')), st)
            else if depth rt > MaxCallDepth
            then Some (Inl (PanicErr (Newf (xcode env SysErrForbidden) ''message execution exceeds call depth'')), st)
            else case rt_ResolveAddress env (From msg) rt st of
                None \<Rightarrow> None
              | Some (Inl p, rt, st) \<Rightarrow> Some (Inl p, st)
              | Some (Inr None, rt, st) \<Rightarrow>
                  Some (Inl (PanicErr (Newf (xcode env SysErrInvalidReceiver) ''resolve msg.From address failed'')), st)
              | Some (Inr (Some resF), rt, st) \<Rightarrow>
                  (case rt_ResolveAddress env (To msg) rt st of
                     None \<Rightarrow> None
                   | Some (Inl p, rt, st) \<Rightarrow> Some (Inl p, st)
                   | Some (Inr resT, rt, st) \<Rightarrow>
                       Some (Inr (rt\<lparr>rt_msg := msg\<lparr>From := resF,
                         To := (case resT of Some a \<Rightarrow> a | None \<Rightarrow> Undef (tree env))\<rparr>\<rparr>), st)))"

definition invoke_method ::
  "('h, 's, 'i) vm_env \<Rightarrow> ('h, 's) send_fun \<Rightarrow> Message \<Rightarrow> Actor \<Rightarrow> ('h, 's, bytes \<times> actorError option) rtm" where
  "invoke_method env nsend msg toActor =
    (case Value msg of
       None \<Rightarrow> rt_panic PanicOther
     | Some value \<Rightarrow>
         rt_bind (rt_get pricelist) (\<lambda>pl.
         rt_bind (chargeGasSafe env (OnMethodInvocation pl value (Method msg))) (\<lambda>aerr.
         case aerr of
           Some e \<Rightarrow> rt_return ([], Some (aerr_Wrap e ''not enough gas for method invocation''))
         | None \<Rightarrow>
             deferred (rt_bind (chargeGasSafe env (newGasCharge ''OnMethodInvocationDone'' 0 0)) (\<lambda>_. rt_return ()))
               (rt_bind (if value \<noteq> 0 then on_tree (transfer env (From msg) (To msg) value) else rt_return None) (\<lambda>err.
                case err of
                  Some e \<Rightarrow> rt_return ([], Some (aerr_Wrap e ''failed to transfer funds''))
                | None \<Rightarrow>
                    if Method msg \<noteq> 0 then
                      rt_bind (chargeGasSafe env gasOnActorExec) (\<lambda>_. Invoke env nsend toActor (Method msg) (Params msg))
                    else rt_return ([], None))))))"

definition find_receiver ::
  "('h, 's, 'i) vm_env \<Rightarrow> ('h, 's) send_fun \<Rightarrow> Message \<Rightarrow> ('h, 's, actorError + Actor) rtm" where
  "find_receiver env nsend msg =
    rt_bind (on_tree (\<lambda>st. GetActor (tree env) st (To msg))) (\<lambda>r.
    case r of
      Inr toActor \<Rightarrow> rt_return (Inr toActor)
    | Inl err \<Rightarrow>
        if Is_ErrActorNotFound err then
          rt_bind (TryCreateAccountActor env nsend (To msg)) (\<lambda>c.
          case c of
            Inl e \<Rightarrow> rt_return (Inl (aerr_Wrap e ''could not create account''))
          | Inr (a, aid) \<Rightarrow>
              rt_bind (rt_Caller env) (\<lambda>caller.
              rt_bind (rt_modify (\<lambda>rt. rt\<lparr>rt_msg := \<lparr>To = aid, From = caller, msg_Nonce = 0, Value = Value (rt_msg rt),
                GasLimit = 0, GasFeeCap = None, GasPremium = None, Method = 0, Params = []\<rparr>\<rparr>)) (\<lambda>_.
              rt_return (Inr a))))
        else rt_return (Inl (Escalate ''getting actor'')))"

definition send_body ::
  "('h, 's, 'i) vm_env \<Rightarrow> ('h, 's) send_fun \<Rightarrow> Message \<Rightarrow> GasCharge option \<Rightarrow> ('h, 's, bytes \<times> actorError option) rtm" where
  "send_body env nsend msg gasCharge =
    rt_bind (case gasCharge of None \<Rightarrow> rt_return None | Some g \<Rightarrow> chargeGasSafe env g) (\<lambda>e.
    case e of
      Some err \<Rightarrow> rt_return ([], Some (aerr_Wrap err ''not enough gas for initial message charge, this should not happen''))
    | None \<Rightarrow>
        rt_bind (chargeGasSafe env (newGasCharge ''OnGetActor'' 0 0)) (\<lambda>_.
        rt_bind (find_receiver env nsend msg) (\<lambda>r.
        case r of
          Inl e \<Rightarrow> rt_return ([], Some e)
        | Inr toActor \<Rightarrow> invoke_method env nsend msg toActor)))"

definition send_step :: "('h, 's, 'i) vm_env \<Rightarrow> ('h, 's) send_fun \<Rightarrow> ('h, 's) send_fun" where
  "send_step env nsend msg parent gasCharge st =
    (case makeRuntime env msg parent st of
       None \<Rightarrow> None
     | Some (Inl p, st) \<Rightarrow> Some (Inl p, None, st)
     | Some (Inr rt, st) \<Rightarrow>
         map_option (\<lambda>(r, rt, st). (r, Some rt, st)) (send_body env nsend msg gasCharge rt st))"

primrec send_fuel :: "('h, 's, 'i) vm_env \<Rightarrow> nat \<Rightarrow> ('h, 's) send_fun" where
  "send_fuel env 0 = (\<lambda>msg parent gasCharge st. None)"
| "send_fuel env (Suc n) = send_step env (send_fuel env n)"

definition send :: "('h, 's, 'i) vm_env \<Rightarrow> ('h, 's) send_fun" where
  "send env = send_fuel env (MaxCallDepth + 2)"

section \<open>Applying a message\<close>

record ApplyRet =
  ExitCode :: int
  Return_bytes :: bytes
  GasUsed :: int
  ActorErr :: "actorError option"
  GasCosts :: "GasOutputs option"

definition checkMessage :: "Message \<Rightarrow> gerr option" where
  "checkMessage msg =
    (if GasLimit msg = 0 then Some ''message has no gas limit set''
     else if GasLimit msg < 0 then Some ''message has negative gas limit''
     else if GasFeeCap msg = None then Some ''message fee cap not set''
     else if GasPremium msg = None then Some ''message gas premium not set''
     else if Value msg = None then Some ''message no value set''
     else None)"

definition ApplyImplicitMessage ::
  "('h, 's, 'i) vm_env \<Rightarrow> Message \<Rightarrow> ('h, 's) StateTree \<Rightarrow> ((panic + ApplyRet \<times> actorError option) \<times> ('h, 's) StateTree) option" where
  "ApplyImplicitMessage env msg st =
    (case send env msg None None st of
       None \<Rightarrow> None
     | Some (Inl p, _, st) \<Rightarrow> Some (Inl p, st)
     | Some (Inr (ret, actorErr), _, st) \<Rightarrow>
         Some (Inr (\<lparr>ExitCode = RetCode actorErr, Return_bytes = ret, GasUsed = 0, ActorErr = actorErr, GasCosts = None\<rparr>, actorErr), st))"

definition ShouldBurn :: "('h, 's, 'i) vm_env \<Rightarrow> Message \<Rightarrow> int \<Rightarrow> ('h, 's) StateTree \<Rightarrow> ((gerr + bool) \<times> ('h, 's) StateTree) option" where
  "ShouldBurn env msg errcode st =
    (if errcode = 0 \<and> Method msg = SubmitWindowedPoSt env then
       tree_try (\<lambda>st. GetActor (tree env) st (To msg))
         (\<lambda>err st. Some (if Is_ErrActorNotFound err then Inr True else Inl ''failed to lookup target actor'', st))
         (\<lambda>toActor st. Some (Inr (Code toActor \<noteq> StorageMinerActorCodeID env), st)) st
     else Some (Inr True, st))"

text \<open>A message that is refused before it is executed.\<close>

definition refused :: "int \<Rightarrow> actorError option \<Rightarrow> int \<Rightarrow> ApplyRet" where
  "refused code err penalty =
    \<lparr>ExitCode = code, Return_bytes = [], GasUsed = 0, ActorErr = err, GasCosts = Some (ZeroGasOutputs\<lparr>MinerPenalty := penalty\<rparr>)\<rparr>"

text \<open>The payments out of the gas holder, at the end of \<open>ApplyMessage\<close>.\<close>

definition settle ::
  "('h, 's, 'i) vm_env \<Rightarrow> Message \<Rightarrow> Actor \<Rightarrow> GasOutputs \<Rightarrow> ('h, 's) StateTree \<Rightarrow> ((gerr + unit) \<times> ('h, 's) StateTree) option" where
  "settle env msg gasHolder out =
    (let fail = (\<lambda>m _ st. Some (Inl m, st)) in
     tree_try (\<lambda>st. transferFromGasHolder env st (BurntFundsActorAddr env) gasHolder (BaseFeeBurn out))
       (fail ''failed to burn base fee'') (\<lambda>gasHolder.
     tree_try (\<lambda>st. transferFromGasHolder env st (RewardAddress env) gasHolder (MinerTip out))
       (fail ''failed to give miner gas reward'') (\<lambda>gasHolder.
     tree_try (\<lambda>st. transferFromGasHolder env st (BurntFundsActorAddr env) gasHolder (OverEstimationBurn out))
       (fail ''failed to burn overestimation fee'') (\<lambda>gasHolder.
     tree_try (\<lambda>st. transferFromGasHolder env st (From msg) gasHolder (Refund out))
       (fail ''failed to refund gas'') (\<lambda>gasHolder st.
     Some (if Balance gasHolder \<noteq> 0 then Inl ''gas handling math is wrong'' else Inr (), st))))))"

text \<open>From the return of \<open>send\<close> to the end; \<open>rt\<close> is the runtime of the message.\<close>

definition finish_message ::
  "('h, 's, 'i) vm_env \<Rightarrow> Message \<Rightarrow> Actor \<Rightarrow> bytes \<times> actorError option \<Rightarrow> Runtime \<Rightarrow> ('h, 's) StateTree \<Rightarrow>
   ((panic + (gerr + ApplyRet)) \<times> ('h, 's) StateTree) option" where
  "finish_message env msg gasHolder r rt st =
    (case r of (ret, actorErr) \<Rightarrow>
     if IsFatal actorErr then Some (Inr (Inl ''fatal error''), st)
     else if actorErr \<noteq> None \<and> ret \<noteq> []
     then Some (Inr (Inl ''message invocation errored, but had a return value anyway''), st)
     else case (if ret \<noteq> [] then chargeGasSafe env (OnChainReturnValue (pricelist rt) (int (length ret))) rt st
                else Some (Inr actorErr, rt, st)) of
         None \<Rightarrow> None
       | Some (Inl p, _, st) \<Rightarrow> Some (Inl p, st)
       | Some (Inr actorErr, rt, st) \<Rightarrow>
           let ret = (if actorErr \<noteq> None then [] else ret); errcode = RetCode actorErr in
           (case (if errcode \<noteq> 0 then Revert st else Some st) of
              None \<Rightarrow> None
            | Some st \<Rightarrow>
                let used = (if gasUsed rt < 0 then 0 else gasUsed rt) in
                (case ShouldBurn env msg errcode st of
                   None \<Rightarrow> None
                 | Some (Inl _, st) \<Rightarrow> Some (Inr (Inl ''deciding whether should burn failed''), st)
                 | Some (Inr burn, st) \<Rightarrow>
                     let out = ComputeGasOutputs used (GasLimit msg) (baseFee env) (the (GasFeeCap msg)) (the (GasPremium msg)) burn in
                     (case settle env msg gasHolder out st of
                        None \<Rightarrow> None
                      | Some (Inl e, st) \<Rightarrow> Some (Inr (Inl e), st)
                      | Some (Inr _, st) \<Rightarrow>
                          Some (Inr (Inr \<lparr>ExitCode = errcode, Return_bytes = ret, GasUsed = used, ActorErr = actorErr,
                            GasCosts = Some out\<rparr>), st)))))"

text \<open>From the snapshot on; \<open>ClearSnapshot\<close> is deferred.\<close>

definition execute_message ::
  "('h, 's, 'i) vm_env \<Rightarrow> Message \<Rightarrow> GasCharge \<Rightarrow> Actor \<Rightarrow> ('h, 's) StateTree \<Rightarrow>
   ((panic + (gerr + ApplyRet)) \<times> ('h, 's) StateTree) option" where
  "execute_message env msg msgGas gasHolder st =
    (case (case send env msg None (Some msgGas) (Snapshot st) of
         None \<Rightarrow> None
       | Some (Inl p, _, st) \<Rightarrow> Some (Inl p, st)
       | Some (Inr r, None, st) \<Rightarrow> Some (Inr (Inl ''send returned nil runtime''), st)
       | Some (Inr r, Some rt, st) \<Rightarrow> finish_message env msg gasHolder r rt st) of
       None \<Rightarrow> None
     | Some (r, st) \<Rightarrow> map_option (Pair r) (ClearSnapshot st))"

definition ApplyMessage ::
  "('h, 's, 'i) vm_env \<Rightarrow> Message \<Rightarrow> int \<Rightarrow> ('h, 's) StateTree \<Rightarrow> ((panic + (gerr + ApplyRet)) \<times> ('h, 's) StateTree) option" where
  "ApplyMessage env msg chainLength =
    (let err = (\<lambda>e st. Some (Inr (Inl e), st)); ret = (\<lambda>x st. Some (Inr (Inr x), st)) in
     case checkMessage msg of
       Some e \<Rightarrow> err e
     | None \<Rightarrow>
       (case PricelistByEpoch (blockHeight env) of
          None \<Rightarrow> (\<lambda>st. Some (Inl PanicOther, st))
        | Some pl \<Rightarrow>
          let msgGas = OnChainMessage pl chainLength; msgGasCost = Total msgGas in
          if msgGasCost > GasLimit msg then ret (refused (xcode env SysErrOutOfGas) None (baseFee env * msgGasCost))
          else
            let penalty = baseFee env * GasLimit msg; invalid = Newf (xcode env SysErrSenderInvalid);
                state_invalid = Newf (xcode env SysErrSenderStateInvalid) in
            tree_try (\<lambda>st. GetActor (tree env) st (From msg))
              (\<lambda>e. if Is_ErrActorNotFound e
                   then ret (refused (xcode env SysErrSenderInvalid) (Some (invalid ''actor not found'')) penalty)
                   else err ''failed to look up from actor'') (\<lambda>fromActor.
            if Code fromActor \<noteq> AccountActorCodeID env
            then ret (refused (xcode env SysErrSenderInvalid) (Some (invalid ''send from not account actor'')) penalty)
            else if msg_Nonce msg \<noteq> Nonce fromActor
            then ret (refused (xcode env SysErrSenderStateInvalid) (Some (state_invalid ''actor nonce invalid'')) penalty)
            else
              let gascost = GasLimit msg * the (GasFeeCap msg) in
              if Balance fromActor < gascost
              then ret (refused (xcode env SysErrSenderStateInvalid) (Some (state_invalid ''actor balance less than needed'')) penalty)
              else
                tree_try (\<lambda>st. transferToGasHolder env st (From msg) zero_actor gascost)
                  (\<lambda>_. err ''failed to withdraw gas funds'') (\<lambda>gasHolder.
                tree_try (\<lambda>st. incrementNonce env st (From msg)) (\<lambda>_. err ''increment nonce'') (\<lambda>_.
                execute_message env msg msgGas gasHolder)))))"

end
