(* ===== verification/VM_Invariant.thy ===== *)
theory VM_Invariant
  imports VM_Apply
begin

text \<open>
  What the virtual machine keeps: the invariant of the tree it works on (\<open>vm_inv\<close>), what reading and executing
  leave as it is (\<open>reads\<close>, \<open>keeps\<close>), also around snapshots, and a small logic for operations of the runtime:
  \<open>sound m P\<close> says that \<open>m\<close> ends, keeps what has to be kept, panics with proper actor errors only and
  gives results that satisfy \<open>P\<close>.
\<close>

section \<open>Address caches\<close>

text \<open>
  Cached resolutions are ID addresses, and operations on the tree only add to the cache of the top layer.
\<close>

definition caches_ok :: "('h, 's, 'i) tree_env \<Rightarrow> stateSnaps \<Rightarrow> bool" where
  "caches_ok T ss \<longleftrightarrow> (\<forall>l \<in> set (layers ss). \<forall>a r. fmlookup (resolveCache l) a = Some r \<longrightarrow> Is_ID T r)"

definition lower_caches :: "stateSnaps \<Rightarrow> (address, address) fmap list" where
  "lower_caches ss = map resolveCache (butlast (layers ss))"

definition cache_step :: "('h, 's, 'i) tree_env \<Rightarrow> stateSnaps \<Rightarrow> stateSnaps \<Rightarrow> bool" where
  "cache_step T ss ss' \<longleftrightarrow> lower_caches ss' = lower_caches ss \<and> (caches_ok T ss \<longrightarrow> caches_ok T ss')"

text \<open>Documented behaviour of the init actor state: addresses are resolved to IDs.\<close>

definition resolves_to_ids :: "('h, 's, 'i) tree_env \<Rightarrow> bool" where
  "resolves_to_ids T \<longleftrightarrow>
    (\<forall>i a r. ResolveAddress T i a = Inr (Some r) \<longrightarrow> Is_ID T r) \<and>
    (\<forall>i a i' r. MapAddressToNewID T i a = Inr (i', r) \<longrightarrow> Is_ID T r)"

lemma cache_step_refl [simp]: "cache_step T ss ss"
  by (simp add: cache_step_def)

lemma cache_step_trans: "cache_step T ss ss' \<Longrightarrow> cache_step T ss' ss'' \<Longrightarrow> cache_step T ss ss''"
  by (simp add: cache_step_def)

lemma cache_step_layers: "layers ss' = layers ss \<Longrightarrow> cache_step T ss ss'"
  by (simp add: cache_step_def lower_caches_def caches_ok_def)

lemma cache_step_top:
  assumes "top_layer f ss = Some ss'"
    and "\<And>l a r. fmlookup (resolveCache (f l)) a = Some r \<Longrightarrow> fmlookup (resolveCache l) a = Some r \<or> Is_ID T r"
  shows "cache_step T ss ss'"
proof -
  have "layers ss \<noteq> []" using assms(1) by (auto simp: top_layer_def)
  then obtain ls l where l: "layers ss = ls @ [l]" by (rule last_layer_cases)
  then show ?thesis using assms(1,2) by (fastforce simp: top_layer_snoc cache_step_def lower_caches_def caches_ok_def)
qed

lemma cache_step_setActor: "setActor ss a x = Some ss' \<Longrightarrow> cache_step T ss ss'"
  unfolding setActor_def by (rule cache_step_top) auto

lemma cache_step_deleteActor: "deleteActor ss a = Some ss' \<Longrightarrow> cache_step T ss ss'"
  unfolding deleteActor_def by (rule cache_step_top) auto

lemma cache_step_cacheResolve:
  assumes "cacheResolveAddress ss a r = Some ss'" "Is_ID T r"
  shows "cache_step T ss ss'"
proof -
  obtain ss1 where s: "top_layer (\<lambda>l. l\<lparr>resolveCache := fmupd a r (resolveCache l)\<rparr>) ss = Some ss1" "layers ss' = layers ss1"
    using assms(1) by (auto simp: cacheResolveAddress_def)
  have "cache_step T ss ss1" using s(1) by (rule cache_step_top) (use assms(2) in \<open>auto split: if_splits\<close>)
  then show ?thesis using cache_step_layers [OF s(2)] by (rule cache_step_trans)
qed

lemma cache_step_GetActor_with:
  assumes "GetActor_with T lookup st a = Some (r, st')"
    and "\<And>q st1. lookup st a = Some (q, st1) \<Longrightarrow> cache_step T (snaps st) (snaps st1)"
  shows "cache_step T (snaps st) (snaps st')"
  using assms(1) cache_step_trans [OF assms(2) cache_step_setActor] assms(2)
  by (auto simp: GetActor_with_def split: if_splits option.splits sum.splits)

lemma lookupIDinternal_cases:
  assumes "lookupIDinternal T g st a = Some (r, st')"
  shows "\<exists>q. g st (InitAddress T) = Some (q, st')" "resolves_to_ids T \<Longrightarrow> r = Inr b \<Longrightarrow> Is_ID T b"
  using assms by (auto simp: lookupIDinternal_def resolves_to_ids_def split: option.splits sum.splits)

lemma search_layers_mem: "search_layers ls a = Some r \<Longrightarrow> \<exists>l \<in> set ls. fmlookup (resolveCache l) a = Some r"
  by (induction ls) (auto split: option.splits)

lemma resolve_loop_mem: "resolve_loop ls a n k = Some (Some r, k') \<Longrightarrow> \<exists>l \<in> set ls. fmlookup (resolveCache l) a = Some r"
proof (induction n arbitrary: k)
  case (Suc i)
  then show ?case by (auto split: if_splits option.splits)
qed simp

lemma resolveAddress_caches:
  assumes "resolveAddress ss a = Some (q, ss')"
  shows "cache_step T ss ss'" "caches_ok T ss \<Longrightarrow> q = Some r \<Longrightarrow> Is_ID T r"
proof -
  show "cache_step T ss ss'" using assms by (intro cache_step_layers) (auto simp: resolveAddress_def)
  show "caches_ok T ss \<Longrightarrow> q = Some r \<Longrightarrow> Is_ID T r"
    using assms resolve_loop_mem unfolding resolveAddress_def caches_ok_def by fastforce
qed

lemma LookupID_fuel_caches:
  assumes "resolves_to_ids T" "LookupID_fuel n T st a = Some (r, st')"
  shows "cache_step T (snaps st) (snaps st') \<and> (caches_ok T (snaps st) \<longrightarrow> (\<forall>b. r = Inr b \<longrightarrow> Is_ID T b))"
  using assms(2)
proof (induction n arbitrary: st a r st')
  case (Suc n)
  show ?case
  proof (cases "Is_ID T a")
    case False
    obtain q ss where s: "resolveAddress (snaps st) a = Some (q, ss)" using Suc.prems False by (auto split: option.splits)
    note rs = resolveAddress_caches [OF s]
    show ?thesis
    proof (cases q)
      case (Some b)
      then show ?thesis using Suc.prems False s rs by auto
    next
      case None
      let ?g = "GetActor_with T (LookupID_fuel n T)"
      obtain p st1 where i: "lookupIDinternal T ?g (st\<lparr>snaps := ss\<rparr>) a = Some (p, st1)"
        using Suc.prems False s None by (auto split: option.splits)
      obtain x where "?g (st\<lparr>snaps := ss\<rparr>) (InitAddress T) = Some (x, st1)" using lookupIDinternal_cases(1) [OF i] by blast
      then have "cache_step T (snaps (st\<lparr>snaps := ss\<rparr>)) (snaps st1)"
        by (rule cache_step_GetActor_with) (use Suc.IH in blast)
      then have c: "cache_step T (snaps st) (snaps st1)" using cache_step_trans [OF rs(1)] by simp
      show ?thesis
      proof (cases p)
        case (Inl e)
        then show ?thesis using Suc.prems False s None i c by auto
      next
        case (Inr b)
        then have "Is_ID T b" using lookupIDinternal_cases(2) [OF i assms(1)] by blast
        then show ?thesis
          using Suc.prems False s None i Inr cache_step_trans [OF c cache_step_cacheResolve] by auto
      qed
    qed
  qed (use Suc.prems in auto)
qed simp


section \<open>Balances\<close>

definition total_of :: "view \<Rightarrow> int" where
  "total_of v = (\<Sum>a \<in> dom v. Balance (the (v a)))"

definition bal_at :: "view \<Rightarrow> address \<Rightarrow> int" where
  "bal_at v a = (case v a of Some x \<Rightarrow> Balance x | None \<Rightarrow> 0)"

definition bal_ok :: "view \<Rightarrow> bool" where
  "bal_ok v \<longleftrightarrow> finite (dom v) \<and> (\<forall>a x. v a = Some x \<longrightarrow> 0 \<le> Balance x)"

lemma total_del: "finite (dom v) \<Longrightarrow> total_of (v(a := None)) = total_of v - bal_at v a"
proof (cases "v a")
  case None
  then show ?thesis by (simp add: bal_at_def fun_upd_idem)
next
  case (Some x)
  assume f: "finite (dom v)"
  have "total_of (v(a := None)) = (\<Sum>b \<in> dom v - {a}. Balance (the (v b)))"
    unfolding total_of_def by (rule sum.cong) auto
  then show ?thesis using f Some by (simp add: total_of_def bal_at_def sum_diff1 dom_def)
qed

lemma total_upd: "finite (dom v) \<Longrightarrow> total_of (v(a \<mapsto> x)) = total_of v - bal_at v a + Balance x"
proof -
  assume f: "finite (dom v)"
  have "total_of (v(a \<mapsto> x)) = Balance x + (\<Sum>b \<in> dom v - {a}. Balance (the ((v(a \<mapsto> x)) b)))"
    unfolding total_of_def using f by (simp add: sum.insert_remove)
  also have "(\<Sum>b \<in> dom v - {a}. Balance (the ((v(a \<mapsto> x)) b))) = total_of (v(a := None))"
    unfolding total_of_def by (rule sum.cong) auto
  finally show ?thesis using total_del [OF f, of a] by linarith
qed

lemma bal_ok_upd: "bal_ok v \<Longrightarrow> 0 \<le> Balance x \<Longrightarrow> bal_ok (v(a \<mapsto> x))"
  by (simp add: bal_ok_def)

lemma bal_ok_del: "bal_ok v \<Longrightarrow> bal_ok (v(a := None))"
  by (auto simp: bal_ok_def dom_def split: if_splits intro: finite_subset [rotated])

lemma bal_at_nonneg: "bal_ok v \<Longrightarrow> 0 \<le> bal_at v a"
  by (auto simp: bal_ok_def bal_at_def split: option.splits)

section \<open>What operations keep\<close>

text \<open>
  Documented behaviour of the modules around: the HAMT is a map, the protocol of an address says whether it is
  an ID, addresses resolve to IDs, the system actors have IDs, no error has exit code 0.
\<close>

definition vm_env_ok :: "('h, 's, 'i) vm_env \<Rightarrow> ('h \<Rightarrow> view) \<Rightarrow> bool" where
  "vm_env_ok env ent \<longleftrightarrow>
    hamt_ok (tree env) ent \<and> init_ok (tree env) \<and> resolves_to_ids (tree env) \<and> \<not> Is_ID (tree env) (Undef (tree env)) \<and>
    (\<forall>a. Protocol env a = ProtoID \<longleftrightarrow> Is_ID (tree env) a) \<and>
    Is_ID (tree env) (SystemActorAddr env) \<and> Is_ID (tree env) (BurntFundsActorAddr env) \<and>
    Is_ID (tree env) (RewardAddress env) \<and> (\<forall>n. xcode env n \<noteq> 0)"

definition vm_inv :: "('h, 's, 'i) vm_env \<Rightarrow> ('h \<Rightarrow> view) \<Rightarrow> ('h, 's) StateTree \<Rightarrow> bool" where
  "vm_inv env ent st \<longleftrightarrow> tree_ok st \<and> caches_ok (tree env) (snaps st) \<and> (\<forall>v \<in> set (tviews ent st). bal_ok v)"

abbreviation cur :: "('h \<Rightarrow> view) \<Rightarrow> ('h, 's) StateTree \<Rightarrow> view" where
  "cur ent st \<equiv> hd (tviews ent st)"

text \<open>Reading: only caches change.\<close>

definition reads :: "('h, 's, 'i) vm_env \<Rightarrow> ('h \<Rightarrow> view) \<Rightarrow> ('h, 's) StateTree \<Rightarrow> ('h, 's) StateTree \<Rightarrow> bool" where
  "reads env ent st st' \<longleftrightarrow>
    vm_inv env ent st' \<and> tviews ent st' = tviews ent st \<and> lower_caches (snaps st') = lower_caches (snaps st) \<and> Store st' = Store st"

text \<open>Executing: the invariant holds, snapshots below are as they were, tokens have not become more.\<close>

definition keeps :: "('h, 's, 'i) vm_env \<Rightarrow> ('h \<Rightarrow> view) \<Rightarrow> ('h, 's) StateTree \<Rightarrow> ('h, 's) StateTree \<Rightarrow> bool" where
  "keeps env ent st st' \<longleftrightarrow>
    vm_inv env ent st' \<and> tl (tviews ent st') = tl (tviews ent st) \<and> lower_caches (snaps st') = lower_caches (snaps st) \<and>
    total_of (cur ent st') \<le> total_of (cur ent st)"

text \<open>The same without the balances.\<close>

definition stays :: "('h, 's, 'i) vm_env \<Rightarrow> ('h \<Rightarrow> view) \<Rightarrow> ('h, 's) StateTree \<Rightarrow> ('h, 's) StateTree \<Rightarrow> bool" where
  "stays env ent st st' \<longleftrightarrow>
    vm_inv env ent st' \<and> tl (tviews ent st') = tl (tviews ent st) \<and> lower_caches (snaps st') = lower_caches (snaps st)"

lemma keeps_stays: "keeps env ent st st' \<longleftrightarrow> stays env ent st st' \<and> total_of (cur ent st') \<le> total_of (cur ent st)"
  by (auto simp: keeps_def stays_def)

lemma reads_keeps: "reads env ent st st' \<Longrightarrow> keeps env ent st st'"
  by (simp add: reads_def keeps_def)

lemma reads_refl: "vm_inv env ent st \<Longrightarrow> reads env ent st st"
  by (simp add: reads_def)

lemma reads_trans: "reads env ent st st' \<Longrightarrow> reads env ent st' st'' \<Longrightarrow> reads env ent st st''"
  by (simp add: reads_def)

lemma keeps_refl: "vm_inv env ent st \<Longrightarrow> keeps env ent st st"
  by (simp add: keeps_def)

lemma keeps_trans: "keeps env ent st st' \<Longrightarrow> keeps env ent st' st'' \<Longrightarrow> keeps env ent st st''"
  by (simp add: keeps_def)

lemma keeps_inv: "keeps env ent st st' \<Longrightarrow> vm_inv env ent st'" "reads env ent st st' \<Longrightarrow> vm_inv env ent st'"
  by (simp_all add: keeps_def reads_def)

lemma tviews_ne [simp]: "tviews ent st \<noteq> []"
  by (simp add: tviews_def views_def)

lemma vm_inv_cur: "vm_inv env ent st \<Longrightarrow> bal_ok (cur ent st)" "vm_inv env ent st \<Longrightarrow> finite (dom (cur ent st))"
  using hd_in_set [OF tviews_ne, of ent st] unfolding vm_inv_def bal_ok_def by blast+

lemma readsI:
  assumes "vm_inv env ent st" "same_tree ent st st'" "tree_ok st'" "cache_step (tree env) (snaps st) (snaps st')"
  shows "reads env ent st st'"
  using assms by (simp add: reads_def vm_inv_def same_tree_def cache_step_def)

lemma vm_env_okD:
  assumes "vm_env_ok env ent"
  shows "hamt_ok (tree env) ent" "init_ok (tree env)" "resolves_to_ids (tree env)" "\<not> Is_ID (tree env) (Undef (tree env))"
    "Protocol env a = ProtoID \<longleftrightarrow> Is_ID (tree env) a" "xcode env n \<noteq> 0"
    "Is_ID (tree env) (SystemActorAddr env)" "Is_ID (tree env) (BurntFundsActorAddr env)" "Is_ID (tree env) (RewardAddress env)"
  using assms by (simp_all add: vm_env_ok_def)

lemma LookupID_reads:
  assumes "vm_env_ok env ent" "vm_inv env ent st"
  shows "\<exists>r st'. LookupID (tree env) st a = Some (r, st') \<and> reads env ent st st' \<and> (\<forall>b. r = Inr b \<longrightarrow> Is_ID (tree env) b) \<and>
    r = (if Is_ID (tree env) a then Inr a else case cached (snaps st) a of
           Some b \<Rightarrow> Inr b | None \<Rightarrow> init_resolve (tree env) (Store st) (cur ent st) a)"
proof -
  note e = vm_env_okD [OF assms(1)]
  have "tree_ok st" using assms(2) by (simp add: vm_inv_def)
  then obtain r st' where l: "LookupID (tree env) st a = Some (r, st')" "same_tree ent st st'" "tree_ok st'"
    "r = (if Is_ID (tree env) a then Inr a else case cached (snaps st) a of
           Some b \<Rightarrow> Inr b | None \<Rightarrow> init_resolve (tree env) (Store st) (cur ent st) a)"
    using LookupID_view [OF e(1,2)] by blast
  have "caches_ok (tree env) (snaps st)" using assms(2) by (simp add: vm_inv_def)
  then have "cache_step (tree env) (snaps st) (snaps st')" "\<forall>b. r = Inr b \<longrightarrow> Is_ID (tree env) b"
    using LookupID_fuel_caches [OF e(3) l(1) [unfolded LookupID_def]] by blast+
  then show ?thesis using l(1,4) readsI [OF assms(2) l(2,3)] by blast
qed

lemma GetActor_reads:
  assumes "vm_env_ok env ent" "vm_inv env ent st"
  shows "\<exists>r st'. GetActor (tree env) st a = Some (r, st') \<and> reads env ent st st' \<and>
    (\<forall>b st1. a \<noteq> Undef (tree env) \<and> LookupID (tree env) st a = Some (Inr b, st1) \<longrightarrow> r = actor_of (cur ent st) b) \<and>
    (\<forall>e st1. LookupID (tree env) st a = Some (Inl e, st1) \<longrightarrow> (\<exists>e'. r = Inl e' \<and> (Is_ErrActorNotFound e' \<longrightarrow> Is_ErrActorNotFound e)))"
proof (cases "a = Undef (tree env)")
  case True
  then show ?thesis using assms(2) by (simp add: GetActor_def GetActor_with_def reads_refl)
next
  case False
  note e = vm_env_okD [OF assms(1)]
  have t: "tree_ok st" using assms(2) by (simp add: vm_inv_def)
  obtain q st1 where l: "LookupID (tree env) st a = Some (q, st1)" "reads env ent st st1"
    using LookupID_reads [OF assms] by blast
  show ?thesis
  proof (cases q)
    case (Inl err)
    then show ?thesis using l False by (simp add: GetActor_def GetActor_with_def)
  next
    case (Inr b)
    obtain st' where g: "GetActor (tree env) st a = Some (actor_of (cur ent st) b, st')" "same_tree ent st st'" "tree_ok st'"
      using GetActor_view [OF e(1,2) t False l(1) [unfolded Inr]] by blast
    have "cache_step (tree env) (snaps st) (snaps st')"
      using g(1) unfolding GetActor_def
      by (rule cache_step_GetActor_with) (use LookupID_fuel_caches [OF e(3)] in \<open>auto simp: LookupID_def\<close>)
    then show ?thesis using g readsI [OF assms(2) g(2,3)] l Inr by simp
  qed
qed

lemma GetActor_id:
  assumes "vm_env_ok env ent" "vm_inv env ent st" "Is_ID (tree env) a"
  shows "\<exists>st'. GetActor (tree env) st a = Some (actor_of (cur ent st) a, st') \<and> reads env ent st st'"
proof -
  have "a \<noteq> Undef (tree env)" using vm_env_okD(4) [OF assms(1)] assms(3) by auto
  then show ?thesis using GetActor_reads [OF assms(1,2), of a] LookupID_id [OF assms(3)] by fastforce
qed

lemma actor_of_Inr: "actor_of v a = Inr x \<longleftrightarrow> v a = Some x"
  by (simp add: actor_of_def split: option.splits)

lemma set_tviews: "set (tviews ent st) = insert (cur ent st) (set (tl (tviews ent st)))"
  by (metis list.collapse list.simps(15) tviews_ne)

text \<open>Writing an actor, by whatever address resolves to \<open>b\<close>.\<close>

lemma SetActor_writes:
  assumes "vm_env_ok env ent" "vm_inv env ent st" "LookupID (tree env) st a = Some (Inr b, st1)" "0 \<le> Balance x"
  shows "\<exists>st'. SetActor (tree env) st a x = Some (Inr (), st') \<and> vm_inv env ent st' \<and>
    tviews ent st' = (cur ent st)(b \<mapsto> x) # tl (tviews ent st) \<and> lower_caches (snaps st') = lower_caches (snaps st) \<and> Store st' = Store st"
proof -
  note e = vm_env_okD [OF assms(1)]
  have t: "tree_ok st" "caches_ok (tree env) (snaps st)" "bal_ok (cur ent st)" "\<forall>v \<in> set (tl (tviews ent st)). bal_ok v"
    using assms(2) by (simp_all add: vm_inv_def set_tviews)
  obtain st' where s: "SetActor (tree env) st a x = Some (Inr (), st')" "tviews ent st' = (cur ent st)(b \<mapsto> x) # tl (tviews ent st)"
    "Store st' = Store st" "tree_ok st'"
    using SetActor_view [OF e(1,2) t(1) assms(3)] by blast
  have "cache_step (tree env) (snaps st) (snaps st1)"
    using LookupID_fuel_caches [OF e(3) assms(3) [unfolded LookupID_def]] by blast
  then have c: "cache_step (tree env) (snaps st) (snaps st')"
    using s(1) assms(3) cache_step_trans [OF _ cache_step_setActor] by (auto simp: SetActor_def)
  have "bal_ok ((cur ent st)(b \<mapsto> x))" using t(3) assms(4) by (rule bal_ok_upd)
  then show ?thesis using s c t by (auto simp: vm_inv_def cache_step_def)
qed

lemma DeleteActor_writes:
  assumes "vm_env_ok env ent" "vm_inv env ent st" "Is_ID (tree env) a" "cur ent st a = Some x"
  shows "\<exists>st'. DeleteActor (tree env) st a = Some (Inr (), st') \<and> vm_inv env ent st' \<and>
    tviews ent st' = (cur ent st)(a := None) # tl (tviews ent st) \<and> lower_caches (snaps st') = lower_caches (snaps st)"
proof -
  note e = vm_env_okD [OF assms(1)]
  have t: "tree_ok st" "caches_ok (tree env) (snaps st)" "bal_ok (cur ent st)" "\<forall>v \<in> set (tl (tviews ent st)). bal_ok v"
    using assms(2) by (simp_all add: vm_inv_def set_tviews)
  have u: "a \<noteq> Undef (tree env)" using e(4) assms(3) by auto
  obtain st' where s: "DeleteActor (tree env) st a = Some (Inr (), st')" "tviews ent st' = (cur ent st)(a := None) # tl (tviews ent st)"
    "tree_ok st'"
    using DeleteActor_view [OF e(1,2) t(1) assms(3) u] assms(4) by (auto simp: actor_of_def)
  obtain st1 where g: "GetActor (tree env) st a = Some (Inr x, st1)" "reads env ent st st1"
    using GetActor_id [OF assms(1-3)] assms(4) by (auto simp: actor_of_def)
  obtain ss where d: "deleteActor (snaps st1) a = Some ss" "st' = st1\<lparr>snaps := ss\<rparr>"
    using s(1) g(1) u LookupID_id [OF assms(3), of st] by (auto simp: DeleteActor_def)
  have "lower_caches ss = lower_caches (snaps st)" "caches_ok (tree env) ss"
    using cache_step_deleteActor [OF d(1), of "tree env"] g(2) by (simp_all add: cache_step_def reads_def vm_inv_def)
  then show ?thesis using s d(2) t bal_ok_del [OF t(3), of a] by (auto simp: vm_inv_def)
qed


definition aerr_ok :: "actorError \<Rightarrow> bool" where
  "aerr_ok e \<longleftrightarrow> fatal e \<or> retCode e \<noteq> 0"

lemma aerr_ok_simps [simp]:
  "aerr_ok (Newf c m)" "aerr_ok (Fatalf m)" "aerr_ok (Escalate m)" "aerr_ok (Absorb x c m)" "aerr_ok (aerr_Wrap e m) = aerr_ok e"
  by (simp_all add: aerr_ok_def Newf_def Fatalf_def Escalate_def Absorb_def aerr_Wrap_def)

lemma transfer_moves:
  assumes v: "bal_ok v" "v fid = Some f" "v tid = Some t" "fid \<noteq> tid" "0 \<le> amt" "amt \<le> Balance f"
  shows "total_of (v(fid \<mapsto> f\<lparr>Balance := Balance f - amt\<rparr>, tid \<mapsto> depositFunds t amt)) = total_of v"
proof -
  have fin: "finite (dom v)" "finite (dom (v(fid \<mapsto> f\<lparr>Balance := Balance f - amt\<rparr>)))" using v(1) by (simp_all add: bal_ok_def)
  have "bal_at (v(fid \<mapsto> f\<lparr>Balance := Balance f - amt\<rparr>)) tid = Balance t" "bal_at v fid = Balance f"
    using v(2-4) by (simp_all add: bal_at_def)
  then show ?thesis unfolding total_upd [OF fin(2)] total_upd [OF fin(1)] by (simp add: depositFunds_def)
qed

lemma transfer_keeps:
  assumes "vm_env_ok env ent" "vm_inv env ent st"
  shows "\<exists>e st'. transfer env from to amt st = Some (e, st') \<and> keeps env ent st st' \<and> (\<forall>x. e = Some x \<longrightarrow> aerr_ok x)"
proof (cases "from = to")
  case True
  then show ?thesis using assms(2) by (simp add: transfer_def keeps_refl)
next
  case False
  obtain r1 st1 where 1: "LookupID (tree env) st from = Some (r1, st1)" "reads env ent st st1" "\<forall>b. r1 = Inr b \<longrightarrow> Is_ID (tree env) b"
    using LookupID_reads [OF assms] by blast
  obtain r2 st2 where 2: "LookupID (tree env) st1 to = Some (r2, st2)" "reads env ent st1 st2" "\<forall>b. r2 = Inr b \<longrightarrow> Is_ID (tree env) b"
    using LookupID_reads [OF assms(1) keeps_inv(2) [OF 1(2)]] by blast
  have s2: "reads env ent st st2" using 1(2) 2(2) by (rule reads_trans)
  note d = transfer_def tree_try_def Let_def False 1(1)
  show ?thesis
  proof (cases r1)
    case (Inl e)
    then show ?thesis using reads_keeps [OF 1(2)] by (simp add: d)
  next
    case (Inr fid)
    note r1 = Inr
    then have fid: "Is_ID (tree env) fid" using 1(3) by blast
    show ?thesis
    proof (cases r2)
      case (Inl e)
      then show ?thesis using reads_keeps [OF s2] r1 2(1) by (simp add: d)
    next
      case (Inr tid)
      then have tid: "Is_ID (tree env) tid" using 2(3) by blast
      note d = d r1 2(1) Inr
      show ?thesis
      proof (cases "fid = tid \<or> amt < 0")
        case True
        then show ?thesis using reads_keeps [OF s2] by (auto simp: d)
      next
        case False
        then have ne: "fid \<noteq> tid" "\<not> amt < 0" by auto
        obtain st3 where g3: "GetActor (tree env) st2 fid = Some (actor_of (cur ent st2) fid, st3)" "reads env ent st2 st3"
          using GetActor_id [OF assms(1) keeps_inv(2) [OF s2] fid] by blast
        have s3: "reads env ent st st3" using s2 g3(2) by (rule reads_trans)
        obtain st4 where g4: "GetActor (tree env) st3 tid = Some (actor_of (cur ent st3) tid, st4)" "reads env ent st3 st4"
          using GetActor_id [OF assms(1) keeps_inv(2) [OF s3] tid] by blast
        have s4: "reads env ent st st4" using s3 g4(2) by (rule reads_trans)
        have v: "cur ent st2 = cur ent st" "cur ent st3 = cur ent st" "cur ent st4 = cur ent st" "tl (tviews ent st4) = tl (tviews ent st)"
          using s2 s3 s4 by (simp_all add: reads_def)
        note d = d ne g3(1) g4(1) actor_of_def v
        consider "cur ent st fid = None" | f where "cur ent st fid = Some f" "cur ent st tid = None"
          | f t where "cur ent st fid = Some f" "cur ent st tid = Some t" "deductFunds f amt = None"
          | f t f' where "cur ent st fid = Some f" "cur ent st tid = Some t" "deductFunds f amt = Some f'"
          by (meson not_Some_eq)
        then show ?thesis
        proof cases
          case (4 f t f')
          have f': "f' = f\<lparr>Balance := Balance f - amt\<rparr>" "amt \<le> Balance f" using 4(3) by (auto simp: deductFunds_def split: if_splits)
          have "0 \<le> Balance t" using 4(2) vm_inv_cur(1) [OF assms(2)] by (simp add: bal_ok_def)
          then have t: "0 \<le> Balance (depositFunds t amt)" using False by (simp add: depositFunds_def)
          obtain st5 where s5: "SetActor (tree env) st4 fid f' = Some (Inr (), st5)" "vm_inv env ent st5"
              "tviews ent st5 = (cur ent st)(fid \<mapsto> f') # tl (tviews ent st)" "lower_caches (snaps st5) = lower_caches (snaps st4)"
            using SetActor_writes [OF assms(1) keeps_inv(2) [OF s4] LookupID_id [OF fid], of f'] f' v by auto
          obtain st6 where s6: "SetActor (tree env) st5 tid (depositFunds t amt) = Some (Inr (), st6)" "vm_inv env ent st6"
              "tviews ent st6 = (cur ent st)(fid \<mapsto> f', tid \<mapsto> depositFunds t amt) # tl (tviews ent st)"
              "lower_caches (snaps st6) = lower_caches (snaps st5)"
            using SetActor_writes [OF assms(1) s5(2) LookupID_id [OF tid] t] s5(3) by auto
          have "keeps env ent st st6"
            using s6 s5(4) s4 transfer_moves [OF vm_inv_cur(1) [OF assms(2)] 4(1,2), of amt] False f'
            by (simp add: keeps_def reads_def)
          then show ?thesis using 4 s5(1) s6(1) by (simp add: d)
        qed (use reads_keeps [OF s3] reads_keeps [OF s4] in \<open>simp_all add: d\<close>)
      qed
    qed
  qed
qed


section \<open>Snapshots\<close>

lemma Snapshot_inv:
  assumes "vm_inv env ent st"
  shows "vm_inv env ent (Snapshot st)" "tviews ent (Snapshot st) = cur ent st # tviews ent st"
    "lower_caches (snaps (Snapshot st)) = map resolveCache (layers (snaps st))" "Store (Snapshot st) = Store st"
  using assms Snapshot_view(1) [of st ent] Snapshot_view(2) [of st] hd_in_set [OF tviews_ne, of ent st]
  by (auto simp: vm_inv_def Snapshot_def lower_caches_def addLayer_def caches_ok_def newStateSnapLayer_def)

lemma merge_layers:
  assumes "mergeLastLayer ss = Some ss'"
  shows "\<exists>ls k l. layers ss = ls @ [k, l] \<and>
    layers ss' = ls @ [\<lparr>actors = actors k ++\<^sub>f actors l, resolveCache = resolveCache k ++\<^sub>f resolveCache l\<rparr>]"
proof -
  obtain ls k l where l: "layers ss = ls @ [k, l]" using last_two_layers [OF assms] .
  then show ?thesis
    using assms unfolding mergeLastLayer_snoc [OF l] by (auto simp: dropLayer_def Let_def butlast_append split: if_splits)
qed

lemma clear_stays:
  assumes "vm_inv env ent st" "stays env ent (Snapshot st) st1"
  shows "\<exists>st2. ClearSnapshot st1 = Some st2 \<and> stays env ent st st2 \<and> cur ent st2 = cur ent st1 \<and> Store st2 = Store st1"
proof -
  note s = Snapshot_inv [OF assms(1)]
  have i: "vm_inv env ent st1" using assms(2) by (simp add: stays_def)
  have t: "tree_ok st" "tree_ok st1" using assms(1) i by (simp_all add: vm_inv_def)
  obtain v w vs where v: "tviews ent st = v # w # vs" using tviews_Cons [OF t(1)] by blast
  have "tl (tviews ent st1) = v # w # vs" using assms(2) s(2) v by (simp add: stays_def)
  then obtain u where v1: "tviews ent st1 = u # v # w # vs" by (metis list.collapse tviews_ne)
  obtain st2 where c: "ClearSnapshot st1 = Some st2" "tree_ok st2" "tviews ent st2 = u # w # vs" "Store st2 = Store st1"
    using ClearSnapshot_view [OF t(2), of ent] v1 by auto
  obtain ss where m: "mergeLastLayer (snaps st1) = Some ss" "snaps st2 = ss" using c(1) by (auto simp: ClearSnapshot_def)
  obtain ls k l where l: "layers (snaps st1) = ls @ [k, l]"
      "layers ss = ls @ [\<lparr>actors = actors k ++\<^sub>f actors l, resolveCache = resolveCache k ++\<^sub>f resolveCache l\<rparr>]"
    using merge_layers [OF m(1)] by blast
  have "map resolveCache ls @ [resolveCache k] = map resolveCache (layers (snaps st))"
    using assms(2) s(3) l(1) by (simp add: stays_def lower_caches_def butlast_append)
  then have "map resolveCache ls = butlast (map resolveCache (layers (snaps st)))" by (metis butlast_snoc)
  then have "lower_caches ss = lower_caches (snaps st)" using l(2) by (simp add: lower_caches_def map_butlast)
  moreover have "caches_ok (tree env) ss"
    using i l by (auto simp: vm_inv_def caches_ok_def split: if_splits)
  moreover have "\<forall>u \<in> set (tviews ent st2). bal_ok u" using i v1 c(3) by (simp add: vm_inv_def)
  ultimately have "stays env ent st st2"
    using c(2,3) m(2) v v1 assms(2) s(2) by (simp add: stays_def vm_inv_def)
  then show ?thesis using c v1 by simp
qed

lemma clear_keeps:
  assumes "vm_inv env ent st" "keeps env ent (Snapshot st) st1"
  shows "\<exists>st2. ClearSnapshot st1 = Some st2 \<and> keeps env ent st st2 \<and> cur ent st2 = cur ent st1 \<and> Store st2 = Store st1"
  using clear_stays [OF assms(1), of st1] assms(2) Snapshot_inv(2) [OF assms(1)] by (auto simp: keeps_stays)

lemma revert_keeps:
  assumes "vm_inv env ent st" "keeps env ent (Snapshot st) st1"
  shows "\<exists>st2. Revert st1 = Some st2 \<and> keeps env ent (Snapshot st) st2 \<and> cur ent st2 = cur ent st \<and> Store st2 = Store st1 \<and>
    map resolveCache (layers (snaps st2)) = map resolveCache (layers (snaps (Snapshot st)))"
proof -
  note s = Snapshot_inv [OF assms(1)]
  have i: "vm_inv env ent st1" using assms(2) by (rule keeps_inv)
  have t: "tree_ok st1" using i by (simp add: vm_inv_def)
  have v1: "tl (tviews ent st1) = tviews ent st" using assms(2) s(2) by (simp add: keeps_def)
  obtain st2 where r: "Revert st1 = Some st2" "tree_ok st2" "tviews ent st2 = cur ent st # tviews ent st" "Store st2 = Store st1"
    using Revert_view [OF t, of ent] v1 by auto
  obtain ss where d: "dropLayer (snaps st1) = Some ss" "snaps st2 = addLayer ss" using r(1) by (auto simp: Revert_def)
  have "layers ss = butlast (layers (snaps st1))" using d(1) by (auto simp: dropLayer_def Let_def split: if_splits)
  then have l: "layers (snaps st2) = butlast (layers (snaps st1)) @ [newStateSnapLayer]" using d(2) by (simp add: addLayer_def)
  have "lower_caches (snaps st2) = lower_caches (snaps st1)" using l by (simp add: lower_caches_def)
  moreover have "caches_ok (tree env) (snaps st2)"
    using i l by (auto simp: vm_inv_def caches_ok_def newStateSnapLayer_def dest: in_set_butlastD)
  moreover have "map resolveCache (layers (snaps st2)) = map resolveCache (layers (snaps (Snapshot st)))"
    using assms(2) l s(3) by (simp add: keeps_def lower_caches_def Snapshot_def addLayer_def)
  ultimately show ?thesis
    using r assms s by (auto simp: keeps_def vm_inv_def)
qed

section \<open>Operations of the runtime\<close>

definition rt_ok :: "('h, 's, 'i) vm_env \<Rightarrow> Runtime \<Rightarrow> bool" where
  "rt_ok env rt \<longleftrightarrow> Is_ID (tree env) (From (rt_msg rt)) \<and>
    (To (rt_msg rt) = Undef (tree env) \<or> Is_ID (tree env) (To (rt_msg rt))) \<and> pricelist rt = pricelist0 \<and> height rt = blockHeight env"

definition gas_ok :: "Runtime \<Rightarrow> bool" where
  "gas_ok rt \<longleftrightarrow> 0 \<le> gasUsed rt \<and> gasUsed rt \<le> gasAvailable rt \<and> gasAvailable rt < 2 ^ 59"

text \<open>With \<open>g\<close>, gas is followed as well.\<close>

definition rt_step :: "('h, 's, 'i) vm_env \<Rightarrow> bool \<Rightarrow> Runtime \<Rightarrow> Runtime \<Rightarrow> bool" where
  "rt_step env g rt rt' \<longleftrightarrow> rt_ok env rt' \<and> depth rt' = depth rt \<and> gasAvailable rt' = gasAvailable rt \<and> (g \<and> gas_ok rt \<longrightarrow> gas_ok rt')"

fun outcome :: "('a \<Rightarrow> bool) \<Rightarrow> panic + 'a \<Rightarrow> bool" where
  "outcome P (Inl (PanicErr e)) = aerr_ok e"
| "outcome P (Inl PanicOther) = True"
| "outcome P (Inr x) = P x"

definition sound ::
  "('h, 's, 'i) vm_env \<Rightarrow> ('h \<Rightarrow> view) \<Rightarrow> bool \<Rightarrow> nat \<Rightarrow> ('h, 's, 'a) rtm \<Rightarrow> ('a \<Rightarrow> bool) \<Rightarrow> bool" where
  "sound env ent g d m P \<longleftrightarrow>
    (\<forall>rt st. rt_ok env rt \<and> depth rt = d \<and> vm_inv env ent st \<longrightarrow>
      (\<exists>r rt' st'. m rt st = Some (r, rt', st') \<and> keeps env ent st st' \<and> rt_step env g rt rt' \<and> outcome P r))"

lemma rt_step_refl: "rt_ok env rt \<Longrightarrow> rt_step env g rt rt"
  by (simp add: rt_step_def)

lemma rt_step_trans: "rt_step env g rt rt' \<Longrightarrow> rt_step env g rt' rt'' \<Longrightarrow> rt_step env g rt rt''"
  by (simp add: rt_step_def)

lemma soundI:
  assumes "\<And>rt st. rt_ok env rt \<Longrightarrow> depth rt = d \<Longrightarrow> vm_inv env ent st \<Longrightarrow>
    \<exists>r rt' st'. m rt st = Some (r, rt', st') \<and> keeps env ent st st' \<and> rt_step env g rt rt' \<and> outcome P r"
  shows "sound env ent g d m P"
  using assms by (simp add: sound_def)

lemma soundE:
  assumes "sound env ent g d m P" "rt_ok env rt" "depth rt = d" "vm_inv env ent st"
  obtains r rt' st' where "m rt st = Some (r, rt', st')" "keeps env ent st st'" "rt_step env g rt rt'" "outcome P r"
  using assms unfolding sound_def by blast

lemma sound_return: "P x \<Longrightarrow> sound env ent g d (rt_return x) P"
  by (rule soundI) (simp add: rt_return_def keeps_refl rt_step_refl)

lemma sound_panic: "outcome (\<lambda>_. True) (Inl p) \<Longrightarrow> sound env ent g d (rt_panic p) P"
  by (rule soundI) (cases p; simp add: rt_panic_def keeps_refl rt_step_refl)

lemma sound_Abortf: "sound env ent g d (Abortf c m) P"
  unfolding Abortf_def by (rule sound_panic) simp

lemma sound_bind:
  assumes "sound env ent g d m P" "\<And>x. P x \<Longrightarrow> sound env ent g d (f x) Q"
  shows "sound env ent g d (rt_bind m f) Q"
proof (rule soundI)
  fix rt st
  assume p: "rt_ok env rt" "depth rt = d" "vm_inv env ent st"
  obtain r rt1 st1 where m: "m rt st = Some (r, rt1, st1)" "keeps env ent st st1" "rt_step env g rt rt1" "outcome P r"
    using soundE [OF assms(1) p] .
  show "\<exists>r rt' st'. rt_bind m f rt st = Some (r, rt', st') \<and> keeps env ent st st' \<and> rt_step env g rt rt' \<and> outcome Q r"
  proof (cases r)
    case (Inl a)
    then show ?thesis using m by (cases a) (simp_all add: rt_bind_def)
  next
    case (Inr x)
    then have "P x" using m(4) by simp
    moreover have "rt_ok env rt1" "depth rt1 = d" using m(3) p(2) by (simp_all add: rt_step_def)
    ultimately obtain q rt2 st2 where "f x rt1 st1 = Some (q, rt2, st2)" "keeps env ent st1 st2" "rt_step env g rt1 rt2" "outcome Q q"
      using soundE [OF assms(2) _ _ keeps_inv(1) [OF m(2)]] by metis
    then show ?thesis using m(1) Inr keeps_trans [OF m(2)] rt_step_trans [OF m(3)] by (simp add: rt_bind_def)
  qed
qed

lemma sound_get: "(\<And>rt. rt_ok env rt \<Longrightarrow> P (f rt)) \<Longrightarrow> sound env ent g d (rt_get f) P"
  by (rule soundI) (simp add: rt_get_def keeps_refl rt_step_refl)

lemma sound_modify: "(\<And>rt. rt_ok env rt \<Longrightarrow> rt_step env g rt (f rt)) \<Longrightarrow> sound env ent g d (rt_modify f) (\<lambda>_. True)"
  by (rule soundI) (simp add: rt_modify_def keeps_refl)

lemma sound_tree:
  assumes "\<And>st. vm_inv env ent st \<Longrightarrow> \<exists>x st'. f st = Some (x, st') \<and> keeps env ent st st' \<and> P x"
  shows "sound env ent g d (on_tree f) P"
proof (rule soundI)
  fix rt st
  assume "rt_ok env rt" "vm_inv env ent st"
  moreover obtain x st' where "f st = Some (x, st')" "keeps env ent st st'" "P x" using assms \<open>vm_inv env ent st\<close> by blast
  ultimately show "\<exists>r rt' st'. on_tree f rt st = Some (r, rt', st') \<and> keeps env ent st st' \<and> rt_step env g rt rt' \<and> outcome P r"
    by (simp add: on_tree_def rt_step_refl)
qed

lemma sound_deferred:
  assumes "sound env ent g d e (\<lambda>_. True)" "sound env ent g d m P"
  shows "sound env ent g d (deferred e m) P"
proof (rule soundI)
  fix rt st
  assume p: "rt_ok env rt" "depth rt = d" "vm_inv env ent st"
  obtain r rt1 st1 where m: "m rt st = Some (r, rt1, st1)" "keeps env ent st st1" "rt_step env g rt rt1" "outcome P r"
    using soundE [OF assms(2) p] .
  have "rt_ok env rt1" "depth rt1 = d" using m(3) p(2) by (simp_all add: rt_step_def)
  then obtain q rt2 st2 where q: "e rt1 st1 = Some (q, rt2, st2)" "keeps env ent st1 st2" "rt_step env g rt1 rt2" "outcome (\<lambda>_. True) q"
    using soundE [OF assms(1) _ _ keeps_inv(1) [OF m(2)]] by metis
  have k: "keeps env ent st st2" "rt_step env g rt rt2" using keeps_trans [OF m(2) q(2)] rt_step_trans [OF m(3) q(3)] .
  show "\<exists>r rt' st'. deferred e m rt st = Some (r, rt', st') \<and> keeps env ent st st' \<and> rt_step env g rt rt' \<and> outcome P r"
  proof (cases q)
    case (Inl a)
    then show ?thesis using m(1) q k by (cases a) (simp_all add: deferred_def)
  next
    case (Inr a)
    then show ?thesis using m q(1) k by (simp add: deferred_def)
  qed
qed

lemma sound_weaken: "sound env ent g d m P \<Longrightarrow> (\<And>x. P x \<Longrightarrow> Q x) \<Longrightarrow> sound env ent g d m Q"
  unfolding sound_def by (metis outcome.elims(3) outcome.simps)

end
