(* ===== verification/VM_Calls.thy ===== *)
theory VM_Calls
  imports VM_Invariant
begin

text \<open>
  Every operation of the runtime, every actor method and every nested send is sound in the sense of
  \<open>VM_Invariant\<close>, whatever the actor code is (\<open>sound_run_prog\<close>, \<open>send_ok\<close>); gas is followed for code that
  does not take gas back (\<open>sane_code\<close>). \<open>send\<close> ends with the recursion depth it is given (\<open>send_fuel_sends\<close>) and does
  not panic on messages whose addresses can be resolved.
\<close>

section \<open>Gas charges\<close>

definition charge_ok :: "GasCharge \<Rightarrow> bool" where
  "charge_ok gas \<longleftrightarrow> 0 \<le> Total gas \<and> Total gas < 2 ^ 62"

lemma charge_step:
  assumes "rt_ok env rt" "g \<Longrightarrow> charge_ok gas"
  shows "\<exists>e rt'. chargeGasSafe env gas rt st = Some (Inr e, rt', st) \<and> rt_step env g rt rt' \<and> (\<forall>x. e = Some x \<longrightarrow> aerr_ok x)"
proof -
  have "gas_ok (rt\<lparr>gasUsed := wrap64 (gasUsed rt + Total gas)\<rparr>)"
    if "g" "gas_ok rt" "\<not> gasUsed rt > wrap64 (gasAvailable rt - Total gas)"
  proof -
    have c: "0 \<le> Total gas" "Total gas < 2 ^ 62" "0 \<le> gasUsed rt" "gasUsed rt \<le> gasAvailable rt" "gasAvailable rt < 2 ^ 59"
      using that assms(2) by (simp_all add: charge_ok_def gas_ok_def)
    then have "in_int64 (gasAvailable rt - Total gas)" "in_int64 (gasUsed rt + Total gas)" by (simp_all add: in_int64_def)
    then show ?thesis using c that(3) by (simp add: gas_ok_def)
  qed
  moreover have "gas_ok (rt\<lparr>gasUsed := gasAvailable rt\<rparr>)" if "gas_ok rt" using that by (simp add: gas_ok_def)
  ultimately show ?thesis
    using assms(1) unfolding chargeGasSafe_def Let_def
    by (cases "gasUsed rt > wrap64 (gasAvailable rt - Total gas)") (auto simp: rt_step_def rt_ok_def)
qed

lemma sound_chargeGasSafe:
  "(g \<Longrightarrow> charge_ok gas) \<Longrightarrow> sound env ent g d (chargeGasSafe env gas) (\<lambda>e. \<forall>x. e = Some x \<longrightarrow> aerr_ok x)"
  by (rule soundI) (use charge_step keeps_refl in fastforce)

lemma sound_chargeGas: "(g \<Longrightarrow> charge_ok gas) \<Longrightarrow> sound env ent g d (chargeGas env gas) (\<lambda>_. True)"
  unfolding chargeGas_def
  by (rule sound_bind [OF sound_chargeGasSafe]) (auto intro: sound_return sound_panic split: option.splits)

lemma charge_ok_plain: "0 \<le> c \<Longrightarrow> c < 2 ^ 62 \<Longrightarrow> charge_ok (newGasCharge n c 0)"
  by (simp add: charge_ok_def Total_def newGasCharge_def in_int64_def)

lemma charge_ok_zero [simp]: "charge_ok (newGasCharge n 0 0)" "charge_ok gasOnActorExec"
  by (simp_all add: charge_ok_plain gasOnActorExec_def)

lemma charge_ok_prices [simp]:
  "charge_ok (OnIpldGet pricelist0)" "charge_ok (OnCreateActor pricelist0)" "charge_ok (OnMethodInvocation pricelist0 v m)"
  by (simp_all add: charge_ok_def Total_def newGasCharge_def in_int64_def OnIpldGet_def OnCreateActor_def OnMethodInvocation_def
      pricelist0_def Let_def)

lemma charge_ok_sizes:
  assumes "0 \<le> n" "n < 2 ^ 50"
  shows "charge_ok (OnIpldPut pricelist0 n)" "charge_ok (OnChainReturnValue pricelist0 n)" "charge_ok (OnChainMessage pricelist0 n)"
proof -
  have "in_int64 (n * 1300)" "in_int64 (353640 + n * 1300)" "in_int64 ((36 + n) * 1300)" "in_int64 (38863 + (36 + n) * 1300)"
    using assms by (simp_all add: in_int64_def)
  then show "charge_ok (OnIpldPut pricelist0 n)" "charge_ok (OnChainReturnValue pricelist0 n)" "charge_ok (OnChainMessage pricelist0 n)"
    using assms
    by (simp_all add: charge_ok_def Total_def newGasCharge_def OnIpldPut_def OnChainReturnValue_def OnChainMessage_def pricelist0_def)
qed

lemma PricelistByEpoch_eq [simp]: "PricelistByEpoch h = Some pricelist0"
  by (simp add: PricelistByEpoch_def prices_def)

section \<open>Actor code that does not take gas back\<close>

text \<open>
  Charges of actor code are not negative, nothing it handles is longer than \<open>2 ^ 50\<close> bytes, and it does not
  delete actors. Deletion refunds gas, and the refund of a deletion that is reverted afterwards is kept, so
  code that repeats it could drive the gas used below any bound.
\<close>

definition short :: "bytes option \<Rightarrow> bool" where
  "short x \<longleftrightarrow> (case x of Some b \<Rightarrow> length b < 2 ^ 50 | None \<Rightarrow> True)"

fun sane_op :: "rt_op \<Rightarrow> bool" where
  "sane_op (OpDeleteActor _) = False"
| "sane_op (OpChargeGas c) = (0 \<le> c \<and> c < 2 ^ 62)"
| "sane_op (OpStorePut x) = short x"
| "sane_op (OpStateCreate x) = short x"
| "sane_op (OpSyscall (VerifyPoSt _ n _)) = (n < 2 ^ 40)"
| "sane_op _ = True"

primrec sane :: "prog \<Rightarrow> bool" where
  "sane (Return r c) = short (marshalled r)"
| "sane (Abort c m) = True"
| "sane Crash = True"
| "sane (Do op k) = (sane_op op \<and> (\<forall>a. sane (k a)))"
| "sane (StateTx u f k) = ((\<forall>x. sane (f x)) \<and> (\<forall>c. sane (k c)))"

definition sane_code :: "('h, 's, 'i) vm_env \<Rightarrow> bool" where
  "sane_code env \<longleftrightarrow> (\<forall>c act i meth b p. areg env c = Some act \<longrightarrow> i < length (methods act) \<longrightarrow> methods act ! i = Some meth \<longrightarrow>
     meth b = Some p \<longrightarrow> sane p)"

lemma OnVerifyPost_eq: "OnVerifyPost pricelist0 p n = newGasCharge ''OnVerifyPost'' (wrap64 (117680921 + n * 43780)) 0"
proof -
  have "(case Option.bind p (verifyPostLookup pricelist0) of Some c \<Rightarrow> c
      | None \<Rightarrow> case verifyPostLookup pricelist0 StackedDrgWindow512MiBV1 of Some c \<Rightarrow> c | None \<Rightarrow> \<lparr>flat = 0, scale = 0\<rparr>) = window_cost"
    by (cases "Option.bind p (verifyPostLookup pricelist0)") (auto simp: pricelist0_def Option.bind_eq_Some_conv split: if_splits)
  moreover have "\<not> verifyPostDiscount pricelist0" by (simp add: pricelist0_def)
  ultimately show ?thesis by (simp add: OnVerifyPost_def window_cost_def)
qed

lemma syscall_charge_ok:
  assumes "sane_op (OpSyscall sc)" "syscall_charge pricelist0 sc = Some c"
  shows "charge_ok c"
proof (cases sc)
  case (VerifyPoSt p n b)
  have "in_int64 (117680921 + int n * 43780)" "0 \<le> int n" "int n < 2 ^ 40" using assms(1) VerifyPoSt by (simp_all add: in_int64_def)
  then show ?thesis using assms(2) VerifyPoSt by (auto simp: syscall_charge_def OnVerifyPost_eq intro!: charge_ok_plain)
qed (use assms(2) in \<open>auto simp: syscall_charge_def OnVerifySignature_def pricelist0_def intro!: charge_ok_plain split: if_splits\<close>)


section \<open>Every operation of the runtime is sound\<close>

lemma sound_GetActor:
  assumes "vm_env_ok env ent"
  shows "sound env ent g d (on_tree (\<lambda>st. GetActor (tree env) st a)) (\<lambda>_. True)"
proof (rule sound_tree)
  fix st
  assume i: "vm_inv env ent st"
  obtain r st' where "GetActor (tree env) st a = Some (r, st')" "reads env ent st st'"
    using GetActor_reads [OF assms i, of a] by (elim exE conjE)
  then show "\<exists>x st'. GetActor (tree env) st a = Some (x, st') \<and> keeps env ent st st' \<and> True" by (simp add: reads_keeps)
qed

lemma sound_LookupID:
  assumes "vm_env_ok env ent"
  shows "sound env ent g d (on_tree (\<lambda>st. LookupID (tree env) st a)) (\<lambda>r. \<forall>b. r = Inr b \<longrightarrow> Is_ID (tree env) b)"
proof (rule sound_tree)
  fix st
  assume "vm_inv env ent st"
  then obtain r st' where "LookupID (tree env) st a = Some (r, st')" "reads env ent st st'" "\<forall>b. r = Inr b \<longrightarrow> Is_ID (tree env) b"
    using LookupID_reads [OF assms] by blast
  then show "\<exists>x st'. LookupID (tree env) st a = Some (x, st') \<and> keeps env ent st st' \<and> (\<forall>b. x = Inr b \<longrightarrow> Is_ID (tree env) b)"
    by (simp add: reads_keeps)
qed

lemma sound_pure: "sound env ent g d (on_tree (\<lambda>st. Some (f st, st))) (\<lambda>_. True)"
  by (rule sound_tree) (use keeps_refl in blast)

lemma sound_transfer:
  "vm_env_ok env ent \<Longrightarrow> sound env ent g d (on_tree (transfer env from to amt)) (\<lambda>e. \<forall>x. e = Some x \<longrightarrow> aerr_ok x)"
  by (rule sound_tree) (rule transfer_keeps)

lemma sound_pricelist: "sound env ent g d (rt_get pricelist) (\<lambda>pl. pl = pricelist0)"
  by (rule sound_get) (simp add: rt_ok_def)

lemma sound_Caller: "vm_env_ok env ent \<Longrightarrow> sound env ent g d (rt_Caller env) (Is_ID (tree env))"
  unfolding rt_Caller_def
  by (rule sound_bind [OF sound_get [where P = "Is_ID (tree env)"]])
    (auto simp: rt_ok_def vm_env_okD(5) intro: sound_return)

lemma sound_Receiver:
  "vm_env_ok env ent \<Longrightarrow> sound env ent g d (rt_Receiver env) (\<lambda>a. a = Undef (tree env) \<or> Is_ID (tree env) a)"
  unfolding rt_Receiver_def
  by (rule sound_bind [OF sound_get [where P = "\<lambda>a. a = Undef (tree env) \<or> Is_ID (tree env) a"]])
    (auto simp: rt_ok_def vm_env_okD(5) intro: sound_return)

lemma sound_ResolveAddress:
  "vm_env_ok env ent \<Longrightarrow> sound env ent g d (rt_ResolveAddress env a) (\<lambda>r. \<forall>b. r = Some b \<longrightarrow> Is_ID (tree env) b)"
  unfolding rt_ResolveAddress_def
  by (rule sound_bind [OF sound_LookupID]) (auto intro: sound_return sound_panic split: sum.splits)

lemma sound_GetActorCodeCID: "vm_env_ok env ent \<Longrightarrow> sound env ent g d (GetActorCodeCID env a) (\<lambda>_. True)"
  unfolding GetActorCodeCID_def
  by (rule sound_bind [OF sound_GetActor]) (auto intro: sound_return sound_panic split: sum.splits)

lemma sound_cst_Get: "sound env ent g d (cst_Get env c u) (\<lambda>_. True)"
  unfolding cst_Get_def
  by (rule sound_bind [OF sound_pricelist], rule sound_bind [OF sound_chargeGas], simp, rule sound_bind [OF sound_pure])
    (auto intro!: sound_return sound_bind [OF sound_chargeGas] split: sum.splits)

lemma sound_StoreGet: "sound env ent g d (StoreGet env c u) (\<lambda>_. True)"
  unfolding StoreGet_def
  by (rule sound_bind [OF sound_cst_Get]) (auto intro: sound_return sound_panic split: sum.splits)

lemma keeps_Store: "vm_inv env ent st \<Longrightarrow> keeps env ent st (st\<lparr>Store := s\<rparr>)"
  by (simp add: keeps_def vm_inv_def)

lemma sound_StorePut:
  assumes "g \<Longrightarrow> short x"
  shows "sound env ent g d (StorePut env x) (\<lambda>_. True)"
proof (cases x)
  case (Some b)
  have "sound env ent g d (on_tree (put_block env b)) (\<lambda>_. True)"
    by (rule sound_tree) (auto simp: put_block_def keeps_refl keeps_Store split: option.splits)
  moreover have "g \<Longrightarrow> charge_ok (OnIpldPut pricelist0 (int (length b)))"
    using assms Some by (intro charge_ok_sizes(1)) (simp_all add: short_def)
  ultimately show ?thesis
    unfolding StorePut_def Some option.case
    by (intro sound_bind [OF sound_pricelist] sound_bind [OF sound_chargeGas] sound_bind [where P = "\<lambda>_. True"])
      (auto intro!: sound_panic sound_return sound_bind [OF sound_chargeGas] split: option.splits)
qed (simp add: StorePut_def sound_panic)

lemma keeps_set_same:
  assumes "vm_env_ok env ent" "vm_inv env ent st" "Is_ID (tree env) a" "cur ent st a = Some x" "Balance y = Balance x"
  shows "\<exists>st'. SetActor (tree env) st a y = Some (Inr (), st') \<and> keeps env ent st st'"
proof -
  have "0 \<le> Balance y" using vm_inv_cur(1) [OF assms(2)] assms(4,5) by (simp add: bal_ok_def)
  then obtain st' where "SetActor (tree env) st a y = Some (Inr (), st')" "vm_inv env ent st'"
      "tviews ent st' = (cur ent st)(a \<mapsto> y) # tl (tviews ent st)" "lower_caches (snaps st') = lower_caches (snaps st)"
    using SetActor_writes [OF assms(1,2) LookupID_id [OF assms(3)]] by blast
  moreover have "total_of ((cur ent st)(a \<mapsto> y)) = total_of (cur ent st)"
    using total_upd [OF vm_inv_cur(2) [OF assms(2)], of a y] assms(4,5) by (simp add: bal_at_def)
  ultimately show ?thesis by (auto simp: keeps_def)
qed

lemma keeps_set_zero:
  assumes "vm_env_ok env ent" "vm_inv env ent st" "Balance y = 0"
  shows "\<exists>r st'. SetActor (tree env) st a y = Some (r, st') \<and> keeps env ent st st'"
proof -
  obtain q st1 where l: "LookupID (tree env) st a = Some (q, st1)" "reads env ent st st1" using LookupID_reads [OF assms(1,2)] by blast
  show ?thesis
  proof (cases q)
    case (Inl e)
    then show ?thesis using l reads_keeps by (auto simp: SetActor_def)
  next
    case (Inr b)
    obtain st' where "SetActor (tree env) st a y = Some (Inr (), st')" "vm_inv env ent st'"
        "tviews ent st' = (cur ent st)(b \<mapsto> y) # tl (tviews ent st)" "lower_caches (snaps st') = lower_caches (snaps st)"
      using SetActor_writes [OF assms(1,2) l(1) [unfolded Inr], of y] assms(3) by auto
    moreover have "total_of ((cur ent st)(b \<mapsto> y)) \<le> total_of (cur ent st)"
      using total_upd [OF vm_inv_cur(2) [OF assms(2)], of b y] assms(3) bal_at_nonneg [OF vm_inv_cur(1) [OF assms(2)], of b] by simp
    ultimately show ?thesis by (auto simp: keeps_def)
  qed
qed

lemma GetActor_Undef: "GetActor T st (Undef T) = Some (Inl (ErrMsg ''GetActor called on undefined address''), st)"
  by (simp add: GetActor_def GetActor_with_def)

lemma sound_stateCommit:
  assumes "vm_env_ok env ent"
  shows "sound env ent g d (stateCommit env oldh newh) (\<lambda>e. \<forall>x. e = Some x \<longrightarrow> aerr_ok x)"
  unfolding stateCommit_def
proof (rule sound_bind [OF sound_Receiver [OF assms]], rule soundI)
  fix recv rt st
  assume p: "recv = Undef (tree env) \<or> Is_ID (tree env) recv" "rt_ok env rt" "vm_inv env ent st"
  let ?ok = "\<lambda>x. \<exists>r rt' st'. x = Some (r, rt', st') \<and> keeps env ent st st' \<and> rt_step env g rt rt' \<and>
    outcome (\<lambda>e. \<forall>x. e = Some x \<longrightarrow> aerr_ok x) r"
  note d = rt_bind_def on_tree_def rt_return_def rt_step_refl [OF p(2)]
  show "?ok (rt_bind (on_tree (\<lambda>st. GetActor (tree env) st recv)) (\<lambda>r. case r of
      Inl _ \<Rightarrow> rt_return (Some (Escalate ''failed to get actor to commit state''))
    | Inr act \<Rightarrow>
        if Head act \<noteq> oldh then rt_return (Some (Fatalf ''failed to update, inconsistent base reference''))
        else rt_bind (on_tree (\<lambda>st. SetActor (tree env) st recv (act\<lparr>Head := newh\<rparr>))) (\<lambda>r.
          case r of Inl _ \<Rightarrow> rt_return (Some (Fatalf ''failed to set actor in commit state'')) | Inr _ \<Rightarrow> rt_return None)) rt st)"
  proof (cases "Is_ID (tree env) recv")
    case False
    then show ?thesis using p(1,3) by (simp add: d GetActor_Undef keeps_refl)
  next
    case True
    obtain st1 where 1: "GetActor (tree env) st recv = Some (actor_of (cur ent st) recv, st1)" "reads env ent st st1"
      using GetActor_id [OF assms p(3) True] by blast
    show ?thesis
    proof (cases "cur ent st recv")
      case None
      then show ?thesis using 1 reads_keeps by (auto simp: d actor_of_def)
    next
      case (Some act)
      have "cur ent st1 recv = Some act" using Some 1(2) by (simp add: reads_def)
      then obtain st2 where "SetActor (tree env) st1 recv (act\<lparr>Head := newh\<rparr>) = Some (Inr (), st2)" "keeps env ent st1 st2"
        using keeps_set_same [OF assms keeps_inv(2) [OF 1(2)] True, of act "act\<lparr>Head := newh\<rparr>"] by auto
      then show ?thesis using 1 Some reads_keeps [OF 1(2)] keeps_trans [OF reads_keeps [OF 1(2)]] by (simp add: d actor_of_def)
    qed
  qed
qed

lemma sound_StateCreate:
  assumes "vm_env_ok env ent" "g \<Longrightarrow> short x"
  shows "sound env ent g d (StateCreate env x) (\<lambda>_. True)"
  unfolding StateCreate_def
  by (intro sound_bind [OF sound_StorePut] sound_bind [OF sound_stateCommit])
    (use assms in \<open>auto intro: sound_return sound_panic split: option.splits\<close>)

lemma sound_StateReadonly: "vm_env_ok env ent \<Longrightarrow> sound env ent g d (StateReadonly env u) (\<lambda>_. True)"
  unfolding StateReadonly_def
  by (intro sound_bind [OF sound_Receiver] sound_bind [OF sound_GetActor])
    (auto intro: sound_StoreGet sound_Abortf split: sum.splits)

lemma sound_StateTransaction:
  assumes "vm_env_ok env ent" "\<And>x. sound env ent g d (f x) (\<lambda>(r, c). g \<longrightarrow> short (marshalled r))"
  shows "sound env ent g d (StateTransaction env u f) (\<lambda>_. True)"
proof -
  have allow: "sound env ent g d (rt_modify (\<lambda>rt. rt\<lparr>allowInternal := b\<rparr>)) (\<lambda>_. True)" for b
    by (rule sound_modify) (simp add: rt_step_def rt_ok_def gas_ok_def)
  have store: "sound env ent g d (rt_bind (StorePut env (marshalled o')) (\<lambda>c. rt_bind (stateCommit env h c)
      (\<lambda>e. case e of Some _ \<Rightarrow> rt_panic PanicOther | None \<Rightarrow> rt_return k))) (\<lambda>_. True)" if "g \<longrightarrow> short (marshalled o')" for o' h k
    by (intro sound_bind [OF sound_StorePut] sound_bind [OF sound_stateCommit])
      (use that assms(1) in \<open>auto intro: sound_return sound_panic split: option.splits\<close>)
  have body: "sound env ent g d (rt_bind (f obj) (\<lambda>(obj, captured). rt_bind (rt_modify (\<lambda>rt. rt\<lparr>allowInternal := True\<rparr>)) (\<lambda>_.
        rt_bind (StorePut env (marshalled obj)) (\<lambda>c. rt_bind (stateCommit env h c)
        (\<lambda>e. case e of Some _ \<Rightarrow> rt_panic PanicOther | None \<Rightarrow> rt_return captured))))) (\<lambda>_. True)" for obj h
    by (rule sound_bind [OF assms(2)], clarify, rule sound_bind [OF allow], rule store)
  have "sound env ent g d (case r of
      Inl _ \<Rightarrow> Abortf (xcode env SysErrorIllegalActor) ''failed to get actor for Transaction''
    | Inr act \<Rightarrow>
        rt_bind (StoreGet env (Head act) u) (\<lambda>obj.
        rt_bind (rt_modify (\<lambda>rt. rt\<lparr>allowInternal := False\<rparr>)) (\<lambda>_.
        rt_bind (f obj) (\<lambda>(obj, captured).
        rt_bind (rt_modify (\<lambda>rt. rt\<lparr>allowInternal := True\<rparr>)) (\<lambda>_.
        rt_bind (StorePut env (marshalled obj)) (\<lambda>c.
        rt_bind (stateCommit env (Head act) c) (\<lambda>e.
        case e of Some _ \<Rightarrow> rt_panic PanicOther | None \<Rightarrow> rt_return captured))))))) (\<lambda>_. True)" for r
  proof (cases r)
    case (Inr act)
    show ?thesis
      unfolding Inr sum.case by (rule sound_bind [OF sound_StoreGet], rule sound_bind [OF allow], rule body)
  qed (simp add: sound_Abortf)
  then show ?thesis
    unfolding StateTransaction_def
    by (intro sound_bind [OF sound_Receiver [OF assms(1)]] sound_bind [OF sound_GetActor [OF assms(1)]])
qed


lemma sound_CurrentBalance: "vm_env_ok env ent \<Longrightarrow> sound env ent g d (CurrentBalance env) (\<lambda>_. True)"
  unfolding CurrentBalance_def GetBalance_def
  by (intro sound_bind [OF sound_Receiver] sound_bind [where P = "\<lambda>_. True"] sound_bind [OF sound_GetActor])
    (auto intro: sound_return sound_Abortf split: sum.splits)

lemma sound_CreateActor:
  assumes "vm_env_ok env ent"
  shows "sound env ent g d (CreateActor env c a) (\<lambda>_. True)"
proof (cases "areg_Create env c")
  case (Inr act)
  then have "Balance act = 0" by (auto simp: areg_Create_def split: option.splits if_splits)
  then have set: "sound env ent g d (on_tree (\<lambda>st. SetActor (tree env) st a act)) (\<lambda>_. True)"
    by (intro sound_tree) (use keeps_set_zero [OF assms] in blast)
  have safe: "sound env ent g d (chargeGasSafe env gasOnActorExec) (\<lambda>_. True)"
    by (rule sound_weaken [OF sound_chargeGasSafe]) simp_all
  show ?thesis
    unfolding CreateActor_def Inr sum.case
    by (cases "a = Undef (tree env)")
      (auto intro!: sound_Abortf sound_panic sound_return sound_bind [OF sound_GetActor [OF assms]] sound_bind [OF sound_pricelist]
        sound_bind [OF sound_chargeGas] sound_bind [OF set] sound_bind [OF safe] split: sum.splits)
qed (simp add: CreateActor_def sound_Abortf)

lemma sound_pay_out: "vm_env_ok env ent \<Longrightarrow> sound env ent g d (pay_out env act recv b) (\<lambda>_. True)"
  unfolding pay_out_def
  by (auto intro!: sound_return sound_Abortf sound_panic sound_bind [OF sound_ResolveAddress] sound_bind [OF sound_transfer]
      split: option.splits)

lemma sound_delete:
  assumes "vm_env_ok env ent" "recv = Undef (tree env) \<or> Is_ID (tree env) recv"
  shows "sound env ent g d (on_tree (\<lambda>st. DeleteActor (tree env) st recv)) (\<lambda>_. True)"
proof (rule sound_tree)
  fix st
  assume i: "vm_inv env ent st"
  show "\<exists>x st'. DeleteActor (tree env) st recv = Some (x, st') \<and> keeps env ent st st' \<and> True"
  proof (cases "Is_ID (tree env) recv")
    case False
    then show ?thesis using assms(2) i by (simp add: DeleteActor_def keeps_refl)
  next
    case True
    show ?thesis
    proof (cases "cur ent st recv")
      case None
      have "recv \<noteq> Undef (tree env)" using True vm_env_okD(4) [OF assms(1)] by auto
      moreover obtain st' where "GetActor (tree env) st recv = Some (Inl ErrActorNotFound, st')" "reads env ent st st'"
        using GetActor_id [OF assms(1) i True] None by (auto simp: actor_of_def)
      ultimately show ?thesis using reads_keeps LookupID_id [OF True, of st] by (auto simp: DeleteActor_def)
    next
      case (Some x)
      obtain st' where "DeleteActor (tree env) st recv = Some (Inr (), st')" "vm_inv env ent st'"
          "tviews ent st' = (cur ent st)(recv := None) # tl (tviews ent st)" "lower_caches (snaps st') = lower_caches (snaps st)"
        using DeleteActor_writes [OF assms(1) i True Some] by blast
      moreover have "total_of ((cur ent st)(recv := None)) \<le> total_of (cur ent st)"
        using total_del [OF vm_inv_cur(2) [OF i], of recv] bal_at_nonneg [OF vm_inv_cur(1) [OF i], of recv] by linarith
      ultimately show ?thesis by (auto simp: keeps_def)
    qed
  qed
qed

lemma sound_DeleteActor:
  assumes "vm_env_ok env ent" "\<not> g"
  shows "sound env ent g d (rt_DeleteActor env b) (\<lambda>_. True)"
proof -
  have safe: "sound env ent g d (chargeGasSafe env gasOnActorExec) (\<lambda>_. True)"
    by (rule sound_weaken [OF sound_chargeGasSafe]) simp_all
  have "sound env ent g d (rt_bind (on_tree (\<lambda>st. GetActor (tree env) st recv)) (\<lambda>r. case r of
      Inl err \<Rightarrow>
        if Is_ErrActorNotFound err then Abortf (xcode env SysErrorIllegalActor) ''failed to load actor in delete actor''
        else rt_panic (PanicErr (Fatalf ''failed to get actor''))
    | Inr act \<Rightarrow>
        rt_bind (pay_out env act recv b) (\<lambda>_.
        rt_bind (on_tree (\<lambda>st. DeleteActor (tree env) st recv)) (\<lambda>r.
        case r of
          Inl _ \<Rightarrow> rt_panic (PanicErr (Fatalf ''failed to delete actor''))
        | Inr _ \<Rightarrow> rt_bind (chargeGasSafe env gasOnActorExec) (\<lambda>_. rt_return ()))))) (\<lambda>_. True)"
    if "recv = Undef (tree env) \<or> Is_ID (tree env) recv" for recv
    by (auto intro!: sound_Abortf sound_panic sound_return sound_bind [OF sound_GetActor [OF assms(1)]]
        sound_bind [OF sound_pay_out [OF assms(1)]] sound_bind [OF sound_delete [OF assms(1) that]] sound_bind [OF safe] split: sum.splits)
  then show ?thesis
    unfolding rt_DeleteActor_def
    by (intro sound_bind [OF sound_pricelist] sound_bind [OF sound_chargeGas] sound_bind [OF sound_Receiver [OF assms(1)]])
      (use assms(2) in simp_all)
qed

lemma sound_ResolveToKeyAddr:
  assumes "vm_env_ok env ent"
  shows "sound env ent g d (on_tree (\<lambda>st. ResolveToKeyAddr env st a)) (\<lambda>_. True)"
proof (rule sound_tree)
  fix st
  assume i: "vm_inv env ent st"
  obtain r st' where g: "GetActor (tree env) st a = Some (r, st')" "reads env ent st st'"
    using GetActor_reads [OF assms i, of a] by (elim exE conjE)
  then show "\<exists>x st'. ResolveToKeyAddr env st a = Some (x, st') \<and> keeps env ent st st' \<and> True"
    using keeps_refl [OF i] reads_keeps [OF g(2)] by (cases r) (auto simp: ResolveToKeyAddr_def tree_try_def)
qed

lemma sound_NewActorAddress: "vm_env_ok env ent \<Longrightarrow> sound env ent g d (rt_NewActorAddress env) (\<lambda>_. True)"
  unfolding rt_NewActorAddress_def
  by (rule sound_bind [OF sound_get [where P = "\<lambda>_. True"]], simp, rule sound_bind [OF sound_ResolveToKeyAddr])
    (auto intro!: sound_panic sound_return sound_bind [OF sound_modify] simp: rt_step_def rt_ok_def gas_ok_def
      split: sum.splits option.splits)

lemma sound_abortIfAlreadyValidated: "sound env ent g d (abortIfAlreadyValidated env) (\<lambda>_. True)"
  unfolding abortIfAlreadyValidated_def
  by (rule sound_bind [OF sound_get [where P = "\<lambda>_. True"]])
    (auto intro!: sound_Abortf sound_modify simp: rt_step_def rt_ok_def gas_ok_def)

lemma sound_CallerIs: "vm_env_ok env ent \<Longrightarrow> sound env ent g d (ValidateImmediateCallerIs env as) (\<lambda>_. True)"
  unfolding ValidateImmediateCallerIs_def
  by (auto intro!: sound_bind [OF sound_abortIfAlreadyValidated] sound_bind [OF sound_Caller] sound_return sound_Abortf)

lemma sound_CallerType: "vm_env_ok env ent \<Longrightarrow> sound env ent g d (ValidateImmediateCallerType env ts) (\<lambda>_. True)"
  unfolding ValidateImmediateCallerType_def
  by (auto intro!: sound_bind [OF sound_abortIfAlreadyValidated] sound_bind [OF sound_Caller] sound_bind [OF sound_GetActorCodeCID]
      sound_return sound_Abortf sound_panic split: option.splits)

lemma sound_TotalFilCircSupply: "sound env ent g d (TotalFilCircSupply env) (\<lambda>_. True)"
  unfolding TotalFilCircSupply_def
  by (auto intro!: sound_bind [OF sound_pure] sound_return sound_Abortf split: option.splits)

lemma sound_GetRandomness: "sound env ent g d (GetRandomness env b p e x) (\<lambda>_. True)"
  unfolding GetRandomness_def by (auto intro!: sound_return sound_panic split: option.splits)

lemma sound_run_syscall: "vm_env_ok env ent \<Longrightarrow> sound env ent g d (run_syscall env sc) (\<lambda>_. True)"
proof -
  assume e: "vm_env_ok env ent"
  have a: "sound env ent g d (read_actors env as) (\<lambda>_. True)" for as
    by (induction as) (auto intro!: sound_return sound_bind [OF sound_GetActor [OF e]])
  have b: "sound env ent g d (read_blocks env n) (\<lambda>_. True)" for n
    by (induction n) (auto intro!: sound_return sound_bind [OF sound_pricelist] sound_bind [OF sound_chargeGas])
  show ?thesis
    unfolding run_syscall_def
    by (auto intro!: sound_bind [OF sound_pure] sound_bind [OF a] sound_bind [OF b] sound_return sound_panic split: option.splits)
qed

lemma sound_syscall:
  assumes "vm_env_ok env ent" "g \<Longrightarrow> sane_op (OpSyscall sc)"
  shows "sound env ent g d (priced_syscall env sc) (\<lambda>_. True)"
proof -
  have "sound env ent g d (case syscall_charge pricelist0 sc of None \<Rightarrow> rt_return None
      | Some c \<Rightarrow> rt_bind (chargeGas env c) (\<lambda>_. deferred (chargeGas env gasOnActorExec) (run_syscall env sc)))
      (\<lambda>_. True)"
  proof (cases "syscall_charge pricelist0 sc")
    case (Some c)
    then have "g \<Longrightarrow> charge_ok c" using syscall_charge_ok assms(2) by blast
    then show ?thesis
      unfolding Some option.case
      by (intro sound_bind [OF sound_chargeGas] sound_deferred sound_run_syscall assms(1) sound_chargeGas) simp_all
  qed (simp add: sound_return)
  then show ?thesis unfolding priced_syscall_def by (intro sound_bind [OF sound_pricelist]) simp
qed

section \<open>Sending\<close>

fun res_ok :: "bool \<Rightarrow> bytes \<times> actorError option \<Rightarrow> bool" where
  "res_ok g (ret, err) = ((\<forall>e. err = Some e \<longrightarrow> aerr_ok e \<and> ret = []) \<and> (g \<longrightarrow> length ret < 2 ^ 50))"

text \<open>What sending from a runtime of depth \<open>d\<close> has to give.\<close>

definition sends :: "('h, 's, 'i) vm_env \<Rightarrow> ('h \<Rightarrow> view) \<Rightarrow> bool \<Rightarrow> nat \<Rightarrow> ('h, 's) send_fun \<Rightarrow> bool" where
  "sends env ent g d nsend \<longleftrightarrow>
    (\<forall>msg p st. rt_ok env p \<and> depth p = d \<and> vm_inv env ent st \<and> GasLimit msg = gasAvailable p \<longrightarrow>
      (\<exists>r sub st'. nsend msg (Some p) None st = Some (r, sub, st') \<and> keeps env ent st st' \<and> outcome (res_ok g) r \<and>
        (\<forall>s. sub = Some s \<and> g \<and> gas_ok p \<longrightarrow> gas_ok s \<and> gasAvailable s = gasAvailable p)))"

lemma sound_internalSend:
  assumes "sends env ent g d nsend"
  shows "sound env ent g d (internalSend nsend from to m v ps) (res_ok g)"
proof (rule soundI)
  fix rt st
  assume p: "rt_ok env rt" "depth rt = d" "vm_inv env ent st"
  define msg where "msg = \<lparr>To = to, From = from, msg_Nonce = 0, Value = v, GasLimit = gasAvailable rt, GasFeeCap = None,
               GasPremium = None, Method = m, Params = ps\<rparr>"
  have "GasLimit msg = gasAvailable rt" by (simp add: msg_def)
  then obtain r sub st1 where n: "nsend msg (Some rt) None (Snapshot st) = Some (r, sub, st1)" "keeps env ent (Snapshot st) st1"
      "outcome (res_ok g) r" "\<forall>s. sub = Some s \<and> g \<and> gas_ok rt \<longrightarrow> gas_ok s \<and> gasAvailable s = gasAvailable rt"
    using assms p Snapshot_inv(1) [OF p(3)] unfolding sends_def by blast
  obtain st2 where c: "ClearSnapshot st1 = Some st2" "keeps env ent st st2" using clear_keeps [OF p(3) n(2)] by blast
  obtain st3 where rv: "Revert st1 = Some st3" "keeps env ent (Snapshot st) st3" using revert_keeps [OF p(3) n(2)] by blast
  obtain st4 where cr: "ClearSnapshot st3 = Some st4" "keeps env ent st st4" using clear_keeps [OF p(3) rv(2)] by blast
  have step: "rt_step env g rt (rt\<lparr>gasUsed := gasUsed s\<rparr>)" "rt_step env g rt (rt\<lparr>gasUsed := gasUsed s, numActorsCreated := k\<rparr>)"
    if "sub = Some s" for s k
    using that n(4) p(1) by (auto simp: rt_step_def rt_ok_def gas_ok_def)
  note d = internalSend_def Let_def msg_def [symmetric] n(1) rt_step_refl [OF p(1)]
  show "\<exists>r rt' st'. internalSend nsend from to m v ps rt st = Some (r, rt', st') \<and> keeps env ent st st' \<and> rt_step env g rt rt' \<and>
    outcome (res_ok g) r"
  proof (cases r)
    case (Inl q)
    then show ?thesis using c n(3) step by (cases q; cases sub) (simp_all add: d)
  next
    case (Inr x)
    obtain ret err where "x = (ret, err)" by fastforce
    then show ?thesis using Inr c rv(1) cr n(3) step by (cases err; cases sub) (simp_all add: d)
  qed
qed

lemma sound_Send:
  assumes "vm_env_ok env ent" "sends env ent g d nsend"
  shows "sound env ent g d (Send env nsend to m ps v u) (\<lambda>_. True)"
proof -
  have safe: "sound env ent g d (chargeGasSafe env gasOnActorExec) (\<lambda>_. True)"
    by (rule sound_weaken [OF sound_chargeGasSafe]) simp_all
  have "sound env ent g d (rt_bind (internalSend nsend recv to m v b) (\<lambda>(ret, err). case err of
            Some e \<Rightarrow> if fatal e then rt_panic (PanicErr e) else rt_return (retCode e, [])
          | None \<Rightarrow>
              rt_bind (chargeGasSafe env gasOnActorExec) (\<lambda>_.
              if u ret then rt_return (0, ret) else Abortf (xcode env ErrSerialization) ''failed to unmarshal return value''))) (\<lambda>_. True)"
    for recv b
    by (rule sound_bind [OF sound_internalSend [OF assms(2)]])
      (auto intro!: sound_panic sound_return sound_bind [OF safe] sound_Abortf split: option.splits)
  then show ?thesis
    unfolding Send_def
    by (intro sound_bind [OF sound_get [where P = "\<lambda>_. True"]])
      (auto intro!: sound_Abortf sound_bind [OF sound_Receiver [OF assms(1)]] split: option.splits)
qed


lemma sound_run_op:
  assumes "vm_env_ok env ent" "sends env ent g d nsend" "g \<Longrightarrow> sane_op op"
  shows "sound env ent g d (run_op env nsend op) (\<lambda>_. True)"
proof -
  have ret: "sound env ent g d (rt_bind m f) (\<lambda>_. True)" if "sound env ent g d m P" "\<And>x. \<exists>y. f x = rt_return y" for m P f
    by (rule sound_bind [OF that(1)]) (metis sound_return that(2))
  have get: "sound env ent g d (rt_get f) (\<lambda>_. True)" for f by (rule sound_get) simp
  show ?thesis
  proof (cases op)
    case (OpDeleteActor b)
    then have "\<not> g" using assms(3) by auto
    then show ?thesis unfolding run_op_def OpDeleteActor rt_op.case by (rule ret [OF sound_DeleteActor [OF assms(1)]]) blast
  next
    case (OpChargeGas c)
    then have "g \<Longrightarrow> charge_ok (newGasCharge ''actor'' c 0)" using assms(3) by (intro charge_ok_plain) auto
    then show ?thesis using OpChargeGas unfolding run_op_def by (auto intro!: ret [OF sound_chargeGas])
  next
    case (OpStorePut x)
    then show ?thesis using assms(3) unfolding run_op_def by (auto intro!: ret [OF sound_StorePut])
  next
    case (OpStateCreate x)
    then show ?thesis using assms(1,3) unfolding run_op_def by (auto intro!: ret [OF sound_StateCreate])
  next
    case (OpSyscall x)
    then show ?thesis using assms(1,3) unfolding run_op_def by (auto intro!: ret [OF sound_syscall])
  next
    case (OpSend to m ps v u)
    then show ?thesis unfolding run_op_def by (auto intro!: ret [OF sound_Send [OF assms(1,2)]])
  qed (auto simp: run_op_def intro!: ret [OF sound_ResolveAddress] ret [OF sound_GetActorCodeCID] ret [OF sound_StoreGet]
      ret [OF sound_StateReadonly] ret [OF sound_CreateActor] ret [OF sound_NewActorAddress] ret [OF sound_CurrentBalance]
      ret [OF sound_CallerIs] ret [OF sound_abortIfAlreadyValidated] ret [OF sound_CallerType] ret [OF sound_TotalFilCircSupply]
      ret [OF sound_GetRandomness] ret [OF sound_Caller] ret [OF sound_Receiver] ret [OF get] assms(1))
qed

lemma sound_run_prog:
  assumes "vm_env_ok env ent" "sends env ent g d nsend" "g \<Longrightarrow> sane p"
  shows "sound env ent g d (run_prog env nsend p) (\<lambda>(r, c). g \<longrightarrow> short (marshalled r))"
  using assms(3)
proof (induction p)
  case (Do op k)
  have "g \<Longrightarrow> sane_op op" using Do.prems by simp
  moreover have "sound env ent g d (run_prog env nsend (k a)) (\<lambda>(r, c). g \<longrightarrow> short (marshalled r))" for a
    using Do.IH [of "k a"] Do.prems by simp
  ultimately show ?case unfolding run_prog.simps by (intro sound_bind [OF sound_run_op [OF assms(1,2)]])
next
  case (StateTx u f k)
  have "sound env ent g d (run_prog env nsend (f x)) (\<lambda>(r, c). g \<longrightarrow> short (marshalled r))"
    "sound env ent g d (run_prog env nsend (k c)) (\<lambda>(r, c). g \<longrightarrow> short (marshalled r))" for x c
    using StateTx.IH StateTx.prems by simp_all
  then show ?case unfolding run_prog.simps by (intro sound_bind [OF sound_StateTransaction [OF assms(1)]])
qed (simp_all add: sound_return sound_Abortf sound_panic)

text \<open>\<open>calm\<close>: does not panic when internal calls are allowed; \<open>frames\<close>: leaves them as they are.\<close>

definition calm :: "('h, 's, 'i) vm_env \<Rightarrow> ('h \<Rightarrow> view) \<Rightarrow> nat \<Rightarrow> ('h, 's, 'a) rtm \<Rightarrow> bool" where
  "calm env ent d m \<longleftrightarrow> (\<forall>rt st r rt' st'. rt_ok env rt \<and> depth rt = d \<and> allowInternal rt \<and> vm_inv env ent st \<and>
     m rt st = Some (r, rt', st') \<longrightarrow> \<not> isl r)"

definition frames :: "('h, 's, 'a) rtm \<Rightarrow> bool" where
  "frames m \<longleftrightarrow> (\<forall>rt st r rt' st'. m rt st = Some (r, rt', st') \<longrightarrow> allowInternal rt' = allowInternal rt)"

lemma calm_basic:
  "calm env ent d (rt_return x)" "calm env ent d (rt_get f)" "calm env ent d (rt_modify h)" "calm env ent d (on_tree k)"
  "calm env ent d (chargeGasSafe env gas)"
  by (auto simp: calm_def rt_return_def rt_get_def rt_modify_def on_tree_def chargeGasSafe_def Let_def split: option.splits)

lemma frames_basic:
  "frames (rt_return x)" "frames (rt_panic p)" "frames (rt_get f)" "frames (on_tree k)" "frames (chargeGasSafe env gas)"
  by (auto simp: frames_def rt_return_def rt_panic_def rt_get_def on_tree_def chargeGasSafe_def Let_def split: option.splits)

lemma frames_bind: "frames m \<Longrightarrow> (\<And>x. frames (f x)) \<Longrightarrow> frames (rt_bind m f)"
  unfolding frames_def rt_bind_def by (fastforce split: option.splits sum.splits)

lemma calm_bind:
  assumes "calm env ent d m" "frames m" "sound env ent g d m P" "\<And>x. P x \<Longrightarrow> calm env ent d (f x)"
  shows "calm env ent d (rt_bind m f)"
  unfolding calm_def
proof (intro allI impI, elim conjE)
  fix rt st r rt' st'
  assume p: "rt_ok env rt" "depth rt = d" "allowInternal rt" "vm_inv env ent st" "rt_bind m f rt st = Some (r, rt', st')"
  obtain q rt1 st1 where m: "m rt st = Some (q, rt1, st1)" "keeps env ent st st1" "rt_step env g rt rt1" "outcome P q"
    using soundE [OF assms(3) p(1,2,4)] .
  then obtain x where x: "q = Inr x" using assms(1) p(1-4) unfolding calm_def by (metis sum.collapse(2))
  have "f x rt1 st1 = Some (r, rt', st')" "P x" using p(5) m x by (simp_all add: rt_bind_def)
  moreover have "allowInternal rt1" using assms(2) m(1) p(3) unfolding frames_def by blast
  ultimately show "\<not> isl r"
    using assms(4) m(3) p(2) keeps_inv(1) [OF m(2)] unfolding calm_def rt_step_def by metis
qed

lemma calm_bind_return:
  assumes "calm env ent d m"
  shows "calm env ent d (rt_bind m (\<lambda>x. rt_return (f x)))"
  using assms unfolding calm_def rt_bind_def rt_return_def by (fastforce split: option.splits sum.splits)


lemma shimCall_ok:
  assumes "sound env ent g d f (\<lambda>(r, c). g \<longrightarrow> short (marshalled r))"
  shows "sound env ent g d (shimCall env f) (res_ok g)" "calm env ent d (shimCall env f)"
proof -
  define m where "m = rt_bind f (\<lambda>(ret, _).
        rt_bind (rt_get callerValidated) (\<lambda>v.
        if \<not> v then Abortf (xcode env SysErrorIllegalActor) ''Caller MUST be validated during method execution''
        else rt_return (case ret of
            RetBytes b \<Rightarrow> (b, None)
          | RetEmpty \<Rightarrow> ([], None)
          | RetMarshal (Some b) \<Rightarrow> (b, None)
          | RetMarshal None \<Rightarrow> ([], Some (Absorb None 2 ''failed to marshal response to cbor''))
          | RetNil \<Rightarrow> ([], None)
          | RetOther \<Rightarrow> ([], Some (Newf 3 ''could not determine type for response from call'')))))"
  have m: "sound env ent g d m (res_ok g)"
    unfolding m_def
    by (rule sound_bind [OF assms], clarify, rule sound_bind [OF sound_get [where P = "\<lambda>_. True"]])
      (auto intro!: sound_Abortf sound_return simp: short_def marshalled_def split: retval.splits option.splits)
  have eq: "shimCall env f = (\<lambda>rt st. case m rt st of
      None \<Rightarrow> None
    | Some (Inl (PanicErr ar), rt, st) \<Rightarrow> Some (Inr ([], Some ar), rt, st)
    | Some (Inl PanicOther, rt, st) \<Rightarrow> Some (Inr ([], Some (Newf (xcode env SysErrReserved1) ''spec actors failure'')), rt, st)
    | Some (Inr x, rt, st) \<Rightarrow> Some (Inr x, rt, st))"
    unfolding shimCall_def m_def by (rule refl)
  show "sound env ent g d (shimCall env f) (res_ok g)"
  proof (rule soundI)
    fix rt st
    assume p: "rt_ok env rt" "depth rt = d" "vm_inv env ent st"
    obtain r rt1 st1 where s: "m rt st = Some (r, rt1, st1)" "keeps env ent st st1" "rt_step env g rt rt1" "outcome (res_ok g) r"
      using soundE [OF m p] .
    consider e where "r = Inl (PanicErr e)" | "r = Inl PanicOther" | x where "r = Inr x" by (metis panic.exhaust sum.exhaust)
    then show "\<exists>r rt' st'. shimCall env f rt st = Some (r, rt', st') \<and> keeps env ent st st' \<and> rt_step env g rt rt' \<and> outcome (res_ok g) r"
      using s by cases (simp_all add: eq)
  qed
  show "calm env ent d (shimCall env f)"
    by (auto simp: calm_def eq split: option.splits prod.splits sum.splits panic.splits)
qed

lemma calm_Receiver:
  assumes "vm_env_ok env ent"
  shows "calm env ent d (rt_Receiver env)" "calm env ent d (rt_Caller env)" "frames (rt_Receiver env)" "frames (rt_Caller env)"
  using vm_env_okD(5) [OF assms]
  by (auto simp: calm_def frames_def rt_Receiver_def rt_Caller_def rt_bind_def rt_get_def rt_return_def rt_panic_def rt_ok_def split: if_splits)

lemma areg_Invoke_ok:
  assumes "vm_env_ok env ent" "sends env ent g d nsend" "g \<Longrightarrow> sane_code env"
  shows "sound env ent g d (areg_Invoke env nsend c m ps) (res_ok g)" "calm env ent d (areg_Invoke env nsend c m ps)"
proof -
  have run: "sound env ent g d (shimCall env (run_prog env nsend p)) (res_ok g)" "calm env ent d (shimCall env (run_prog env nsend p))"
    if "areg env c = Some act" "i < length (methods act)" "methods act ! i = Some meth" "meth ps = Some p" for act i meth p
    using shimCall_ok [OF sound_run_prog [OF assms(1,2)]] that assms(3) unfolding sane_code_def by blast+
  show "sound env ent g d (areg_Invoke env nsend c m ps) (res_ok g)"
    unfolding areg_Invoke_def
    by (auto intro!: sound_return sound_bind [OF sound_Receiver [OF assms(1)]] run(1) [where i = "unat m"] split: option.splits)
  show "calm env ent d (areg_Invoke env nsend c m ps)"
    unfolding areg_Invoke_def
    by (auto intro!: calm_basic calm_bind_return calm_Receiver [OF assms(1)] run(2) [where i = "unat m"] split: option.splits)
qed

lemma Invoke_ok:
  assumes "vm_env_ok env ent" "sends env ent g d nsend" "g \<Longrightarrow> sane_code env"
  shows "sound env ent g d (Invoke env nsend a m ps) (res_ok g)" "calm env ent d (Invoke env nsend a m ps)"
proof -
  show "sound env ent g d (Invoke env nsend a m ps) (res_ok g)"
    unfolding Invoke_def
    by (rule sound_bind [OF areg_Invoke_ok(1) [OF assms]]) (auto intro!: sound_return)
  have eq: "(\<lambda>(ret, err). rt_return (if err \<noteq> None then ([], err) else (ret, None))) =
      (\<lambda>x. rt_return (if snd x \<noteq> None then ([], snd x) else (fst x, None)))" by (auto simp: fun_eq_iff)
  show "calm env ent d (Invoke env nsend a m ps)"
    unfolding Invoke_def eq by (rule calm_bind_return [OF areg_Invoke_ok(2) [OF assms]])
qed


lemma RegisterNewAddress_keeps:
  assumes "vm_env_ok env ent" "vm_inv env ent st"
  shows "\<exists>r st'. RegisterNewAddress (tree env) st a = Some (r, st') \<and> keeps env ent st st' \<and> (\<forall>b. r = Inr b \<longrightarrow> Is_ID (tree env) b)"
proof -
  let ?T = "tree env" and ?I = "InitAddress (tree env)"
  have I: "Is_ID ?T ?I" using vm_env_okD(2) [OF assms(1)] by (simp add: init_ok_def)
  obtain st1 where g: "GetActor ?T st ?I = Some (actor_of (cur ent st) ?I, st1)" "reads env ent st st1"
    using GetActor_id [OF assms I] by blast
  note k = reads_keeps [OF g(2)]
  note d = RegisterNewAddress_def MutateActor_def g(1) actor_of_def
  show ?thesis
  proof (cases "cur ent st ?I")
    case None
    then show ?thesis using k by (simp add: d)
  next
    case (Some act)
    show ?thesis
    proof (cases "init_Load ?T (Store st1) act")
      case (Inl e)
      then show ?thesis using Some k by (simp add: d)
    next
      case (Inr ias)
      note l = Inr
      show ?thesis
      proof (cases "MapAddressToNewID ?T ias a")
        case (Inl e)
        then show ?thesis using Some k l by (simp add: d)
      next
        case (Inr x)
        obtain ias' b where x: "x = (ias', b)" by fastforce
        then have b: "Is_ID ?T b" using Inr vm_env_okD(3) [OF assms(1)] by (auto simp: resolves_to_ids_def)
        show ?thesis
        proof (cases "PutInit ?T (Store st1) ias'")
          case (Inl e)
          then show ?thesis using Some k l \<open>MapAddressToNewID ?T ias a = Inr x\<close> x by (simp add: d)
        next
          case (Inr y)
          obtain s c where y: "y = (s, c)" by fastforce
          have k2: "keeps env ent st1 (st1\<lparr>Store := s\<rparr>)" using keeps_Store [OF keeps_inv(2) [OF g(2)]] .
          have "cur ent (st1\<lparr>Store := s\<rparr>) ?I = Some act" using Some g(2) by (simp add: reads_def)
          then obtain st2 where "SetActor ?T (st1\<lparr>Store := s\<rparr>) ?I (act\<lparr>Head := c\<rparr>) = Some (Inr (), st2)" "keeps env ent (st1\<lparr>Store := s\<rparr>) st2"
            using keeps_set_same [OF assms(1) keeps_inv(1) [OF k2] I, of act "act\<lparr>Head := c\<rparr>"] by auto
          then show ?thesis
            using Some l \<open>MapAddressToNewID ?T ias a = Inr x\<close> x Inr y b keeps_trans [OF keeps_trans [OF k k2]] by (simp add: d)
        qed
      qed
    qed
  qed
qed

lemma makeActor_ok:
  "calm env ent d (makeActor env 3 a)" "frames (makeActor env 3 a)"
  "sound env ent g d (makeActor env 3 a) (\<lambda>r. (\<forall>x. r = Inr x \<longrightarrow> Balance x = 0 \<and> Protocol env a \<noteq> ProtoID) \<and> (\<forall>e. r = Inl e \<longrightarrow> aerr_ok e))"
  by (cases "Protocol env a"; auto simp: makeActor_def newAccountActor_def intro!: sound_return calm_basic frames_basic)+

definition sends_calm :: "('h, 's, 'i) vm_env \<Rightarrow> ('h \<Rightarrow> view) \<Rightarrow> nat \<Rightarrow> ('h, 's) send_fun \<Rightarrow> bool" where
  "sends_calm env ent d nsend \<longleftrightarrow>
    (\<forall>msg p st r sub st'. rt_ok env p \<and> depth p = d \<and> allowInternal p \<and> vm_inv env ent st \<and> Is_ID (tree env) (From msg) \<and>
      Is_ID (tree env) (To msg) \<and> Value msg \<noteq> None \<and> nsend msg (Some p) None st = Some (r, sub, st') \<longrightarrow> \<not> isl r)"

lemma frames_internalSend: "frames (internalSend nsend from to m v ps)"
  unfolding frames_def internalSend_def Let_def by (auto split: option.splits sum.splits prod.splits if_splits)

lemma calm_internalSend:
  assumes "sends_calm env ent d nsend" "Is_ID (tree env) from" "Is_ID (tree env) to"
  shows "calm env ent d (internalSend nsend from to m (Some v) ps)"
  unfolding calm_def
proof (intro allI impI, elim conjE)
  fix rt st r rt' st'
  assume p: "rt_ok env rt" "depth rt = d" "allowInternal rt" "vm_inv env ent st"
    "internalSend nsend from to m (Some v) ps rt st = Some (r, rt', st')"
  define msg where "msg = \<lparr>To = to, From = from, msg_Nonce = 0, Value = Some v, GasLimit = gasAvailable rt, GasFeeCap = None,
               GasPremium = None, Method = m, Params = ps\<rparr>"
  obtain q sub st1 where n: "nsend msg (Some rt) None (Snapshot st) = Some (q, sub, st1)"
    using p(5) by (cases "nsend msg (Some rt) None (Snapshot st)") (auto simp: internalSend_def Let_def msg_def)
  then have "\<not> isl q" using assms p(1-3) Snapshot_inv(1) [OF p(4)] unfolding sends_calm_def by (force simp: msg_def)
  then show "\<not> isl r"
    using p(5) n by (cases q) (auto simp: internalSend_def Let_def msg_def [symmetric] split: option.splits prod.splits)
qed

lemma call_constructor_ok:
  assumes "vm_env_ok env ent" "sends env ent g d nsend" "Is_ID (tree env) aid"
  shows "sound env ent g d (call_constructor env nsend a aid) (\<lambda>r. (\<forall>e. r = Inl e \<longrightarrow> aerr_ok e) \<and> (\<forall>x b. r = Inr (x, b) \<longrightarrow> Is_ID (tree env) b))"
    "sends_calm env ent d nsend \<Longrightarrow> calm env ent d (call_constructor env nsend a aid)"
proof -
  show "sound env ent g d (call_constructor env nsend a aid) (\<lambda>r. (\<forall>e. r = Inl e \<longrightarrow> aerr_ok e) \<and> (\<forall>x b. r = Inr (x, b) \<longrightarrow> Is_ID (tree env) b))"
    unfolding call_constructor_def
    by (auto intro!: sound_return sound_bind [OF sound_internalSend [OF assms(2)]] sound_bind [OF sound_GetActor [OF assms(1)]]
        simp: assms(3) split: option.splits sum.splits)
  assume c: "sends_calm env ent d nsend"
  have "calm env ent d (rt_bind (on_tree (\<lambda>st. GetActor (tree env) st aid)) (\<lambda>r. case r of
      Inl _ \<Rightarrow> rt_return (Inl (Escalate ''loading newly created actor failed'')) | Inr act \<Rightarrow> rt_return (Inr (act, aid))))"
    by (rule calm_bind [OF calm_basic(4) frames_basic(4) sound_GetActor [OF assms(1)]]) (auto intro: calm_basic split: sum.splits)
  then show "calm env ent d (call_constructor env nsend a aid)"
    unfolding call_constructor_def
    by (auto intro!: calm_basic calm_bind [OF calm_internalSend [OF c vm_env_okD(7) [OF assms(1)] assms(3)] frames_internalSend
          sound_internalSend [OF assms(2)]] split: option.splits)
qed


lemma TryCreate_ok:
  assumes "vm_env_ok env ent" "sends env ent g d nsend"
  shows "sound env ent g d (TryCreateAccountActor env nsend a)
      (\<lambda>r. (\<forall>e. r = Inl e \<longrightarrow> aerr_ok e) \<and> (\<forall>x b. r = Inr (x, b) \<longrightarrow> Is_ID (tree env) b))" (is "sound _ _ _ _ _ ?P")
    "Is_ID (tree env) a \<or> sends_calm env ent d nsend \<Longrightarrow> calm env ent d (TryCreateAccountActor env nsend a)"
proof -
  define S where "S = (\<lambda>aid act. rt_bind (on_tree (\<lambda>st. SetActor (tree env) st aid act)) (\<lambda>r.
      case r of Inl _ \<Rightarrow> rt_return (Inl (Escalate ''creating new actor failed'')) | Inr _ \<Rightarrow> call_constructor env nsend a aid))"
  define M where "M = (\<lambda>aid. rt_bind (makeActor env 3 a) (\<lambda>x. case x of Inl aerr \<Rightarrow> rt_return (Inl aerr) | Inr act \<Rightarrow> S aid act))"
  define R where "R = rt_bind (on_tree (\<lambda>st. RegisterNewAddress (tree env) st a)) (\<lambda>r.
      case r of Inl _ \<Rightarrow> rt_return (Inl (Escalate ''registering actor address'')) | Inr addrID \<Rightarrow> M addrID)"
  have eq: "TryCreateAccountActor env nsend a = rt_bind (rt_get height) (\<lambda>h.
      rt_bind (chargeGasSafe env (OnCreateActor pricelist0)) (\<lambda>e. case e of
        Some err \<Rightarrow> rt_return (Inl err)
      | None \<Rightarrow> if a = ZeroAddress env
          then rt_return (Inl (Newf (xcode env ErrIllegalArgument) ''cannot create the zero bls actor'')) else R))"
    unfolding TryCreateAccountActor_def R_def M_def S_def actors_VersionForNetwork_def by simp
  have set: "sound env ent g d (on_tree (\<lambda>st. SetActor (tree env) st aid act)) (\<lambda>_. True)" if "Balance act = 0" for aid act
    by (intro sound_tree) (use keeps_set_zero [OF assms(1)] that in blast)
  have reg: "sound env ent g d (on_tree (\<lambda>st. RegisterNewAddress (tree env) st a)) (\<lambda>r. \<forall>b. r = Inr b \<longrightarrow> Is_ID (tree env) b)"
    by (rule sound_tree) (rule RegisterNewAddress_keeps [OF assms(1)])
  have get: "sound env ent g d (rt_get height) (\<lambda>_. True)" by (rule sound_get) simp
  have chg: "sound env ent g d (chargeGasSafe env (OnCreateActor pricelist0)) (\<lambda>e. \<forall>x. e = Some x \<longrightarrow> aerr_ok x)"
    by (rule sound_chargeGasSafe) simp
  have S: "sound env ent g d (S aid act) ?P" if "Balance act = 0" "Is_ID (tree env) aid" for aid act
    unfolding S_def
    by (rule sound_bind [OF set [OF that(1)]])
      (auto intro!: sound_return call_constructor_ok(1) [OF assms that(2)] split: sum.splits)
  have M: "sound env ent g d (M aid) ?P" if "Is_ID (tree env) aid" for aid
    unfolding M_def by (rule sound_bind [OF makeActor_ok(3)]) (auto intro!: sound_return S that split: sum.splits)
  have R: "sound env ent g d R ?P"
    unfolding R_def by (rule sound_bind [OF reg]) (auto intro!: sound_return M split: sum.splits)
  show "sound env ent g d (TryCreateAccountActor env nsend a) ?P"
    unfolding eq by (rule sound_bind [OF get], rule sound_bind [OF chg]) (auto intro!: sound_return R split: option.splits)
  assume c: "Is_ID (tree env) a \<or> sends_calm env ent d nsend"
  have S': "calm env ent d (S aid act)" if "Balance act = 0" "Is_ID (tree env) aid" "sends_calm env ent d nsend" for aid act
    unfolding S_def
    by (rule calm_bind [OF calm_basic(4) frames_basic(4) set [OF that(1)]])
      (auto intro!: calm_basic call_constructor_ok(2) [OF assms that(2,3)] split: sum.splits)
  have M': "calm env ent d (M aid)" if "Is_ID (tree env) aid" for aid
    unfolding M_def
    by (rule calm_bind [OF makeActor_ok(1,2,3)])
      (use c vm_env_okD(5) [OF assms(1)] in \<open>auto intro!: calm_basic S' that split: sum.splits\<close>)
  have R': "calm env ent d R"
    unfolding R_def by (rule calm_bind [OF calm_basic(4) frames_basic(4) reg]) (auto intro!: calm_basic M' split: sum.splits)
  show "calm env ent d (TryCreateAccountActor env nsend a)"
    unfolding eq
    by (rule calm_bind [OF calm_basic(2) frames_basic(3) get], rule calm_bind [OF calm_basic(5) frames_basic(5) chg])
      (auto intro!: calm_basic R' split: option.splits)
qed

lemma frames_makeActor_etc: "frames (call_constructor env nsend a aid)" "frames (TryCreateAccountActor env nsend a)"
proof -
  show c: "frames (call_constructor env nsend a aid)" for aid
    unfolding call_constructor_def
    by (auto intro!: frames_basic frames_bind frames_internalSend split: option.splits sum.splits)
  have "frames (makeActor env v a)" for v
    unfolding makeActor_def by (auto intro!: frames_basic split: protocol.splits option.splits)
  then show "frames (TryCreateAccountActor env nsend a)"
    unfolding TryCreateAccountActor_def
    by (auto intro!: frames_basic frames_bind c split: option.splits sum.splits)
qed

lemma find_receiver_ok:
  assumes "vm_env_ok env ent" "sends env ent g d nsend"
  shows "sound env ent g d (find_receiver env nsend msg) (\<lambda>r. \<forall>e. r = Inl e \<longrightarrow> aerr_ok e)"
    "Is_ID (tree env) (To msg) \<or> sends_calm env ent d nsend \<Longrightarrow> calm env ent d (find_receiver env nsend msg)"
    "frames (find_receiver env nsend msg)"
proof -
  define C :: "actorError + Actor \<times> address \<Rightarrow> _" where "C = (\<lambda>c. case c of
            Inl e \<Rightarrow> rt_return (Inl (aerr_Wrap e ''could not create account''))
          | Inr (a, aid) \<Rightarrow>
              rt_bind (rt_Caller env) (\<lambda>caller.
              rt_bind (rt_modify (\<lambda>rt. rt\<lparr>rt_msg := \<lparr>To = aid, From = caller, msg_Nonce = 0, Value = Value (rt_msg rt),
                GasLimit = 0, GasFeeCap = None, GasPremium = None, Method = 0, Params = []\<rparr>\<rparr>)) (\<lambda>_. rt_return (Inr a))))"
  have eq: "find_receiver env nsend msg = rt_bind (on_tree (\<lambda>st. GetActor (tree env) st (To msg))) (\<lambda>r. case r of
      Inr toActor \<Rightarrow> rt_return (Inr toActor)
    | Inl err \<Rightarrow> if Is_ErrActorNotFound err then rt_bind (TryCreateAccountActor env nsend (To msg)) C
        else rt_return (Inl (Escalate ''getting actor'')))"
    unfolding find_receiver_def C_def by (rule refl)
  have mod: "sound env ent g d (rt_modify (\<lambda>rt. rt\<lparr>rt_msg := \<lparr>To = aid, From = caller, msg_Nonce = 0, Value = Value (rt_msg rt),
                GasLimit = 0, GasFeeCap = None, GasPremium = None, Method = 0, Params = []\<rparr>\<rparr>)) (\<lambda>_. True)"
    if "Is_ID (tree env) aid" "Is_ID (tree env) caller" for aid caller
    by (rule sound_modify) (use that in \<open>simp add: rt_step_def rt_ok_def gas_ok_def\<close>)
  have fm: "frames (rt_modify (\<lambda>rt. rt\<lparr>rt_msg := f rt\<rparr>))" for f by (simp add: frames_def rt_modify_def)
  let ?P = "\<lambda>r. (\<forall>e. r = Inl e \<longrightarrow> aerr_ok e) \<and> (\<forall>x b. r = Inr (x, b) \<longrightarrow> Is_ID (tree env) b)"
  have C: "sound env ent g d (C c) (\<lambda>r. \<forall>e. r = Inl e \<longrightarrow> aerr_ok e)" "calm env ent d (C c)" if "?P c" for c
  proof -
    show "sound env ent g d (C c) (\<lambda>r. \<forall>e. r = Inl e \<longrightarrow> aerr_ok e)"
      using that unfolding C_def
      by (auto intro!: sound_return sound_bind [OF sound_Caller [OF assms(1)]] sound_bind [OF mod] split: sum.splits prod.splits)
    show "calm env ent d (C c)"
      using that unfolding C_def
      by (auto intro!: calm_basic calm_bind [OF calm_Receiver(2,4) [OF assms(1)] sound_Caller [OF assms(1)]]
          calm_bind [OF calm_basic(3) fm mod] split: sum.splits prod.splits)
  qed
  show "sound env ent g d (find_receiver env nsend msg) (\<lambda>r. \<forall>e. r = Inl e \<longrightarrow> aerr_ok e)"
    unfolding eq
    by (rule sound_bind [OF sound_GetActor [OF assms(1)]])
      (auto intro!: sound_return sound_bind [OF TryCreate_ok(1) [OF assms]] C(1) split: sum.splits)
  show "frames (find_receiver env nsend msg)"
    unfolding eq C_def
    by (auto intro!: frames_basic frames_bind frames_makeActor_etc fm calm_Receiver(4) [OF assms(1)] split: sum.splits)
  assume c: "Is_ID (tree env) (To msg) \<or> sends_calm env ent d nsend"
  show "calm env ent d (find_receiver env nsend msg)"
    unfolding eq
    by (rule calm_bind [OF calm_basic(4) frames_basic(4) sound_GetActor [OF assms(1)]])
      (auto intro!: calm_basic calm_bind [OF TryCreate_ok(2) [OF assms c] frames_makeActor_etc(2) TryCreate_ok(1) [OF assms]] C(2) split: sum.splits)
qed


lemma invoke_method_ok:
  assumes "vm_env_ok env ent" "sends env ent g d nsend" "g \<Longrightarrow> sane_code env"
  shows "sound env ent g d (invoke_method env nsend msg a) (res_ok g)"
    "Value msg \<noteq> None \<Longrightarrow> calm env ent d (invoke_method env nsend msg a)"
proof -
  define D where "D = rt_bind (chargeGasSafe env (newGasCharge ''OnMethodInvocationDone'' 0 0)) (\<lambda>_. rt_return ())"
  define B where "B = (\<lambda>value. rt_bind (if value \<noteq> 0 then on_tree (transfer env (From msg) (To msg) value) else rt_return None) (\<lambda>err.
                case err of
                  Some e \<Rightarrow> rt_return ([], Some (aerr_Wrap e ''failed to transfer funds''))
                | None \<Rightarrow>
                    if Method msg \<noteq> 0 then
                      rt_bind (chargeGasSafe env gasOnActorExec) (\<lambda>_. Invoke env nsend a (Method msg) (Params msg))
                    else rt_return ([], None)))"
  have eq: "invoke_method env nsend msg a = (case Value msg of None \<Rightarrow> rt_panic PanicOther
     | Some value \<Rightarrow> rt_bind (rt_get pricelist) (\<lambda>pl.
         rt_bind (chargeGasSafe env (OnMethodInvocation pl value (Method msg))) (\<lambda>aerr. case aerr of
           Some e \<Rightarrow> rt_return ([], Some (aerr_Wrap e ''not enough gas for method invocation''))
         | None \<Rightarrow> deferred D (B value))))"
    unfolding invoke_method_def D_def B_def by (rule refl)
  have safe: "sound env ent g d (chargeGasSafe env c) (\<lambda>e. \<forall>x. e = Some x \<longrightarrow> aerr_ok x)" if "charge_ok c" for c
    by (rule sound_chargeGasSafe) (rule that)
  have D: "sound env ent g d D (\<lambda>_. True)" unfolding D_def by (rule sound_bind [OF safe]) (auto intro: sound_return)
  have pay: "sound env ent g d (if v \<noteq> 0 then on_tree (transfer env (From msg) (To msg) v) else rt_return None) (\<lambda>e. \<forall>x. e = Some x \<longrightarrow> aerr_ok x)" for v
    by (auto intro: sound_return sound_transfer [OF assms(1)])
  have B: "sound env ent g d (B v) (res_ok g)" for v
    unfolding B_def
    by (rule sound_bind [OF pay]) (auto intro!: sound_return sound_bind [OF safe] Invoke_ok(1) [OF assms] split: option.splits)
  show "sound env ent g d (invoke_method env nsend msg a) (res_ok g)"
    unfolding eq
    by (auto intro!: sound_panic sound_return sound_bind [OF sound_pricelist] sound_bind [OF safe] sound_deferred D B split: option.splits)
  assume "Value msg \<noteq> None"
  then obtain v where v: "Value msg = Some v" by blast
  have fr: "frames (if v \<noteq> 0 then on_tree (transfer env (From msg) (To msg) v) else rt_return None)"
    and ca: "calm env ent d (if v \<noteq> 0 then on_tree (transfer env (From msg) (To msg) v) else rt_return None)"
    by (auto intro: frames_basic calm_basic)
  have cb: "calm env ent d (B v)"
    unfolding B_def
    by (rule calm_bind [OF ca fr pay])
      (auto intro!: calm_basic calm_bind [OF calm_basic(5) frames_basic(5) safe] Invoke_ok(2) [OF assms] split: option.splits)
  have cd: "\<exists>rt'. D rt st = Some (Inr (), rt', st)" for rt and st :: "('a, 'b) StateTree"
    by (auto simp: D_def rt_bind_def chargeGasSafe_def Let_def rt_return_def)
  have "\<exists>rt1. B v rt st = Some (r, rt1, st')" if "deferred D (B v) rt st = Some (r, rt', st')" for rt st r rt' st'
  proof (cases "B v rt st")
    case (Some x)
    obtain q rt1 st1 where x: "x = (q, rt1, st1)" by (cases x)
    obtain rt2 where "D rt1 st1 = Some (Inr (), rt2, st1)" using cd by blast
    then show ?thesis using that Some x by (simp add: deferred_def)
  qed (use that in \<open>simp add: deferred_def\<close>)
  then have "calm env ent d (deferred D (B v))" using cb unfolding calm_def by metis
  then show "calm env ent d (invoke_method env nsend msg a)"
    unfolding eq v option.case
    by (intro calm_bind [OF calm_basic(2) frames_basic(3) sound_pricelist] calm_bind [OF calm_basic(5) frames_basic(5) safe])
      (auto intro!: calm_basic split: option.splits)
qed

lemma send_body_ok:
  assumes "vm_env_ok env ent" "sends env ent g d nsend" "g \<Longrightarrow> sane_code env" "\<And>c. g \<Longrightarrow> gc = Some c \<Longrightarrow> charge_ok c"
  shows "sound env ent g d (send_body env nsend msg gc) (res_ok g)"
    "Value msg \<noteq> None \<Longrightarrow> Is_ID (tree env) (To msg) \<or> sends_calm env ent d nsend \<Longrightarrow> calm env ent d (send_body env nsend msg gc)"
proof -
  define G where "G = (case gc of None \<Rightarrow> rt_return None | Some g \<Rightarrow> chargeGasSafe env g)"
  have G: "sound env ent g d G (\<lambda>e. \<forall>x. e = Some x \<longrightarrow> aerr_ok x)" "calm env ent d G" "frames G"
    unfolding G_def using assms(4)
    by (auto intro!: sound_return sound_chargeGasSafe calm_basic frames_basic split: option.splits)
  have safe: "sound env ent g d (chargeGasSafe env (newGasCharge n 0 0)) (\<lambda>e. \<forall>x. e = Some x \<longrightarrow> aerr_ok x)" for n
    by (rule sound_chargeGasSafe) simp
  show "sound env ent g d (send_body env nsend msg gc) (res_ok g)"
    unfolding send_body_def G_def [symmetric]
    by (rule sound_bind [OF G(1)])
      (auto intro!: sound_return sound_bind [OF safe] sound_bind [OF find_receiver_ok(1) [OF assms(1,2)]]
        invoke_method_ok(1) [OF assms(1-3)] split: option.splits sum.splits)
  assume v: "Value msg \<noteq> None" and c: "Is_ID (tree env) (To msg) \<or> sends_calm env ent d nsend"
  show "calm env ent d (send_body env nsend msg gc)"
    unfolding send_body_def G_def [symmetric]
    by (rule calm_bind [OF G(2,3,1)])
      (auto intro!: calm_basic calm_bind [OF calm_basic(5) frames_basic(5) safe]
        calm_bind [OF find_receiver_ok(2) [OF assms(1,2) c] find_receiver_ok(3) [OF assms(1,2)] find_receiver_ok(1) [OF assms(1,2)]]
        invoke_method_ok(2) [OF assms(1-3) v] split: option.splits sum.splits)
qed

definition new_depth :: "Runtime option \<Rightarrow> nat" where
  "new_depth parent = (case parent of None \<Rightarrow> 0 | Some p \<Rightarrow> Suc (depth p))"

lemma ResolveAddress_eq:
  "LookupID (tree env) st a = Some (q, st') \<Longrightarrow>
   rt_ResolveAddress env a rt st = Some (case q of Inr b \<Rightarrow> Inr (Some b)
     | Inl e \<Rightarrow> if Is_ErrActorNotFound e then Inr None else Inl (PanicErr (Fatalf ''failed to resolve address'')), rt, st')"
  by (auto simp: rt_ResolveAddress_def rt_bind_def on_tree_def rt_return_def rt_panic_def split: sum.splits)

lemma makeRuntime_ok:
  assumes "vm_env_ok env ent" "vm_inv env ent st"
  shows "\<exists>r st'. makeRuntime env msg parent st = Some (r, st') \<and> reads env ent st st' \<and>
    outcome (\<lambda>rt. rt_ok env rt \<and> depth rt = new_depth parent \<and> new_depth parent \<le> MaxCallDepth \<and> gasAvailable rt = GasLimit msg \<and>
      gasUsed rt = (case parent of None \<Rightarrow> 0 | Some p \<Rightarrow> gasUsed p) \<and> allowInternal rt) r \<and>
    (new_depth parent \<le> MaxCallDepth \<and> (\<forall>p. parent = Some p \<longrightarrow> allowInternal p) \<and>
       (\<exists>b st1. LookupID (tree env) st (From msg) = Some (Inr b, st1) \<and>
         (\<forall>e st2. LookupID (tree env) st1 (To msg) = Some (Inl e, st2) \<longrightarrow> Is_ErrActorNotFound e)) \<longrightarrow> \<not> isl r)"
proof -
  obtain q1 st1 where 1: "LookupID (tree env) st (From msg) = Some (q1, st1)" "reads env ent st st1" "\<forall>b. q1 = Inr b \<longrightarrow> Is_ID (tree env) b"
    using LookupID_reads [OF assms] by blast
  obtain q2 st2 where 2: "LookupID (tree env) st1 (To msg) = Some (q2, st2)" "reads env ent st1 st2" "\<forall>b. q2 = Inr b \<longrightarrow> Is_ID (tree env) b"
    using LookupID_reads [OF assms(1) keeps_inv(2) [OF 1(2)]] by blast
  have s: "reads env ent st st" "reads env ent st st2" using reads_refl [OF assms(2)] reads_trans [OF 1(2) 2(2)] .
  note d = makeRuntime_def Let_def ResolveAddress_eq [OF 1(1)] ResolveAddress_eq [OF 2(1)] new_depth_def
  consider "\<exists>p. parent = Some p \<and> \<not> allowInternal p" | "\<forall>p. parent = Some p \<longrightarrow> allowInternal p" "new_depth parent > MaxCallDepth"
    | "\<forall>p. parent = Some p \<longrightarrow> allowInternal p" "\<not> new_depth parent > MaxCallDepth" by blast
  then show ?thesis
  proof cases
    case 1
    then show ?thesis using s(1) by (auto simp: d)
  next
    case 2
    then show ?thesis using s(1) by (cases parent) (auto simp: d)
  next
    case 3
    show ?thesis
      using 3 1 2 s by (cases parent; cases q1; cases q2) (auto simp: d rt_ok_def)
  qed
qed


text \<open>The gas a new runtime starts with.\<close>

definition start_gas :: "Message \<Rightarrow> Runtime option \<Rightarrow> bool" where
  "start_gas msg parent \<longleftrightarrow> (let used = (case parent of None \<Rightarrow> 0 | Some p \<Rightarrow> gasUsed p) in
     0 \<le> used \<and> used \<le> GasLimit msg \<and> GasLimit msg < 2 ^ 59)"

definition resolvable :: "('h, 's, 'i) vm_env \<Rightarrow> Message \<Rightarrow> ('h, 's) StateTree \<Rightarrow> bool" where
  "resolvable env msg st \<longleftrightarrow> (\<exists>b st1. LookupID (tree env) st (From msg) = Some (Inr b, st1) \<and>
     (\<forall>e st2. LookupID (tree env) st1 (To msg) = Some (Inl e, st2) \<longrightarrow> Is_ErrActorNotFound e))"

lemma send_step_ok:
  assumes "vm_env_ok env ent" "vm_inv env ent st" "g \<Longrightarrow> sane_code env" "\<And>c. g \<Longrightarrow> gc = Some c \<Longrightarrow> charge_ok c"
    and nsend: "new_depth parent \<le> MaxCallDepth \<Longrightarrow> sends env ent g (new_depth parent) nsend"
  shows "\<exists>r sub st'. send_step env nsend msg parent gc st = Some (r, sub, st') \<and> keeps env ent st st' \<and> outcome (res_ok g) r \<and>
    (\<forall>s. sub = Some s \<longrightarrow> gasAvailable s = GasLimit msg \<and> rt_ok env s \<and> (g \<and> start_gas msg parent \<longrightarrow> gas_ok s)) \<and>
    (sub = None \<longrightarrow> isl r) \<and>
    (new_depth parent \<le> MaxCallDepth \<and> (\<forall>p. parent = Some p \<longrightarrow> allowInternal p) \<and> resolvable env msg st \<and> Value msg \<noteq> None \<and>
      (Is_ID (tree env) (To msg) \<or> sends_calm env ent (new_depth parent) nsend) \<longrightarrow> \<not> isl r)"
proof -
  obtain q st1 where m: "makeRuntime env msg parent st = Some (q, st1)" "reads env ent st st1"
    "outcome (\<lambda>rt. rt_ok env rt \<and> depth rt = new_depth parent \<and> new_depth parent \<le> MaxCallDepth \<and> gasAvailable rt = GasLimit msg \<and>
      gasUsed rt = (case parent of None \<Rightarrow> 0 | Some p \<Rightarrow> gasUsed p) \<and> allowInternal rt) q"
    "new_depth parent \<le> MaxCallDepth \<and> (\<forall>p. parent = Some p \<longrightarrow> allowInternal p) \<and> resolvable env msg st \<longrightarrow> \<not> isl q"
    using makeRuntime_ok [OF assms(1,2), of msg parent] unfolding resolvable_def by (elim exE conjE)
  show ?thesis
  proof (cases q)
    case (Inl p)
    then show ?thesis using m reads_keeps [OF m(2)] by (cases p) (auto simp: send_step_def)
  next
    case (Inr rt)
    then have rt: "rt_ok env rt" "depth rt = new_depth parent" "new_depth parent \<le> MaxCallDepth" "gasAvailable rt = GasLimit msg"
      "gasUsed rt = (case parent of None \<Rightarrow> 0 | Some p \<Rightarrow> gasUsed p)" "allowInternal rt" using m(3) by simp_all
    have body: "sound env ent g (new_depth parent) (send_body env nsend msg gc) (res_ok g)"
      "Value msg \<noteq> None \<Longrightarrow> Is_ID (tree env) (To msg) \<or> sends_calm env ent (new_depth parent) nsend \<Longrightarrow>
        calm env ent (new_depth parent) (send_body env nsend msg gc)"
      by (rule send_body_ok [OF assms(1) nsend [OF rt(3)]]; use assms(3,4) in blast)+
    obtain r rt' st' where s: "send_body env nsend msg gc rt st1 = Some (r, rt', st')" "keeps env ent st1 st'" "rt_step env g rt rt'" "outcome (res_ok g) r"
      using soundE [OF body(1) rt(1,2) keeps_inv(2) [OF m(2)]] .
    have "g \<and> start_gas msg parent \<longrightarrow> gas_ok rt" using rt(4,5) by (simp add: start_gas_def gas_ok_def Let_def)
    moreover have "\<not> isl r" if "Value msg \<noteq> None" "Is_ID (tree env) (To msg) \<or> sends_calm env ent (new_depth parent) nsend"
      using body(2) [OF that] s(1) rt keeps_inv(2) [OF m(2)] unfolding calm_def by blast
    ultimately show ?thesis
      using m(1) Inr s rt(4) keeps_trans [OF reads_keeps [OF m(2)] s(2)] by (auto simp: send_step_def rt_step_def rt_ok_def)
  qed
qed

text \<open>A call depth of \<open>MaxCallDepth\<close> is refused, so the recursion needs no more levels than are left.\<close>

lemma send_fuel_sends:
  assumes "vm_env_ok env ent" "g \<Longrightarrow> sane_code env" "0 < n" "MaxCallDepth + 1 \<le> d + n"
  shows "sends env ent g d (send_fuel env n)"
  using assms(3,4)
proof (induction n arbitrary: d)
  case (Suc n)
  have "sends env ent g (Suc d) (send_fuel env n)" if "Suc d \<le> MaxCallDepth" using Suc that by (cases n) simp_all
  then have "\<exists>r sub st'. send_step env (send_fuel env n) msg (Some p) None st = Some (r, sub, st') \<and> keeps env ent st st' \<and>
      outcome (res_ok g) r \<and> (\<forall>s. sub = Some s \<longrightarrow> gasAvailable s = GasLimit msg \<and> (g \<and> start_gas msg (Some p) \<longrightarrow> gas_ok s))"
    if "depth p = d" "vm_inv env ent st" for p msg st
    using send_step_ok [OF assms(1) that(2) assms(2), of g None "Some p" "send_fuel env n" msg] that(1)
    by (fastforce simp: new_depth_def)
  moreover have "start_gas msg (Some p)" if "gas_ok p" "GasLimit msg = gasAvailable p" for msg p
    using that by (simp add: start_gas_def gas_ok_def Let_def)
  ultimately show ?case unfolding sends_def send_fuel.simps by metis
qed simp

lemma send_fuel_calm:
  assumes "vm_env_ok env ent" "MaxCallDepth + 1 \<le> Suc d + n" "Suc d \<le> MaxCallDepth"
  shows "sends_calm env ent d (send_fuel env (Suc n))"
  unfolding sends_calm_def
proof (intro allI impI, elim conjE)
  fix msg p st r sub st'
  assume p: "rt_ok env p" "depth p = d" "allowInternal p" "vm_inv env ent st" "Is_ID (tree env) (From msg)" "Is_ID (tree env) (To msg)"
    "Value msg \<noteq> None" "send_fuel env (Suc n) msg (Some p) None st = Some (r, sub, st')"
  have "sends env ent False (Suc d) (send_fuel env n)" using assms by (intro send_fuel_sends) auto
  moreover have "resolvable env msg st" using LookupID_id [OF p(5)] LookupID_id [OF p(6)] by (simp add: resolvable_def)
  ultimately show "\<not> isl r"
    using send_step_ok [OF assms(1) p(4), of False None "Some p" "send_fuel env n" msg] p assms(3) by (auto simp: new_depth_def)
qed

lemma send_ok:
  assumes "vm_env_ok env ent" "vm_inv env ent st" "g \<longrightarrow> sane_code env" "\<forall>c. g \<and> gc = Some c \<longrightarrow> charge_ok c"
  shows "\<exists>r sub st'. send env msg None gc st = Some (r, sub, st') \<and> keeps env ent st st' \<and> outcome (res_ok g) r \<and>
    (\<forall>s. sub = Some s \<longrightarrow> gasAvailable s = GasLimit msg \<and> rt_ok env s \<and> (g \<and> start_gas msg None \<longrightarrow> gas_ok s)) \<and>
    (sub = None \<longrightarrow> isl r) \<and> (resolvable env msg st \<and> Value msg \<noteq> None \<longrightarrow> \<not> isl r)"
proof -
  have s: "sends env ent g 0 (send_fuel env (MaxCallDepth + 1))"
    using assms(1,3) by (intro send_fuel_sends) (simp_all add: MaxCallDepth_def)
  have c: "sends_calm env ent 0 (send_fuel env (MaxCallDepth + 1))"
    using send_fuel_calm [OF assms(1), of 0 MaxCallDepth] by (simp add: MaxCallDepth_def)
  have e: "send env = send_step env (send_fuel env (MaxCallDepth + 1))"
    unfolding send_def by (metis add_Suc_right one_add_one plus_1_eq_Suc send_fuel.simps(2))
  show ?thesis
    unfolding e
    using send_step_ok [where g = g and gc = gc and parent = None and nsend = "send_fuel env (MaxCallDepth + 1)" and msg = msg,
        OF assms(1,2)] assms(3,4) s c by (simp add: new_depth_def)
qed

end
