(* ===== verification/VM_Messages.thy ===== *)
theory VM_Messages
  imports VM_Calls
begin

text \<open>
  From the start of \<open>ApplyMessage\<close> to its end: how the sender is charged (\<open>charged_run\<close>), what the end of a message
  does to the state on every path (\<open>finish_message_ok\<close>), and how the gas holder is emptied (\<open>settle_ok\<close>). An address
  that has been resolved once keeps its ID, so all payments of a message go to the same sender.
\<close>

section \<open>Addresses that are resolved\<close>

definition caches_of :: "stateSnaps \<Rightarrow> (address, address) fmap list" where
  "caches_of ss = map resolveCache (layers ss)"

definition resolved :: "('h, 's, 'i) tree_env \<Rightarrow> stateSnaps \<Rightarrow> address \<Rightarrow> address \<Rightarrow> bool" where
  "resolved T ss a b \<longleftrightarrow> (if Is_ID T a then b = a else cached ss a = Some b)"

lemma search_caches: "map resolveCache ls = map resolveCache ks \<Longrightarrow> search_layers ls a = search_layers ks a"
proof (induction ls arbitrary: ks)
  case (Cons l ls)
  then show ?case by (cases ks) (auto split: option.splits)
qed simp

lemma cached_caches:
  assumes "caches_of ss' = caches_of ss"
  shows "cached ss' a = cached ss a"
proof -
  have "map resolveCache (rev (layers ss')) = map resolveCache (rev (layers ss))"
    using assms unfolding caches_of_def rev_map [symmetric] by (rule arg_cong)
  then show ?thesis unfolding cached_def by (rule search_caches)
qed

lemma resolved_caches: "caches_of ss' = caches_of ss \<Longrightarrow> resolved T ss' a b = resolved T ss a b"
  using cached_caches [of ss' ss a] by (simp add: resolved_def)

lemma caches_of_lower: "caches_of ss' = caches_of ss \<Longrightarrow> lower_caches ss' = lower_caches ss"
  by (simp add: caches_of_def lower_caches_def map_butlast)

lemma caches_of_setActor: "setActor ss a x = Some ss' \<Longrightarrow> caches_of ss' = caches_of ss"
proof -
  assume s: "setActor ss a x = Some ss'"
  then have "layers ss \<noteq> []" by (auto simp: setActor_def top_layer_def)
  then obtain ls l where "layers ss = ls @ [l]" by (rule last_layer_cases)
  then show ?thesis using s by (auto simp: setActor_def top_layer_snoc caches_of_def)
qed

lemma cached_cacheResolve:
  assumes "cacheResolveAddress ss a b = Some ss'"
  shows "cached ss' a = Some b"
proof -
  have "layers ss \<noteq> []" using assms by (auto simp: cacheResolveAddress_def top_layer_def)
  then obtain ls l where "layers ss = ls @ [l]" by (rule last_layer_cases)
  then show ?thesis using assms by (auto simp: cacheResolveAddress_def top_layer_snoc cached_def)
qed

lemma LookupID_resolved:
  assumes "vm_inv env ent st" "LookupID (tree env) st a = Some (Inr b, st')"
  shows "resolved (tree env) (snaps st') a b"
    "resolved (tree env) (snaps st) a c \<Longrightarrow> c = b \<and> caches_of (snaps st') = caches_of (snaps st)"
proof -
  have ok: "snaps_ok (snaps st)" using assms(1) by (simp add: vm_inv_def tree_ok_def)
  obtain ss where s: "resolveAddress (snaps st) a = Some (cached (snaps st) a, ss)" "layers ss = layers (snaps st)"
    using resolveAddress_search [OF ok] by blast
  then have c: "caches_of ss = caches_of (snaps st)" by (simp add: caches_of_def)
  note d = LookupID_def numeral_2_eq_2 LookupID_fuel.simps s(1)
  show "resolved (tree env) (snaps st') a b"
  proof (cases "Is_ID (tree env) a \<or> cached (snaps st) a \<noteq> None")
    case True
    then show ?thesis using assms(2) cached_caches [OF c, of a] by (auto simp: d resolved_def split: if_splits)
  next
    case False
    then have "\<exists>ss2. cacheResolveAddress ss2 a b = Some (snaps st')"
      using assms(2) unfolding d by (auto simp del: LookupID_fuel.simps split: option.splits sum.splits) (rule exI)
    then show ?thesis using False cached_cacheResolve by (auto simp: resolved_def)
  qed
  show "resolved (tree env) (snaps st) a c \<Longrightarrow> c = b \<and> caches_of (snaps st') = caches_of (snaps st)"
    using assms(2) c by (auto simp: d resolved_def split: if_splits)
qed

lemma resolved_LookupID:
  assumes "vm_env_ok env ent" "vm_inv env ent st" "resolved (tree env) (snaps st) a b"
  shows "\<exists>st'. LookupID (tree env) st a = Some (Inr b, st') \<and> reads env ent st st' \<and> caches_of (snaps st') = caches_of (snaps st)"
proof -
  obtain r st' where l: "LookupID (tree env) st a = Some (r, st')" "reads env ent st st'"
    "r = (if Is_ID (tree env) a then Inr a else case cached (snaps st) a of
           Some b \<Rightarrow> Inr b | None \<Rightarrow> init_resolve (tree env) (Store st) (cur ent st) a)"
    using LookupID_reads [OF assms(1,2), of a] by (elim exE conjE)
  have "r = Inr b" unfolding l(3) using assms(3) by (auto simp: resolved_def split: if_splits)
  then show ?thesis using l(1,2) LookupID_resolved(2) [OF assms(2) _ assms(3)] by blast
qed

lemma GetActor_full:
  assumes "vm_env_ok env ent" "vm_inv env ent st" "a \<noteq> Undef (tree env)"
  shows "\<exists>r st'. GetActor (tree env) st a = Some (r, st') \<and> reads env ent st st' \<and>
    (\<forall>x. r = Inr x \<longrightarrow> (\<exists>b st1. LookupID (tree env) st a = Some (Inr b, st1) \<and> resolved (tree env) (snaps st') a b \<and> cur ent st b = Some x)) \<and>
    (\<forall>b st1. LookupID (tree env) st a = Some (Inr b, st1) \<longrightarrow> r = actor_of (cur ent st) b) \<and>
    (\<forall>b. resolved (tree env) (snaps st) a b \<longrightarrow> r = actor_of (cur ent st) b \<and> caches_of (snaps st') = caches_of (snaps st))"
proof -
  note e = vm_env_okD [OF assms(1)]
  obtain r st' where g: "GetActor (tree env) st a = Some (r, st')" "reads env ent st st'"
    "\<forall>b st1. a \<noteq> Undef (tree env) \<and> LookupID (tree env) st a = Some (Inr b, st1) \<longrightarrow> r = actor_of (cur ent st) b"
    "\<forall>e st1. LookupID (tree env) st a = Some (Inl e, st1) \<longrightarrow> (\<exists>e'. r = Inl e' \<and> (Is_ErrActorNotFound e' \<longrightarrow> Is_ErrActorNotFound e))"
    using GetActor_reads [OF assms(1,2), of a] by (elim exE conjE)
  obtain q st1 where l: "LookupID (tree env) st a = Some (q, st1)" "reads env ent st st1" using LookupID_reads [OF assms(1,2)] by blast
  have t1: "tree_ok st1" using keeps_inv(2) [OF l(2)] by (simp add: vm_inv_def)
  have same: "cached (snaps st') c = cached (snaps st1) c" "caches_of (snaps st') = caches_of (snaps st1)" if "q = Inr b" for b c
  proof -
    show "cached (snaps st') c = cached (snaps st1) c"
      using GetActor_with_view [where lookup = "LookupID (tree env)", OF e(1) assms(3) l(1) [unfolded that] t1] g(1) unfolding GetActor_def by auto
    show "caches_of (snaps st') = caches_of (snaps st1)"
      using g(1) l(1) that caches_of_setActor assms(3)
      by (auto simp: GetActor_def GetActor_with_def split: if_splits option.splits sum.splits)
  qed
  have res: "resolved (tree env) (snaps st') a b" if "q = Inr b" for b
    using LookupID_resolved(1) [OF assms(2) l(1) [unfolded that]] same(1) [OF that] by (simp add: resolved_def)
  have "\<exists>b st1. LookupID (tree env) st a = Some (Inr b, st1) \<and> resolved (tree env) (snaps st') a b \<and> cur ent st b = Some x" if "r = Inr x" for x
  proof (cases q)
    case (Inl err)
    then show ?thesis using g(4) l(1) that by auto
  next
    case (Inr b)
    then have "actor_of (cur ent st) b = Inr x" using g(3) l(1) that assms(3) by simp
    then show ?thesis using res [OF Inr] l(1) Inr by (auto simp: actor_of_Inr)
  qed
  moreover have "r = actor_of (cur ent st) b \<and> caches_of (snaps st') = caches_of (snaps st)" if c: "resolved (tree env) (snaps st) a b" for b
  proof -
    obtain st2 where "LookupID (tree env) st a = Some (Inr b, st2)" "caches_of (snaps st2) = caches_of (snaps st)"
      using resolved_LookupID [OF assms(1,2) c] by blast
    then show ?thesis using g(3) assms(3) l(1) same(2) [of b] by auto
  qed
  moreover have "\<forall>b st1. LookupID (tree env) st a = Some (Inr b, st1) \<longrightarrow> r = actor_of (cur ent st) b" using g(3) assms(3) by blast
  ultimately show ?thesis using g(1,2) by (intro exI [of _ r] exI [of _ st']) blast
qed

text \<open>The tree with one actor written.\<close>

definition writes :: "('h, 's, 'i) vm_env \<Rightarrow> ('h \<Rightarrow> view) \<Rightarrow> ('h, 's) StateTree \<Rightarrow> view \<Rightarrow> ('h, 's) StateTree \<Rightarrow> bool" where
  "writes env ent st v st' \<longleftrightarrow> vm_inv env ent st' \<and> tviews ent st' = v # tl (tviews ent st) \<and> Store st' = Store st \<and>
     lower_caches (snaps st') = lower_caches (snaps st)"

lemma reads_writes: "reads env ent st st' \<Longrightarrow> writes env ent st (cur ent st) st'"
  by (simp add: reads_def writes_def)

lemma writes_trans: "writes env ent st v st' \<Longrightarrow> writes env ent st' w st'' \<Longrightarrow> writes env ent st w st''"
  by (simp add: writes_def)

lemma writes_cur: "writes env ent st v st' \<Longrightarrow> cur ent st' = v" "writes env ent st v st' \<Longrightarrow> vm_inv env ent st'"
  by (simp_all add: writes_def)

lemma SetActor_resolved:
  assumes "vm_env_ok env ent" "vm_inv env ent st" "resolved (tree env) (snaps st) a b" "0 \<le> Balance x"
  shows "\<exists>st'. SetActor (tree env) st a x = Some (Inr (), st') \<and> writes env ent st ((cur ent st)(b \<mapsto> x)) st' \<and>
    caches_of (snaps st') = caches_of (snaps st)"
proof -
  obtain st1 where l: "LookupID (tree env) st a = Some (Inr b, st1)" "caches_of (snaps st1) = caches_of (snaps st)"
    using resolved_LookupID [OF assms(1-3)] by blast
  obtain st' where s: "SetActor (tree env) st a x = Some (Inr (), st')" "vm_inv env ent st'"
      "tviews ent st' = (cur ent st)(b \<mapsto> x) # tl (tviews ent st)" "lower_caches (snaps st') = lower_caches (snaps st)" "Store st' = Store st"
    using SetActor_writes [OF assms(1,2) l(1) assms(4)] by blast
  have "caches_of (snaps st') = caches_of (snaps st)"
    using s(1) l caches_of_setActor by (auto simp: SetActor_def)
  then show ?thesis using s by (auto simp: writes_def)
qed

lemma MutateActor_full:
  assumes "vm_env_ok env ent" "vm_inv env ent st" "a \<noteq> Undef (tree env)"
    and "\<forall>act act' x. F act = Inr (act', x) \<longrightarrow> 0 \<le> Balance act \<longrightarrow> 0 \<le> Balance act'"
  shows "\<exists>r st'. MutateActor (tree env) st a (\<lambda>st act. (F act, st)) = Some (r, st') \<and>
    (case r of Inl e \<Rightarrow> reads env ent st st'
     | Inr x \<Rightarrow> (\<exists>b act act'. resolved (tree env) (snaps st') a b \<and> cur ent st b = Some act \<and> F act = Inr (act', x) \<and>
         writes env ent st ((cur ent st)(b \<mapsto> act')) st')) \<and>
    (\<forall>b. resolved (tree env) (snaps st) a b \<longrightarrow> caches_of (snaps st') = caches_of (snaps st) \<and>
       (case cur ent st b of None \<Rightarrow> isl r | Some act \<Rightarrow> r = map_sum id snd (F act)))"
proof -
  obtain q st1 where g: "GetActor (tree env) st a = Some (q, st1)" "reads env ent st st1"
    "\<And>x. q = Inr x \<Longrightarrow> \<exists>b. resolved (tree env) (snaps st1) a b \<and> cur ent st b = Some x"
    "\<And>b. resolved (tree env) (snaps st) a b \<Longrightarrow> q = actor_of (cur ent st) b \<and> caches_of (snaps st1) = caches_of (snaps st)"
    using GetActor_full [OF assms(1-3)] by metis
  note i = keeps_inv(2) [OF g(2)]
  show ?thesis
  proof (cases q)
    case (Inl e)
    have "cur ent st b = None \<and> caches_of (snaps st1) = caches_of (snaps st)" if "resolved (tree env) (snaps st) a b" for b
      using g(4) [OF that] Inl by (cases "cur ent st b") (simp_all add: actor_of_def)
    then show ?thesis using g(1,2) Inl by (auto simp: MutateActor_def)
  next
    case (Inr act)
    then obtain b where b: "resolved (tree env) (snaps st1) a b" "cur ent st b = Some act" using g(3) by blast
    have det: "c = b" if "resolved (tree env) (snaps st) a c" for c
      using cached_caches [of "snaps st1" "snaps st" a] g(4) [OF that] b(1) that by (auto simp: resolved_def split: if_splits)
    show ?thesis
    proof (cases "F act")
      case (Inl e)
      then show ?thesis using Inr g b det by (auto simp: MutateActor_def)
    next
      case (Inr y)
      obtain act' x where y: "y = (act', x)" by fastforce
      have "0 \<le> Balance act" using vm_inv_cur(1) [OF assms(2)] b(2) by (simp add: bal_ok_def)
      then have "0 \<le> Balance act'" using assms(4) Inr y by blast
      then obtain st2 where s: "SetActor (tree env) st1 a act' = Some (Inr (), st2)" "writes env ent st1 ((cur ent st1)(b \<mapsto> act')) st2"
          "caches_of (snaps st2) = caches_of (snaps st1)"
        using SetActor_resolved [OF assms(1) i b(1)] by blast
      have "cur ent st1 = cur ent st" using g(2) by (simp add: reads_def)
      then have w: "writes env ent st ((cur ent st)(b \<mapsto> act')) st2" using writes_trans [OF reads_writes [OF g(2)] s(2)] by simp
      have r: "resolved (tree env) (snaps st2) a b" using b(1) unfolding resolved_caches [OF s(3)] .
      have "MutateActor (tree env) st a (\<lambda>st act. (F act, st)) = Some (Inr x, st2)"
        using g(1) \<open>q = Inr act\<close> Inr y s(1) by (simp add: MutateActor_def)
      then show ?thesis using w r b(2) Inr y det g(4) s(3) by auto
    qed
  qed
qed


section \<open>Gas payments\<close>

definition credit :: "view \<Rightarrow> address \<Rightarrow> int \<Rightarrow> view" where
  "credit v b amt = (case v b of Some x \<Rightarrow> v(b \<mapsto> x\<lparr>Balance := Balance x + amt\<rparr>) | None \<Rightarrow> v)"

text \<open>Paying out of the gas holder: what leaves it arrives in the tree.\<close>

definition paid :: "('h, 's, 'i) vm_env \<Rightarrow> ('h \<Rightarrow> view) \<Rightarrow> ('h, 's) StateTree \<Rightarrow> Actor \<Rightarrow> ('h, 's) StateTree \<Rightarrow> Actor \<Rightarrow> bool" where
  "paid env ent st h st' h' \<longleftrightarrow> writes env ent st (cur ent st') st' \<and> 0 \<le> Balance h' \<and>
     total_of (cur ent st') + Balance h' = total_of (cur ent st) + Balance h"

lemma paid_refl: "vm_inv env ent st \<Longrightarrow> 0 \<le> Balance h \<Longrightarrow> paid env ent st h st h"
  by (simp add: paid_def writes_def)

lemma paid_trans: "paid env ent st h st' h' \<Longrightarrow> paid env ent st' h' st'' h'' \<Longrightarrow> paid env ent st h st'' h''"
  unfolding paid_def by (metis writes_trans)

lemma credit_zero [simp]: "credit v b 0 = v"
  by (auto simp: credit_def fun_upd_idem split: option.splits)

lemma transferFromGasHolder_ok:
  assumes "vm_env_ok env ent" "vm_inv env ent st" "a \<noteq> Undef (tree env)" "0 \<le> Balance h"
  shows "\<exists>r st'. transferFromGasHolder env st a h amt = Some (r, st') \<and>
    (case r of Inl e \<Rightarrow> reads env ent st st' | Inr h' \<Rightarrow> 0 \<le> amt \<and> Balance h' = Balance h - amt \<and> paid env ent st h st' h') \<and>
    (\<forall>b. resolved (tree env) (snaps st) a b \<longrightarrow> caches_of (snaps st') = caches_of (snaps st) \<and>
       (\<forall>h'. r = Inr h' \<longrightarrow> cur ent st' = credit (cur ent st) b amt))"
proof -
  consider "amt < 0" | "amt = 0" | "0 < amt" by linarith
  then show ?thesis
  proof cases
    case 1
    then show ?thesis using reads_refl [OF assms(2)] by (simp add: transferFromGasHolder_def)
  next
    case 2
    then show ?thesis using paid_refl [OF assms(2,4)] by (simp add: transferFromGasHolder_def)
  next
    case 3
    define F where "F = (\<lambda>act. case deductFunds h amt of
        None \<Rightarrow> Inl (ErrMsg ''not enough funds'') | Some h' \<Rightarrow> Inr (depositFunds act amt, h'))"
    have "(\<lambda>st a. case deductFunds h amt of None \<Rightarrow> (Inl (ErrMsg ''not enough funds''), st)
        | Some h \<Rightarrow> (Inr (depositFunds a amt, h), st)) = (\<lambda>(st :: ('a, 'b) StateTree) a. (F a, st))"
      by (auto simp: F_def fun_eq_iff split: option.splits)
    then have eq: "transferFromGasHolder env st a h amt = MutateActor (tree env) st a (\<lambda>st a. (F a, st))"
      using 3 by (simp add: transferFromGasHolder_def)
    have F: "act' = depositFunds act amt" "Balance x = Balance h - amt" "amt \<le> Balance h" if "F act = Inr (act', x)" for act act' x
      using that by (auto simp: F_def deductFunds_def split: option.splits if_splits)
    have pos: "\<forall>act act' x. F act = Inr (act', x) \<longrightarrow> 0 \<le> Balance act \<longrightarrow> 0 \<le> Balance act'"
      using 3 by (auto simp: depositFunds_def dest!: F(1))
    obtain r st' where m: "MutateActor (tree env) st a (\<lambda>st act. (F act, st)) = Some (r, st')"
      "case r of Inl e \<Rightarrow> reads env ent st st'
       | Inr x \<Rightarrow> (\<exists>b act act'. resolved (tree env) (snaps st') a b \<and> cur ent st b = Some act \<and> F act = Inr (act', x) \<and>
           writes env ent st ((cur ent st)(b \<mapsto> act')) st')"
      "\<forall>b. resolved (tree env) (snaps st) a b \<longrightarrow> caches_of (snaps st') = caches_of (snaps st) \<and>
         (case cur ent st b of None \<Rightarrow> isl r | Some act \<Rightarrow> r = map_sum id snd (F act))"
      using MutateActor_full [OF assms(1-3) pos] by (elim exE conjE)
    show ?thesis
    proof (cases r)
      case (Inl e)
      then show ?thesis using m eq by auto
    next
      case (Inr h')
      then obtain b act act' where b: "resolved (tree env) (snaps st') a b" "cur ent st b = Some act" "F act = Inr (act', h')"
        "writes env ent st ((cur ent st)(b \<mapsto> act')) st'" using m(2) by auto
      have c: "cur ent st' = credit (cur ent st) b amt" "cur ent st' = (cur ent st)(b \<mapsto> act')"
        using b(2) writes_cur(1) [OF b(4)] F(1) [OF b(3)] by (simp_all add: credit_def depositFunds_def)
      have "total_of (cur ent st') = total_of (cur ent st) + amt"
        unfolding c(2) total_upd [OF vm_inv_cur(2) [OF assms(2)]] using b(2) F(1) [OF b(3)] by (simp add: bal_at_def depositFunds_def)
      then have "paid env ent st h st' h'" using b(4) c(2) F(2,3) [OF b(3)] by (simp add: paid_def)
      moreover have "c = b" if "resolved (tree env) (snaps st) a c" "caches_of (snaps st') = caches_of (snaps st)" for c
        using cached_caches [OF that(2), of a] that(1) b(1) by (auto simp: resolved_def split: if_splits)
      ultimately show ?thesis using m(1,3) eq Inr c(1) F(2) [OF b(3)] 3 by auto
    qed
  qed
qed

definition pay_fees :: "('h, 's, 'i) vm_env \<Rightarrow> GasOutputs \<Rightarrow> address \<Rightarrow> view \<Rightarrow> view" where
  "pay_fees env out fid v =
    credit (credit (credit (credit v (BurntFundsActorAddr env) (BaseFeeBurn out)) (RewardAddress env) (MinerTip out))
      (BurntFundsActorAddr env) (OverEstimationBurn out)) fid (Refund out)"

lemma settle_ok:
  assumes "vm_env_ok env ent" "vm_inv env ent st" "From msg \<noteq> Undef (tree env)" "0 \<le> Balance h"
  shows "\<exists>r st' h'. settle env msg h out st = Some (r, st') \<and> paid env ent st h st' h' \<and>
    (r = Inr () \<longrightarrow> Balance h' = 0) \<and>
    (r = Inl ''gas handling math is wrong'' \<longrightarrow> BaseFeeBurn out + MinerTip out + OverEstimationBurn out + Refund out \<noteq> Balance h) \<and>
    (\<forall>fid. resolved (tree env) (snaps st) (From msg) fid \<and> r = Inr () \<longrightarrow> cur ent st' = pay_fees env out fid (cur ent st))"
proof -
  note e = vm_env_okD [OF assms(1)]
  have ids: "BurntFundsActorAddr env \<noteq> Undef (tree env)" "RewardAddress env \<noteq> Undef (tree env)" using e(4,8,9) by auto
  have id: "resolved (tree env) ss a a" if "Is_ID (tree env) a" for ss a using that by (simp add: resolved_def)
  note tr = transferFromGasHolder_ok [OF assms(1)]
  have failed: "paid env ent s k s' k" if "reads env ent s s'" "0 \<le> Balance k" for s s' k
    using that by (simp add: paid_def reads_def writes_def)
  note d = settle_def Let_def tree_try_def
  obtain r1 st1 where 1: "transferFromGasHolder env st (BurntFundsActorAddr env) h (BaseFeeBurn out) = Some (r1, st1)"
      "case r1 of Inl e \<Rightarrow> reads env ent st st1 | Inr h' \<Rightarrow> 0 \<le> BaseFeeBurn out \<and> Balance h' = Balance h - BaseFeeBurn out \<and> paid env ent st h st1 h'"
      "caches_of (snaps st1) = caches_of (snaps st)" "\<forall>h'. r1 = Inr h' \<longrightarrow> cur ent st1 = credit (cur ent st) (BurntFundsActorAddr env) (BaseFeeBurn out)"
    using tr [OF assms(2) ids(1) assms(4), of "BaseFeeBurn out"] id [OF e(8)] by blast
  show ?thesis
  proof (cases r1)
    case (Inl x)
    then show ?thesis using 1 failed [OF _ assms(4)] by (auto simp: d)
  next
    case (Inr h1)
    note d = d 1(1) Inr
    have p1: "paid env ent st h st1 h1" "vm_inv env ent st1" "0 \<le> Balance h1" using 1(2) Inr by (auto simp: paid_def writes_def)
    obtain r2 st2 where 2: "transferFromGasHolder env st1 (RewardAddress env) h1 (MinerTip out) = Some (r2, st2)"
        "case r2 of Inl e \<Rightarrow> reads env ent st1 st2 | Inr h' \<Rightarrow> 0 \<le> MinerTip out \<and> Balance h' = Balance h1 - MinerTip out \<and> paid env ent st1 h1 st2 h'"
        "caches_of (snaps st2) = caches_of (snaps st1)" "\<forall>h'. r2 = Inr h' \<longrightarrow> cur ent st2 = credit (cur ent st1) (RewardAddress env) (MinerTip out)"
      using tr [OF p1(2) ids(2) p1(3), of "MinerTip out"] id [OF e(9)] by blast
    show ?thesis
    proof (cases r2)
      case (Inl x)
      then show ?thesis using 2 paid_trans [OF p1(1) failed [OF _ p1(3)]] by (auto simp: d)
    next
      case (Inr h2)
      note d = d 2(1) Inr
      have p2: "paid env ent st h st2 h2" "vm_inv env ent st2" "0 \<le> Balance h2"
        using 2(2) Inr paid_trans [OF p1(1), of st2 h2] by (auto simp: paid_def writes_def)
      obtain r3 st3 where 3: "transferFromGasHolder env st2 (BurntFundsActorAddr env) h2 (OverEstimationBurn out) = Some (r3, st3)"
          "case r3 of Inl e \<Rightarrow> reads env ent st2 st3 | Inr h' \<Rightarrow> 0 \<le> OverEstimationBurn out \<and> Balance h' = Balance h2 - OverEstimationBurn out \<and> paid env ent st2 h2 st3 h'"
          "caches_of (snaps st3) = caches_of (snaps st2)"
          "\<forall>h'. r3 = Inr h' \<longrightarrow> cur ent st3 = credit (cur ent st2) (BurntFundsActorAddr env) (OverEstimationBurn out)"
        using tr [OF p2(2) ids(1) p2(3), of "OverEstimationBurn out"] id [OF e(8)] by blast
      show ?thesis
      proof (cases r3)
        case (Inl x)
        then show ?thesis using 3 paid_trans [OF p2(1) failed [OF _ p2(3)]] by (auto simp: d)
      next
        case (Inr h3)
        note d = d 3(1) Inr
        have p3: "paid env ent st h st3 h3" "vm_inv env ent st3" "0 \<le> Balance h3"
          using 3(2) Inr paid_trans [OF p2(1), of st3 h3] by (auto simp: paid_def writes_def)
        obtain r4 st4 where 4: "transferFromGasHolder env st3 (From msg) h3 (Refund out) = Some (r4, st4)"
            "case r4 of Inl e \<Rightarrow> reads env ent st3 st4 | Inr h' \<Rightarrow> 0 \<le> Refund out \<and> Balance h' = Balance h3 - Refund out \<and> paid env ent st3 h3 st4 h'"
            "\<forall>b. resolved (tree env) (snaps st3) (From msg) b \<longrightarrow> (\<forall>h'. r4 = Inr h' \<longrightarrow> cur ent st4 = credit (cur ent st3) b (Refund out))"
          using tr [OF p3(2) assms(3) p3(3), of "Refund out"] by blast
        show ?thesis
        proof (cases r4)
          case (Inl x)
          then show ?thesis using 4 paid_trans [OF p3(1) failed [OF _ p3(3)]] by (auto simp: d)
        next
          case (Inr h4)
          have p4: "paid env ent st h st4 h4" using 4(2) Inr paid_trans [OF p3(1)] by auto
          have c: "caches_of (snaps st3) = caches_of (snaps st)" using 1(3) 2(3) 3(3) by simp
          have v: "cur ent st4 = pay_fees env out fid (cur ent st)" if "resolved (tree env) (snaps st) (From msg) fid" for fid
          proof -
            have "resolved (tree env) (snaps st3) (From msg) fid" using that unfolding resolved_caches [OF c] .
            then have "cur ent st4 = credit (cur ent st3) fid (Refund out)" using 4(3) Inr by blast
            then show ?thesis using 3(4) \<open>r3 = Inr h3\<close> 2(4) \<open>r2 = Inr h2\<close> 1(4) \<open>r1 = Inr h1\<close> by (simp add: pay_fees_def)
          qed
          have "Balance h4 = Balance h - (BaseFeeBurn out + MinerTip out + OverEstimationBurn out + Refund out)"
            using 1(2) 2(2) 3(2) 4(2) Inr \<open>r1 = Inr h1\<close> \<open>r2 = Inr h2\<close> \<open>r3 = Inr h3\<close> by simp
          then show ?thesis using 4(1) Inr p4 v by (cases "Balance h4 = 0") (auto simp: d)
        qed
      qed
    qed
  qed
qed


lemma paid_stays:
  assumes "paid env ent st h st' h'"
  shows "stays env ent st st'"
proof -
  obtain v where "writes env ent st v st'" using assms unfolding paid_def by blast
  then show ?thesis by (simp add: stays_def writes_def)
qed

section \<open>The end of a message\<close>

lemma resolved_Snapshot: "resolved T (snaps (Snapshot st)) a b = resolved T (snaps st) a b"
  by (simp add: resolved_def cached_def Snapshot_def addLayer_def newStateSnapLayer_def)

lemma ShouldBurn_ok:
  assumes "vm_env_ok env ent" "vm_inv env ent st"
  shows "\<exists>r st'. ShouldBurn env msg c st = Some (r, st') \<and> reads env ent st st' \<and> (c \<noteq> 0 \<longrightarrow> r = Inr True \<and> st' = st)"
proof (cases "c = 0 \<and> Method msg = SubmitWindowedPoSt env")
  case True
  obtain r st' where "GetActor (tree env) st (To msg) = Some (r, st')" "reads env ent st st'"
    using GetActor_reads [OF assms, of "To msg"] by (elim exE conjE)
  then show ?thesis using True by (cases r) (auto simp: ShouldBurn_def tree_try_def)
next
  case False
  then show ?thesis using reads_refl [OF assms(2)] by (auto simp: ShouldBurn_def)
qed

lemma chargeGasSafe_error:
  assumes "vm_env_ok env ent" "chargeGasSafe env gas rt st = Some (Inr (Some e), rt', st')"
  shows "retCode e \<noteq> 0"
  using assms vm_env_okD(6) [OF assms(1), of SysErrOutOfGas]
  by (auto simp: chargeGasSafe_def Let_def Newf_def split: if_splits)

text \<open>What \<open>send\<close> returned is charged for; the error that decides is the one of the call or of this charge.\<close>

lemma return_charge:
  assumes "vm_env_ok env ent" "rt_ok env rt" "res_ok g (ret, err)" "\<not> IsFatal err"
  shows "\<exists>err' rt'. (if ret \<noteq> [] then chargeGasSafe env (OnChainReturnValue (pricelist rt) (int (length ret))) rt st
      else Some (Inr err, rt, st)) = Some (Inr err', rt', st) \<and> rt_step env g rt rt' \<and> (RetCode err' = 0 \<longleftrightarrow> err' = None)"
proof (cases "ret = []")
  case True
  then show ?thesis using assms(2-4) by (cases err) (auto simp: rt_step_refl IsFatal_def RetCode_def aerr_ok_def)
next
  case False
  have g: "g \<Longrightarrow> charge_ok (OnChainReturnValue pricelist0 (int (length ret)))"
    using assms(3) by (intro charge_ok_sizes(2)) simp_all
  have pl: "pricelist rt = pricelist0" using assms(2) by (simp add: rt_ok_def)
  obtain e rt' where c: "chargeGasSafe env (OnChainReturnValue pricelist0 (int (length ret))) rt st = Some (Inr e, rt', st)" "rt_step env g rt rt'"
    using charge_step [OF assms(2), of g "OnChainReturnValue pricelist0 (int (length ret))" st] g by blast
  have "RetCode e = 0 \<longleftrightarrow> e = None" using c(1) chargeGasSafe_error [OF assms(1)] by (cases e) (auto simp: RetCode_def)
  then show ?thesis using False pl c by simp
qed

text \<open>
  The result of a message that was executed: the fees follow from the gas used, an error means a non-zero exit
  code, and then only the fees change what was there before the message.
\<close>

definition executed ::
  "('h, 's, 'i) vm_env \<Rightarrow> Message \<Rightarrow> ApplyRet \<Rightarrow> bool" where
  "executed env msg ret \<longleftrightarrow> (\<exists>burn. GasCosts ret = Some (ComputeGasOutputs (GasUsed ret) (GasLimit msg) (baseFee env)
      (the (GasFeeCap msg)) (the (GasPremium msg)) burn)) \<and> 0 \<le> GasUsed ret \<and> (ExitCode ret = 0 \<longleftrightarrow> ActorErr ret = None)"

definition fees_ok :: "('h, 's, 'i) vm_env \<Rightarrow> Message \<Rightarrow> bool" where
  "fees_ok env msg \<longleftrightarrow> GasLimit msg < 2 ^ 59 \<and> 0 \<le> baseFee env \<and> 0 \<le> the (GasFeeCap msg) \<and> 0 \<le> the (GasPremium msg)"

lemma finish_message_ok:
  assumes "vm_env_ok env ent" "vm_inv env ent st0" "keeps env ent (Snapshot st0) st" "From msg \<noteq> Undef (tree env)" "0 \<le> Balance h"
    and "res_ok g r" "rt_ok env rt"
  shows "\<exists>q st'. finish_message env msg h r rt st = Some (Inr q, st') \<and> stays env ent (Snapshot st0) st' \<and>
    total_of (cur ent st') \<le> total_of (cur ent st0) + Balance h \<and>
    (\<forall>ret. q = Inr ret \<longrightarrow> executed env msg ret \<and>
      (\<forall>fid. ExitCode ret \<noteq> 0 \<and> resolved (tree env) (snaps st0) (From msg) fid \<longrightarrow>
        cur ent st' = pay_fees env (the (GasCosts ret)) fid (cur ent st0))) \<and>
    (g \<and> gas_ok rt \<and> gasAvailable rt = GasLimit msg \<and> fees_ok env msg \<and> Balance h = GasLimit msg * the (GasFeeCap msg) \<longrightarrow>
      q \<noteq> Inl ''gas handling math is wrong'' \<and> (\<forall>ret. q = Inr ret \<longrightarrow> GasUsed ret \<le> GasLimit msg))"
proof -
  obtain ret err where r: "r = (ret, err)" by fastforce
  have k: "stays env ent (Snapshot st0) st" "total_of (cur ent st) \<le> total_of (cur ent st0)"
    using assms(3) Snapshot_inv(2) [OF assms(2)] by (simp_all add: keeps_stays)
  show ?thesis
  proof (cases "IsFatal err")
    case True
    then show ?thesis using k assms(5) r by (simp add: finish_message_def)
  next
    case False
    obtain err' rt' where c: "(if ret \<noteq> [] then chargeGasSafe env (OnChainReturnValue (pricelist rt) (int (length ret))) rt st
        else Some (Inr err, rt, st)) = Some (Inr err', rt', st)" "rt_step env g rt rt'" "RetCode err' = 0 \<longleftrightarrow> err' = None"
      using return_charge [OF assms(1,7) assms(6) [unfolded r] False] by blast
    have nr: "\<not> (err \<noteq> None \<and> ret \<noteq> [])" using assms(6) r by auto
    obtain st1 where 1: "(if RetCode err' \<noteq> 0 then Revert st else Some st) = Some st1" "keeps env ent (Snapshot st0) st1"
        "RetCode err' \<noteq> 0 \<Longrightarrow> cur ent st1 = cur ent st0 \<and> caches_of (snaps st1) = caches_of (snaps (Snapshot st0))"
    proof (cases "RetCode err' \<noteq> 0")
      case True
      obtain st2 where "Revert st = Some st2" "keeps env ent (Snapshot st0) st2" "cur ent st2 = cur ent st0"
          "caches_of (snaps st2) = caches_of (snaps (Snapshot st0))"
        using revert_keeps [OF assms(2,3)] unfolding caches_of_def by blast
      then show thesis using that [of st2] True by simp
    qed (use that [of st] assms(3) in simp)
    have t1: "total_of (cur ent st1) \<le> total_of (cur ent st0)" "stays env ent (Snapshot st0) st1"
      using 1(2) Snapshot_inv(2) [OF assms(2)] by (simp_all add: keeps_stays)
    obtain b st2 where 2: "ShouldBurn env msg (RetCode err') st1 = Some (b, st2)" "reads env ent st1 st2"
        "RetCode err' \<noteq> 0 \<longrightarrow> b = Inr True \<and> st2 = st1"
      using ShouldBurn_ok [OF assms(1) keeps_inv(1) [OF 1(2)]] by blast
    have s2: "stays env ent (Snapshot st0) st2" "cur ent st2 = cur ent st1"
      using t1(2) 2(2) by (simp_all add: stays_def reads_def)
    define used where "used = (if gasUsed rt' < 0 then 0 else gasUsed rt')"
    have d: "finish_message env msg h r rt st = (case b of
        Inl _ \<Rightarrow> Some (Inr (Inl ''deciding whether should burn failed''), st2)
      | Inr burn \<Rightarrow>
          let out = ComputeGasOutputs used (GasLimit msg) (baseFee env) (the (GasFeeCap msg)) (the (GasPremium msg)) burn in
          (case settle env msg h out st2 of
             None \<Rightarrow> None
           | Some (Inl e, st) \<Rightarrow> Some (Inr (Inl e), st)
           | Some (Inr _, st) \<Rightarrow> Some (Inr (Inr \<lparr>ExitCode = RetCode err', Return_bytes = (if err' \<noteq> None then [] else ret),
               GasUsed = used, ActorErr = err', GasCosts = Some out\<rparr>), st)))"
      unfolding finish_message_def r prod.case if_not_P [OF False] if_not_P [OF nr] c(1) option.case sum.case Let_def 1(1) 2(1) used_def
      by (rule refl)
    show ?thesis
    proof (cases b)
      case (Inl e)
      then show ?thesis using s2 t1(1) assms(5) by (simp add: d)
    next
      case (Inr burn)
      define out where "out = ComputeGasOutputs used (GasLimit msg) (baseFee env) (the (GasFeeCap msg)) (the (GasPremium msg)) burn"
      obtain q st3 h' where 3: "settle env msg h out st2 = Some (q, st3)" "paid env ent st2 h st3 h'"
          "q = Inl ''gas handling math is wrong'' \<longrightarrow> BaseFeeBurn out + MinerTip out + OverEstimationBurn out + Refund out \<noteq> Balance h"
          "\<forall>fid. resolved (tree env) (snaps st2) (From msg) fid \<and> q = Inr () \<longrightarrow> cur ent st3 = pay_fees env out fid (cur ent st2)"
        using settle_ok [OF assms(1) keeps_inv(2) [OF 2(2)] assms(4,5), of out] by (elim exE conjE)
      have s3: "stays env ent (Snapshot st0) st3" "total_of (cur ent st3) \<le> total_of (cur ent st0) + Balance h"
        using s2 paid_stays [OF 3(2)] t1(1) 3(2) by (auto simp: stays_def paid_def)
      have fees: "cur ent st3 = pay_fees env out fid (cur ent st0)"
        if "RetCode err' \<noteq> 0" "resolved (tree env) (snaps st0) (From msg) fid" "q = Inr ()" for fid
      proof -
        have c: "caches_of (snaps st2) = caches_of (snaps (Snapshot st0))" "cur ent st2 = cur ent st0" using 1(3) 2(3) that(1) by auto
        have "resolved (tree env) (snaps st2) (From msg) fid" unfolding resolved_caches [OF c(1)] resolved_Snapshot by (rule that(2))
        then show ?thesis using 3(4) that(3) c(2) by simp
      qed
      have gas: "used \<le> GasLimit msg \<and> BaseFeeBurn out + MinerTip out + OverEstimationBurn out + Refund out = GasLimit msg * the (GasFeeCap msg)"
        if "g" "gas_ok rt" "gasAvailable rt = GasLimit msg" "fees_ok env msg"
      proof -
        have u: "0 \<le> used" "used \<le> GasLimit msg" "GasLimit msg < 2 ^ 59"
          using that c(2) by (auto simp: rt_step_def gas_ok_def used_def)
        then show ?thesis
          using gas_outputs_split [OF u, of "baseFee env" "the (GasFeeCap msg)" "the (GasPremium msg)" burn] that(4)
          unfolding out_def Let_def fees_ok_def by linarith
      qed
      have u0: "0 \<le> used" "\<exists>burn. out = ComputeGasOutputs used (GasLimit msg) (baseFee env) (the (GasFeeCap msg)) (the (GasPremium msg)) burn"
        unfolding out_def by (auto simp: used_def)
      show ?thesis
      proof (cases q)
        case (Inl e)
        then show ?thesis using 3(1,3) s3 gas \<open>b = Inr burn\<close> by (auto simp: d Let_def out_def [symmetric])
      next
        case (Inr x)
        then show ?thesis
          using 3(1) s3 gas fees c(3) u0 \<open>b = Inr burn\<close> by (auto simp: d Let_def out_def [symmetric] executed_def)
      qed
    qed
  qed
qed


lemma execute_message_ok:
  assumes "vm_env_ok env ent" "vm_inv env ent st" "From msg \<noteq> Undef (tree env)" "0 \<le> Balance h"
    and "g \<longrightarrow> sane_code env \<and> charge_ok msgGas"
  shows "\<exists>q st'. execute_message env msg msgGas h st = Some (q, st') \<and> stays env ent st st' \<and>
    total_of (cur ent st') \<le> total_of (cur ent st) + Balance h \<and>
    (\<forall>ret. q = Inr (Inr ret) \<longrightarrow> executed env msg ret \<and>
      (\<forall>fid. ExitCode ret \<noteq> 0 \<and> resolved (tree env) (snaps st) (From msg) fid \<longrightarrow>
        cur ent st' = pay_fees env (the (GasCosts ret)) fid (cur ent st))) \<and>
    (g \<and> 0 \<le> GasLimit msg \<and> fees_ok env msg \<and> Balance h = GasLimit msg * the (GasFeeCap msg) \<longrightarrow>
      q \<noteq> Inr (Inl ''gas handling math is wrong'') \<and> (\<forall>ret. q = Inr (Inr ret) \<longrightarrow> GasUsed ret \<le> GasLimit msg)) \<and>
    (resolvable env msg (Snapshot st) \<and> Value msg \<noteq> None \<longrightarrow> \<not> isl q)"
proof -
  note i = Snapshot_inv [OF assms(2)]
  have sc: "g \<longrightarrow> sane_code env" "\<forall>c. g \<and> Some msgGas = Some c \<longrightarrow> charge_ok c" using assms(5) by auto
  obtain r sub st1 where s: "send env msg None (Some msgGas) (Snapshot st) = Some (r, sub, st1)" "keeps env ent (Snapshot st) st1"
      "outcome (res_ok g) r"
      "\<forall>s. sub = Some s \<longrightarrow> gasAvailable s = GasLimit msg \<and> rt_ok env s \<and> (g \<and> start_gas msg None \<longrightarrow> gas_ok s)"
      "sub = None \<longrightarrow> isl r" "resolvable env msg (Snapshot st) \<and> Value msg \<noteq> None \<longrightarrow> \<not> isl r"
    using send_ok [where g = g and gc = "Some msgGas" and msg = msg, OF assms(1) i(1) sc] by (elim exE conjE)
  show ?thesis
  proof (cases r)
    case (Inl p)
    obtain st2 where "ClearSnapshot st1 = Some st2" "keeps env ent st st2" using clear_keeps [OF assms(2) s(2)] by blast
    then show ?thesis using s Inl assms(4) by (auto simp: execute_message_def keeps_stays)
  next
    case (Inr x)
    then obtain rt where rt: "sub = Some rt" using s(5) by (cases sub) auto
    have ro: "res_ok g x" "rt_ok env rt" "gasAvailable rt = GasLimit msg" using s(3,4) Inr rt by auto
    obtain q st2 where f: "finish_message env msg h x rt st1 = Some (Inr q, st2)" "stays env ent (Snapshot st) st2"
        "total_of (cur ent st2) \<le> total_of (cur ent st) + Balance h"
        "\<forall>ret. q = Inr ret \<longrightarrow> executed env msg ret \<and>
          (\<forall>fid. ExitCode ret \<noteq> 0 \<and> resolved (tree env) (snaps st) (From msg) fid \<longrightarrow>
            cur ent st2 = pay_fees env (the (GasCosts ret)) fid (cur ent st))"
        "g \<and> gas_ok rt \<and> gasAvailable rt = GasLimit msg \<and> fees_ok env msg \<and> Balance h = GasLimit msg * the (GasFeeCap msg) \<longrightarrow>
          q \<noteq> Inl ''gas handling math is wrong'' \<and> (\<forall>ret. q = Inr ret \<longrightarrow> GasUsed ret \<le> GasLimit msg)"
      using finish_message_ok [OF assms(1,2) s(2) assms(3,4) ro(1,2)] by (elim exE conjE)
    obtain st3 where c: "ClearSnapshot st2 = Some st3" "stays env ent st st3" "cur ent st3 = cur ent st2"
      using clear_stays [OF assms(2) f(2)] by blast
    have "g \<and> 0 \<le> GasLimit msg \<and> fees_ok env msg \<longrightarrow> gas_ok rt"
      using s(4) rt by (auto simp: start_gas_def fees_ok_def)
    moreover have "execute_message env msg msgGas h st = Some (Inr q, st3)"
      using s(1) Inr rt f(1) c(1) by (simp add: execute_message_def)
    ultimately show ?thesis using c f(3-5) ro(3) by auto
  qed
qed

section \<open>Applying a message\<close>

text \<open>The sender \<open>a\<close> may pay for the message.\<close>

definition sender_ok :: "('h, 's, 'i) vm_env \<Rightarrow> Message \<Rightarrow> Actor \<Rightarrow> bool" where
  "sender_ok env msg a \<longleftrightarrow> Code a = AccountActorCodeID env \<and> msg_Nonce msg = Nonce a \<and> GasLimit msg * the (GasFeeCap msg) \<le> Balance a"

definition charged :: "Message \<Rightarrow> Actor \<Rightarrow> Actor" where
  "charged msg a = a\<lparr>Balance := Balance a - GasLimit msg * the (GasFeeCap msg), Nonce := Nonce a + 1\<rparr>"

lemma transferToGasHolder_ok:
  assumes "vm_env_ok env ent" "vm_inv env ent st" "a \<noteq> Undef (tree env)" "resolved (tree env) (snaps st) a b" "cur ent st b = Some x"
    and "0 \<le> amt" "amt \<le> Balance x"
  shows "\<exists>st'. transferToGasHolder env st a h amt = Some (Inr (depositFunds h amt), st') \<and>
    writes env ent st ((cur ent st)(b \<mapsto> x\<lparr>Balance := Balance x - amt\<rparr>)) st' \<and> resolved (tree env) (snaps st') a b"
proof -
  define F where "F = (\<lambda>act. case deductFunds act amt of None \<Rightarrow> Inl (ErrMsg ''not enough funds'') | Some act \<Rightarrow> Inr (act, depositFunds h amt))"
  have "(\<lambda>st a. case deductFunds a amt of None \<Rightarrow> (Inl (ErrMsg ''not enough funds''), st)
      | Some a \<Rightarrow> (Inr (a, depositFunds h amt), st)) = (\<lambda>(st :: ('a, 'b) StateTree) a. (F a, st))"
    by (auto simp: F_def fun_eq_iff split: option.splits)
  then have eq: "transferToGasHolder env st a h amt = MutateActor (tree env) st a (\<lambda>st a. (F a, st))"
    using assms(6) by (simp add: transferToGasHolder_def)
  have pos: "\<forall>act act' y. F act = Inr (act', y) \<longrightarrow> 0 \<le> Balance act \<longrightarrow> 0 \<le> Balance act'"
    by (auto simp: F_def deductFunds_def split: option.splits if_splits)
  have Fx: "F x = Inr (x\<lparr>Balance := Balance x - amt\<rparr>, depositFunds h amt)" using assms(7) by (simp add: F_def deductFunds_def)
  obtain r st' where m: "MutateActor (tree env) st a (\<lambda>st act. (F act, st)) = Some (r, st')"
      "case r of Inl e \<Rightarrow> reads env ent st st'
       | Inr y \<Rightarrow> (\<exists>b act act'. resolved (tree env) (snaps st') a b \<and> cur ent st b = Some act \<and> F act = Inr (act', y) \<and>
           writes env ent st ((cur ent st)(b \<mapsto> act')) st')"
      "\<forall>b. resolved (tree env) (snaps st) a b \<longrightarrow> caches_of (snaps st') = caches_of (snaps st) \<and>
         (case cur ent st b of None \<Rightarrow> isl r | Some act \<Rightarrow> r = map_sum id snd (F act))"
    using MutateActor_full [OF assms(1-3) pos] by (elim exE conjE)
  have r: "r = Inr (depositFunds h amt)" "caches_of (snaps st') = caches_of (snaps st)" using m(3) assms(4,5) Fx by auto
  have res: "resolved (tree env) (snaps st') a b" unfolding resolved_caches [OF r(2)] by (rule assms(4))
  obtain c act act' where c: "resolved (tree env) (snaps st') a c" "cur ent st c = Some act" "F act = Inr (act', depositFunds h amt)"
      "writes env ent st ((cur ent st)(c \<mapsto> act')) st'" using m(2) r(1) by auto
  have "c = b" using c(1) res by (auto simp: resolved_def split: if_splits)
  then show ?thesis using m(1) r(1) c assms(5) Fx res eq by auto
qed

lemma incrementNonce_ok:
  assumes "vm_env_ok env ent" "vm_inv env ent st" "a \<noteq> Undef (tree env)" "resolved (tree env) (snaps st) a b" "cur ent st b = Some x"
  shows "\<exists>st'. incrementNonce env st a = Some (Inr (), st') \<and>
    writes env ent st ((cur ent st)(b \<mapsto> x\<lparr>Nonce := Nonce x + 1\<rparr>)) st' \<and> resolved (tree env) (snaps st') a b"
proof -
  define F :: "Actor \<Rightarrow> state_err + Actor \<times> unit" where "F = (\<lambda>a. Inr (a\<lparr>Nonce := Nonce a + 1\<rparr>, ()))"
  have eq: "incrementNonce env st a = MutateActor (tree env) st a (\<lambda>st a. (F a, st))" by (simp add: incrementNonce_def F_def)
  have pos: "\<forall>act act' y. F act = Inr (act', y) \<longrightarrow> 0 \<le> Balance act \<longrightarrow> 0 \<le> Balance act'" by (auto simp: F_def)
  obtain r st' where m: "MutateActor (tree env) st a (\<lambda>st act. (F act, st)) = Some (r, st')"
      "case r of Inl e \<Rightarrow> reads env ent st st'
       | Inr y \<Rightarrow> (\<exists>b act act'. resolved (tree env) (snaps st') a b \<and> cur ent st b = Some act \<and> F act = Inr (act', y) \<and>
           writes env ent st ((cur ent st)(b \<mapsto> act')) st')"
      "\<forall>b. resolved (tree env) (snaps st) a b \<longrightarrow> caches_of (snaps st') = caches_of (snaps st) \<and>
         (case cur ent st b of None \<Rightarrow> isl r | Some act \<Rightarrow> r = map_sum id snd (F act))"
    using MutateActor_full [OF assms(1-3) pos] by (elim exE conjE)
  have r: "r = Inr ()" "caches_of (snaps st') = caches_of (snaps st)" using m(3) assms(4,5) by (auto simp: F_def)
  have res: "resolved (tree env) (snaps st') a b" unfolding resolved_caches [OF r(2)] by (rule assms(4))
  obtain c act act' where c: "resolved (tree env) (snaps st') a c" "cur ent st c = Some act" "F act = Inr (act', ())"
      "writes env ent st ((cur ent st)(c \<mapsto> act')) st'" using m(2) r(1) by auto
  have "c = b" using c(1) res by (auto simp: resolved_def split: if_splits)
  then show ?thesis using m(1) r(1) c assms(5) res eq by (auto simp: F_def)
qed


lemma checkMessage_None:
  "checkMessage msg = None \<longleftrightarrow> 0 < GasLimit msg \<and> GasFeeCap msg \<noteq> None \<and> GasPremium msg \<noteq> None \<and> Value msg \<noteq> None"
  by (auto simp: checkMessage_def)

abbreviation msg_gas :: "int \<Rightarrow> GasCharge" where
  "msg_gas len \<equiv> OnChainMessage pricelist0 len"

abbreviation max_fee :: "Message \<Rightarrow> int" where
  "max_fee msg \<equiv> GasLimit msg * the (GasFeeCap msg)"

text \<open>
  A message is refused or gives an error before anything is done (\<open>idle\<close>), or is executed after its sender was
  charged (\<open>charged_run\<close>).
\<close>

definition admitted :: "('h, 's, 'i) vm_env \<Rightarrow> ('h \<Rightarrow> view) \<Rightarrow> Message \<Rightarrow> int \<Rightarrow> ('h, 's) StateTree \<Rightarrow> address \<Rightarrow> Actor \<Rightarrow> bool" where
  "admitted env ent msg len st fid a \<longleftrightarrow> checkMessage msg = None \<and> Total (msg_gas len) \<le> GasLimit msg \<and> From msg \<noteq> Undef (tree env) \<and>
     (\<exists>st'. LookupID (tree env) st (From msg) = Some (Inr fid, st')) \<and> cur ent st fid = Some a \<and> sender_ok env msg a"

definition idle :: "('h, 's, 'i) vm_env \<Rightarrow> ('h \<Rightarrow> view) \<Rightarrow> Message \<Rightarrow> int \<Rightarrow> ('h, 's) StateTree \<Rightarrow> bool" where
  "idle env ent msg len st \<longleftrightarrow> (\<exists>r st'. ApplyMessage env msg len st = Some (Inr r, st') \<and> reads env ent st st' \<and>
     r \<noteq> Inl ''gas handling math is wrong'' \<and> (\<forall>ret. r = Inr ret \<longrightarrow> GasUsed ret = 0 \<and> 0 < GasLimit msg) \<and>
     (0 \<le> the (GasFeeCap msg) \<longrightarrow> \<not> (\<exists>fid a. admitted env ent msg len st fid a)))"

definition charged_run :: "('h, 's, 'i) vm_env \<Rightarrow> ('h \<Rightarrow> view) \<Rightarrow> Message \<Rightarrow> int \<Rightarrow> ('h, 's) StateTree \<Rightarrow> bool" where
  "charged_run env ent msg len st \<longleftrightarrow> (\<exists>fid a st'. admitted env ent msg len st fid a \<and> 0 \<le> max_fee msg \<and>
     ApplyMessage env msg len st = execute_message env msg (msg_gas len) (depositFunds zero_actor (max_fee msg)) st' \<and>
     writes env ent st ((cur ent st)(fid \<mapsto> charged msg a)) st' \<and> resolved (tree env) (snaps st') (From msg) fid)"

lemma idleI:
  assumes "ApplyMessage env msg len st = Some (Inr r, st')" "reads env ent st st'" "r \<noteq> Inl ''gas handling math is wrong''"
    and "\<forall>ret. r = Inr ret \<longrightarrow> GasUsed ret = 0 \<and> 0 < GasLimit msg" "\<forall>fid a. admitted env ent msg len st fid a \<longrightarrow> the (GasFeeCap msg) < 0"
  shows "idle env ent msg len st"
  using assms unfolding idle_def by (metis linorder_not_le)

lemma ApplyMessage_charged:
  assumes "vm_env_ok env ent" "vm_inv env ent st" "admitted env ent msg len st fid a" "0 \<le> max_fee msg"
    and "GetActor (tree env) st (From msg) = Some (Inr a, st1)" "reads env ent st st1" "resolved (tree env) (snaps st1) (From msg) fid"
  shows "charged_run env ent msg len st"
proof -
  have f: "From msg \<noteq> Undef (tree env)" "cur ent st1 = cur ent st" "cur ent st1 fid = Some a"
    using assms(3,6) by (simp_all add: admitted_def reads_def)
  have t: "checkMessage msg = None" "\<not> Total (msg_gas len) > GasLimit msg" "Code a = AccountActorCodeID env" "msg_Nonce msg = Nonce a"
    "\<not> Balance a < max_fee msg" using assms(3) by (auto simp: admitted_def sender_ok_def)
  obtain st3 where 3: "transferToGasHolder env st1 (From msg) zero_actor (max_fee msg) = Some (Inr (depositFunds zero_actor (max_fee msg)), st3)"
      "writes env ent st1 ((cur ent st1)(fid \<mapsto> a\<lparr>Balance := Balance a - max_fee msg\<rparr>)) st3" "resolved (tree env) (snaps st3) (From msg) fid"
    using transferToGasHolder_ok [OF assms(1) keeps_inv(2) [OF assms(6)] f(1) assms(7) f(3) assms(4), of zero_actor] t(5) by auto
  obtain st4 where 4: "incrementNonce env st3 (From msg) = Some (Inr (), st4)"
      "writes env ent st3 ((cur ent st3)(fid \<mapsto> a\<lparr>Balance := Balance a - max_fee msg, Nonce := Nonce a + 1\<rparr>)) st4"
      "resolved (tree env) (snaps st4) (From msg) fid"
    using incrementNonce_ok [OF assms(1) writes_cur(2) [OF 3(2)] f(1) 3(3), of "a\<lparr>Balance := Balance a - max_fee msg\<rparr>"] writes_cur(1) [OF 3(2)]
    by auto
  have "writes env ent st ((cur ent st)(fid \<mapsto> charged msg a)) st4"
    using writes_trans [OF writes_trans [OF reads_writes [OF assms(6)] 3(2)] 4(2)] writes_cur(1) [OF 3(2)] f(2)
    by (simp add: charged_def)
  moreover have "ApplyMessage env msg len st = execute_message env msg (msg_gas len) (depositFunds zero_actor (max_fee msg)) st4"
    using t assms(5) 3(1) 4(1) by (simp add: ApplyMessage_def Let_def tree_try_def)
  ultimately show ?thesis using assms(3,4) 4(3) unfolding charged_run_def by blast
qed

lemma ApplyMessage_cases:
  assumes "vm_env_ok env ent" "vm_inv env ent st"
  shows "idle env ent msg len st \<or> charged_run env ent msg len st"
proof (cases "checkMessage msg = None \<and> Total (msg_gas len) \<le> GasLimit msg")
  case False
  have "idle env ent msg len st"
    by (rule idleI [where r = "case checkMessage msg of Some e \<Rightarrow> Inl e | None \<Rightarrow>
        Inr (refused (xcode env SysErrOutOfGas) None (baseFee env * Total (msg_gas len)))" and st' = st])
      (use False reads_refl [OF assms(2)] in \<open>auto simp: ApplyMessage_def Let_def refused_def checkMessage_def admitted_def split: option.splits if_splits\<close>)
  then show ?thesis ..
next
  case True
  then have t: "checkMessage msg = None" "\<not> Total (msg_gas len) > GasLimit msg" by auto
  have lim: "0 < GasLimit msg" using t(1) by (simp add: checkMessage_None)
  show ?thesis
  proof (cases "From msg = Undef (tree env)")
    case True
    have "idle env ent msg len st"
      by (rule idleI [where r = "Inl ''failed to look up from actor''" and st' = st])
        (use t True reads_refl [OF assms(2)] in \<open>auto simp: ApplyMessage_def Let_def tree_try_def GetActor_Undef admitted_def\<close>)
    then show ?thesis ..
  next
    case False
    obtain q st1 where g: "GetActor (tree env) st (From msg) = Some (q, st1)" "reads env ent st st1"
      "\<forall>x. q = Inr x \<longrightarrow> (\<exists>b st2. LookupID (tree env) st (From msg) = Some (Inr b, st2) \<and> resolved (tree env) (snaps st1) (From msg) b \<and> cur ent st b = Some x)"
      "\<forall>b st2. LookupID (tree env) st (From msg) = Some (Inr b, st2) \<longrightarrow> q = actor_of (cur ent st) b"
      using GetActor_full [OF assms False] by (elim exE conjE)
    note d = ApplyMessage_def Let_def tree_try_def t g(1)
    have adm: "q = Inr a" if "admitted env ent msg len st fid a" for fid a
      using that g(4) by (auto simp: admitted_def actor_of_def)
    show ?thesis
    proof (cases q)
      case (Inl e)
      have "idle env ent msg len st"
        by (rule idleI [where r = "if Is_ErrActorNotFound e then Inr (refused (xcode env SysErrSenderInvalid)
            (Some (Newf (xcode env SysErrSenderInvalid) ''actor not found'')) (baseFee env * GasLimit msg)) else Inl ''failed to look up from actor''"
            and st' = st1])
          (use adm g(2) Inl lim in \<open>auto simp: d refused_def\<close>)
      then show ?thesis ..
    next
      case (Inr a)
      then obtain fid st2 where f: "LookupID (tree env) st (From msg) = Some (Inr fid, st2)" "resolved (tree env) (snaps st1) (From msg) fid"
        "cur ent st fid = Some a" using g(3) by blast
      show ?thesis
      proof (cases "sender_ok env msg a")
        case bad: False
        then have "\<exists>c e. ApplyMessage env msg len st = Some (Inr (Inr (refused c e (baseFee env * GasLimit msg))), st1)"
          by (auto simp: d Inr sender_ok_def)
        then obtain c e where "ApplyMessage env msg len st = Some (Inr (Inr (refused c e (baseFee env * GasLimit msg))), st1)" by blast
        moreover have "\<not> admitted env ent msg len st b x" for b x using adm [of b x] Inr bad by (auto simp: admitted_def)
        ultimately have "idle env ent msg len st" using lim by (intro idleI [OF _ g(2)]) (auto simp: refused_def)
        then show ?thesis ..
      next
        case True
        then have s: "Code a = AccountActorCodeID env" "msg_Nonce msg = Nonce a" "\<not> Balance a < max_fee msg" by (auto simp: sender_ok_def)
        show ?thesis
        proof (cases "0 \<le> max_fee msg")
          case False
          then have "the (GasFeeCap msg) < 0" using t(1) unfolding checkMessage_None by (meson linorder_not_le mult_nonneg_nonneg order_less_imp_le)
          then have "idle env ent msg len st"
            using idleI [OF _ g(2), of msg len "Inl ''failed to withdraw gas funds''"] False s by (simp add: d Inr transferToGasHolder_def)
          then show ?thesis ..
        next
          case pos: True
          have "admitted env ent msg len st fid a" using t False f True by (auto simp: admitted_def)
          then show ?thesis using ApplyMessage_charged [OF assms _ pos g(1) [unfolded Inr] g(2) f(2)] by blast
        qed
      qed
    qed
  qed
qed

end
