(* ===== verification/VM_Depth.thy ===== *)
theory VM_Depth
  imports VM_Apply
begin

text \<open>
  The depth of nested messages: \<open>send_fuel\<close> with more levels gives the same result wherever it gives one
  (\<open>send_fuel_mono\<close>). With the bound on the call depth (theory \<open>VM_Calls\<close>) this makes the number of levels in
  \<open>send\<close> immaterial.
\<close>

section \<open>More defined operations\<close>

definition below :: "('h, 's, 'a) rtm \<Rightarrow> ('h, 's, 'a) rtm \<Rightarrow> bool" where
  "below m m' \<longleftrightarrow> (\<forall>rt st. m rt st = None \<or> m rt st = m' rt st)"

definition send_below :: "('h, 's) send_fun \<Rightarrow> ('h, 's) send_fun \<Rightarrow> bool" where
  "send_below f f' \<longleftrightarrow> (\<forall>msg parent gc st. f msg parent gc st = None \<or> f msg parent gc st = f' msg parent gc st)"

named_theorems below_intros

lemma below_refl [below_intros]: "below m m"
  by (simp add: below_def)

lemma below_bind [below_intros]:
  assumes "below m m'" "\<And>x. below (f x) (f' x)"
  shows "below (rt_bind m f) (rt_bind m' f')"
  unfolding below_def
proof (intro allI)
  fix rt st
  show "rt_bind m f rt st = None \<or> rt_bind m f rt st = rt_bind m' f' rt st"
  proof (cases "m rt st")
    case (Some r)
    then have "m' rt st = Some r" using assms(1) by (metis below_def option.distinct(1))
    with Some assms(2) show ?thesis
      by (auto simp: rt_bind_def below_def split: prod.splits sum.splits)
  qed (simp add: rt_bind_def)
qed

lemma below_strict:
  assumes "\<forall>rt st. m rt st = None \<or> m rt st = m' rt st"
  shows "below (\<lambda>rt st. case_option None (k rt st) (m rt st)) (\<lambda>rt st. case_option None (k rt st) (m' rt st))"
  unfolding below_def using assms by (metis option.simps(4))

lemma below_deferred [below_intros]: "below m m' \<Longrightarrow> below (deferred d m) (deferred d m')"
  unfolding deferred_def below_def [of m m'] by (rule below_strict)

lemma below_shimCall [below_intros]: "below m m' \<Longrightarrow> below (shimCall env m) (shimCall env m')"
  unfolding shimCall_def by (rule below_strict, fold below_def) (intro below_bind below_refl)

lemma below_if [below_intros]: "(b \<Longrightarrow> below m m') \<Longrightarrow> (\<not> b \<Longrightarrow> below n n') \<Longrightarrow> below (if b then m else n) (if b then m' else n')"
  by simp

lemma below_cases [below_intros]:
  "below n n' \<Longrightarrow> (\<And>x. below (f x) (f' x)) \<Longrightarrow> below (case z of None \<Rightarrow> n | Some x \<Rightarrow> f x) (case z of None \<Rightarrow> n' | Some x \<Rightarrow> f' x)"
  "(\<And>x. below (g x) (g' x)) \<Longrightarrow> (\<And>x. below (h x) (h' x)) \<Longrightarrow>
    below (case s of Inl x \<Rightarrow> g x | Inr x \<Rightarrow> h x) (case s of Inl x \<Rightarrow> g' x | Inr x \<Rightarrow> h' x)"
  "(\<And>x y. below (k x y) (k' x y)) \<Longrightarrow> below (case p of (x, y) \<Rightarrow> k x y) (case p of (x, y) \<Rightarrow> k' x y)"
  by (simp_all split: option.splits sum.splits prod.splits)

section \<open>The functions that send\<close>

lemma below_internalSend [below_intros]:
  assumes "send_below f f'"
  shows "below (internalSend f from to method value params) (internalSend f' from to method value params)"
  unfolding internalSend_def Let_def
  by (rule below_strict) (use assms in \<open>simp add: send_below_def\<close>)

lemma below_Send [below_intros]: "send_below f f' \<Longrightarrow> below (Send env f to method m value u) (Send env f' to method m value u)"
  unfolding Send_def by (intro below_intros | assumption | simp only: split: option.splits)+

lemma below_run_op [below_intros]: "send_below f f' \<Longrightarrow> below (run_op env f op) (run_op env f' op)"
  by (cases op) (auto simp: run_op_def intro!: below_intros)

lemma below_StateTransaction [below_intros]:
  "(\<And>x. below (f x) (f' x)) \<Longrightarrow> below (StateTransaction env u f) (StateTransaction env u f')"
  unfolding StateTransaction_def by (intro below_intros | assumption)+

lemma below_run_prog [below_intros]: "send_below f f' \<Longrightarrow> below (run_prog env f p) (run_prog env f' p)"
  by (induction p) (auto intro!: below_intros)

lemma below_Invoke [below_intros]: "send_below f f' \<Longrightarrow> below (Invoke env f act method params) (Invoke env f' act method params)"
  unfolding Invoke_def areg_Invoke_def by (intro below_intros | assumption)+

lemma below_create [below_intros]:
  "send_below f f' \<Longrightarrow> below (TryCreateAccountActor env f addr) (TryCreateAccountActor env f' addr)"
  unfolding TryCreateAccountActor_def call_constructor_def by (intro below_intros | assumption)+

lemma below_send_body [below_intros]: "send_below f f' \<Longrightarrow> below (send_body env f msg gc) (send_body env f' msg gc)"
  unfolding send_body_def find_receiver_def invoke_method_def by (intro below_intros | assumption)+

lemma send_below_step:
  assumes "send_below f f'"
  shows "send_below (send_step env f) (send_step env f')"
  unfolding send_below_def
proof (intro allI)
  fix msg parent gc st
  have b: "send_body env f msg gc rt s = None \<or> send_body env f msg gc rt s = send_body env f' msg gc rt s" for rt s
    using below_send_body [OF assms, of env msg gc] by (simp add: below_def)
  show "send_step env f msg parent gc st = None \<or> send_step env f msg parent gc st = send_step env f' msg parent gc st"
  proof (cases "makeRuntime env msg parent st")
    case (Some r)
    obtain q s where r: "r = (q, s)" by (cases r)
    show ?thesis
    proof (cases q)
      case (Inr rt)
      with Some r b [of rt s] show ?thesis by (auto simp: send_step_def)
    qed (simp add: send_step_def Some r)
  qed (simp add: send_step_def)
qed

lemma send_fuel_mono: "n \<le> k \<Longrightarrow> send_below (send_fuel env n) (send_fuel env k)"
proof (induction n arbitrary: k)
  case (Suc n)
  then obtain k' where "k = Suc k'" "n \<le> k'" by (metis Suc_le_D Suc_le_mono)
  with send_below_step [OF Suc.IH] show ?case by simp
qed (simp add: send_below_def)

end
