(* ===== verification/VM_Safety.thy ===== *)
theory VM_Safety
  imports VM_Messages VM_Depth
begin

text \<open>
  The properties of the virtual machine: applying a message ends and keeps the state sound, no message creates
  tokens, a message that fails changes nothing but the fees, gas stays within its limit, and a plain transfer
  moves exactly its value. All but the bound on gas hold for any actor code. The witnesses run messages on a
  small chain with two accounts.
\<close>

section \<open>All messages\<close>

text \<open>Resolving an address fails only because it is not known.\<close>

definition init_readable :: "('h, 's, 'i) vm_env \<Rightarrow> ('h \<Rightarrow> view) \<Rightarrow> ('h, 's) StateTree \<Rightarrow> bool" where
  "init_readable env ent st \<longleftrightarrow>
    (\<forall>a e. init_resolve (tree env) (Store st) (cur ent st) a = Inl e \<longrightarrow> Is_ErrActorNotFound e)"

lemma init_resolve_charged:
  "v fid = Some a \<Longrightarrow> init_resolve T s (v(fid \<mapsto> charged msg a)) x = init_resolve T s v x"
  by (cases "fid = InitAddress T") (simp_all add: init_resolve_def init_Load_def charged_def)

lemma charged_total:
  assumes "vm_inv env ent st" "cur ent st fid = Some a"
  shows "total_of ((cur ent st)(fid \<mapsto> charged msg a)) + max_fee msg = total_of (cur ent st)"
  using total_upd [OF vm_inv_cur(2) [OF assms(1)], of fid "charged msg a"] assms(2) by (simp add: bal_at_def charged_def)

lemma charged_resolvable:
  assumes "vm_env_ok env ent" "vm_inv env ent st" "init_readable env ent st" "cur ent st fid = Some a"
    and "writes env ent st ((cur ent st)(fid \<mapsto> charged msg a)) st1" "resolved (tree env) (snaps st1) (From msg) fid"
  shows "resolvable env msg (Snapshot st1)"
proof -
  note s = Snapshot_inv [OF writes_cur(2) [OF assms(5)]]
  obtain st2 where l: "LookupID (tree env) (Snapshot st1) (From msg) = Some (Inr fid, st2)" "reads env ent (Snapshot st1) st2"
    using resolved_LookupID [OF assms(1) s(1)] assms(6) unfolding resolved_Snapshot by blast
  have v: "cur ent st2 = (cur ent st)(fid \<mapsto> charged msg a)" "Store st2 = Store st"
    using l(2) s(2,4) assms(5) by (simp_all add: reads_def writes_def)
  have "Is_ErrActorNotFound e" if "LookupID (tree env) st2 (To msg) = Some (Inl e, st3)" for e st3
  proof -
    obtain r st4 where r: "LookupID (tree env) st2 (To msg) = Some (r, st4)"
      "r = (if Is_ID (tree env) (To msg) then Inr (To msg) else case cached (snaps st2) (To msg) of
           Some b \<Rightarrow> Inr b | None \<Rightarrow> init_resolve (tree env) (Store st2) (cur ent st2) (To msg))"
      using LookupID_reads [OF assms(1) keeps_inv(2) [OF l(2)], of "To msg"] by (elim exE conjE)
    then have "init_resolve (tree env) (Store st) (cur ent st) (To msg) = Inl e"
      using that init_resolve_charged [of "cur ent st" fid a "tree env" "Store st" msg "To msg", OF assms(4)] v
      by (auto split: if_splits option.splits)
    then show ?thesis using assms(3) by (simp add: init_readable_def)
  qed
  then show ?thesis using l(1) by (auto simp: resolvable_def)
qed

text \<open>Everything at once; \<open>g\<close> says whether gas is followed.\<close>

lemma ApplyMessage_ok:
  assumes "vm_env_ok env ent" "vm_inv env ent st" "g \<longrightarrow> sane_code env \<and> charge_ok (msg_gas len)"
  shows "\<exists>r st'. ApplyMessage env msg len st = Some (r, st') \<and> vm_inv env ent st' \<and> tl (tviews ent st') = tl (tviews ent st) \<and>
    total_of (cur ent st') \<le> total_of (cur ent st) \<and>
    (init_readable env ent st \<longrightarrow> \<not> isl r) \<and>
    (\<forall>fid a ret. admitted env ent msg len st fid a \<and> 0 \<le> the (GasFeeCap msg) \<and> r = Inr (Inr ret) \<longrightarrow> executed env msg ret \<and>
      (ExitCode ret \<noteq> 0 \<longrightarrow> cur ent st' = pay_fees env (the (GasCosts ret)) fid ((cur ent st)(fid \<mapsto> charged msg a)))) \<and>
    (g \<and> fees_ok env msg \<longrightarrow> r \<noteq> Inr (Inl ''gas handling math is wrong'') \<and>
      (\<forall>ret. r = Inr (Inr ret) \<longrightarrow> 0 \<le> GasUsed ret \<and> GasUsed ret \<le> GasLimit msg))"
proof (cases "idle env ent msg len st")
  case True
  then obtain r st' where i: "ApplyMessage env msg len st = Some (Inr r, st')" "reads env ent st st'" "r \<noteq> Inl ''gas handling math is wrong''"
      "\<forall>ret. r = Inr ret \<longrightarrow> GasUsed ret = 0 \<and> 0 < GasLimit msg" "0 \<le> the (GasFeeCap msg) \<longrightarrow> \<not> (\<exists>fid a. admitted env ent msg len st fid a)"
    unfolding idle_def by blast
  then show ?thesis by (auto simp: reads_def)
next
  case False
  then have "charged_run env ent msg len st" using ApplyMessage_cases [OF assms(1,2)] by blast
  then obtain fid a st1 where c: "admitted env ent msg len st fid a" "0 \<le> max_fee msg"
      "ApplyMessage env msg len st = execute_message env msg (msg_gas len) (depositFunds zero_actor (max_fee msg)) st1"
      "writes env ent st ((cur ent st)(fid \<mapsto> charged msg a)) st1" "resolved (tree env) (snaps st1) (From msg) fid"
    unfolding charged_run_def by blast
  have a: "cur ent st fid = Some a" "From msg \<noteq> Undef (tree env)" "0 < GasLimit msg" "Value msg \<noteq> None"
    using c(1) by (auto simp: admitted_def checkMessage_None)
  have h: "Balance (depositFunds zero_actor (max_fee msg)) = max_fee msg" by (simp add: depositFunds_def zero_actor_def)
  obtain q st' where x: "execute_message env msg (msg_gas len) (depositFunds zero_actor (max_fee msg)) st1 = Some (q, st')"
      "stays env ent st1 st'" "total_of (cur ent st') \<le> total_of (cur ent st1) + max_fee msg"
      "\<forall>ret. q = Inr (Inr ret) \<longrightarrow> executed env msg ret \<and>
        (\<forall>fid. ExitCode ret \<noteq> 0 \<and> resolved (tree env) (snaps st1) (From msg) fid \<longrightarrow>
          cur ent st' = pay_fees env (the (GasCosts ret)) fid (cur ent st1))"
      "g \<and> 0 \<le> GasLimit msg \<and> fees_ok env msg \<longrightarrow> q \<noteq> Inr (Inl ''gas handling math is wrong'') \<and>
        (\<forall>ret. q = Inr (Inr ret) \<longrightarrow> GasUsed ret \<le> GasLimit msg)"
      "resolvable env msg (Snapshot st1) \<and> Value msg \<noteq> None \<longrightarrow> \<not> isl q"
    using execute_message_ok [OF assms(1) writes_cur(2) [OF c(4)] a(2), where h = "depositFunds zero_actor (max_fee msg)" and g = g
        and msgGas = "msg_gas len"] assms(3) c(2) unfolding h by auto
  have v: "cur ent st1 = (cur ent st)(fid \<mapsto> charged msg a)" using c(4) by (rule writes_cur)
  have det: "fid' = fid \<and> a' = a" if "admitted env ent msg len st fid' a'" for fid' a' using that c(1) by (auto simp: admitted_def)
  have "vm_inv env ent st' \<and> tl (tviews ent st') = tl (tviews ent st)" using x(2) c(4) by (simp add: stays_def writes_def)
  moreover have "total_of (cur ent st') \<le> total_of (cur ent st)" using x(3) charged_total [OF assms(2) a(1), of msg] v by simp
  moreover have "init_readable env ent st \<longrightarrow> \<not> isl q" using x(6) charged_resolvable [OF assms(1,2) _ a(1) c(4,5)] a(4) by blast
  moreover have "executed env msg ret \<and> (ExitCode ret \<noteq> 0 \<longrightarrow> cur ent st' = pay_fees env (the (GasCosts ret)) fid' ((cur ent st)(fid' \<mapsto> charged msg a')))"
    if "admitted env ent msg len st fid' a'" "q = Inr (Inr ret)" for fid' a' ret
    using x(4) that(2) det [OF that(1)] c(5) v by auto
  moreover have "0 \<le> GasUsed ret" if "q = Inr (Inr ret)" for ret using x(4) that by (auto simp: executed_def)
  ultimately show ?thesis unfolding c(3) using x(1,5) a(3) by auto
qed


section \<open>A plain transfer\<close>

text \<open>The sender pays if the balance allows it; otherwise nothing happens.\<close>

definition moved :: "view \<Rightarrow> address \<Rightarrow> Actor \<Rightarrow> address \<Rightarrow> Actor \<Rightarrow> int \<Rightarrow> view" where
  "moved v fid f to t amt =
    (if amt \<le> Balance f then v(fid \<mapsto> f\<lparr>Balance := Balance f - amt\<rparr>, to \<mapsto> t\<lparr>Balance := Balance t + amt\<rparr>) else v)"

definition transfer_err :: "('h, 's, 'i) vm_env \<Rightarrow> Actor \<Rightarrow> int \<Rightarrow> actorError option" where
  "transfer_err env f amt =
    (if amt \<le> Balance f then None else Some (Newf (xcode env SysErrInsufficientFunds) ''transfer failed when deducting funds''))"

lemma transfer_exact:
  assumes "vm_env_ok env ent" "vm_inv env ent st" "resolved (tree env) (snaps st) from fid" "Is_ID (tree env) fid" "Is_ID (tree env) to"
    and "fid \<noteq> to" "cur ent st fid = Some f" "cur ent st to = Some t" "0 \<le> amt"
  shows "\<exists>st'. transfer env from to amt st = Some (transfer_err env f amt, st') \<and>
    writes env ent st (moved (cur ent st) fid f to t amt) st' \<and>
    caches_of (snaps st') = caches_of (snaps st)"
proof -
  have ne: "from \<noteq> to" using assms(3,5,6) by (auto simp: resolved_def)
  have id: "resolved (tree env) ss a a" if "Is_ID (tree env) a" for ss a using that by (simp add: resolved_def)
  have nu: "fid \<noteq> Undef (tree env)" "to \<noteq> Undef (tree env)" using assms(4,5) vm_env_okD(4) [OF assms(1)] by auto
  obtain st1 where 1: "LookupID (tree env) st from = Some (Inr fid, st1)" "reads env ent st st1" "caches_of (snaps st1) = caches_of (snaps st)"
    using resolved_LookupID [OF assms(1-3)] by blast
  obtain st2 where 2: "GetActor (tree env) st1 fid = Some (actor_of (cur ent st1) fid, st2)" "reads env ent st1 st2"
      "caches_of (snaps st2) = caches_of (snaps st1)"
    using GetActor_full [OF assms(1) keeps_inv(2) [OF 1(2)] nu(1)] id [OF assms(4)] by metis
  obtain st3 where 3: "GetActor (tree env) st2 to = Some (actor_of (cur ent st2) to, st3)" "reads env ent st2 st3"
      "caches_of (snaps st3) = caches_of (snaps st2)"
    using GetActor_full [OF assms(1) keeps_inv(2) [OF 2(2)] nu(2)] id [OF assms(5)] by metis
  have v: "cur ent st1 = cur ent st" "cur ent st2 = cur ent st" "cur ent st3 = cur ent st"
    using 1(2) 2(2) 3(2) by (simp_all add: reads_def)
  have r3: "writes env ent st (cur ent st) st3" using reads_writes [OF reads_trans [OF reads_trans [OF 1(2) 2(2)] 3(2)]] .
  show ?thesis
  proof (cases "amt \<le> Balance f")
    case True
    have t: "0 \<le> Balance (depositFunds t amt)" using vm_inv_cur(1) [OF assms(2)] assms(8,9) by (simp add: bal_ok_def depositFunds_def)
    obtain st4 where 4: "SetActor (tree env) st3 fid (f\<lparr>Balance := Balance f - amt\<rparr>) = Some (Inr (), st4)"
        "writes env ent st3 ((cur ent st)(fid \<mapsto> f\<lparr>Balance := Balance f - amt\<rparr>)) st4" "caches_of (snaps st4) = caches_of (snaps st3)"
      using SetActor_resolved [OF assms(1) keeps_inv(2) [OF 3(2)] id [OF assms(4)], of "f\<lparr>Balance := Balance f - amt\<rparr>"] v True by auto
    obtain st5 where 5: "SetActor (tree env) st4 to (depositFunds t amt) = Some (Inr (), st5)"
        "writes env ent st4 ((cur ent st)(fid \<mapsto> f\<lparr>Balance := Balance f - amt\<rparr>, to \<mapsto> depositFunds t amt)) st5"
        "caches_of (snaps st5) = caches_of (snaps st4)"
      using SetActor_resolved [OF assms(1) writes_cur(2) [OF 4(2)] id [OF assms(5)] t] writes_cur(1) [OF 4(2)] by auto
    have "writes env ent st (moved (cur ent st) fid f to t amt) st5"
      using writes_trans [OF writes_trans [OF r3 4(2)] 5(2)] True by (simp add: moved_def depositFunds_def)
    moreover have "transfer env from to amt st = Some (transfer_err env f amt, st5)"
      using ne 1(1) LookupID_id [OF assms(5), of st1] 2(1) 3(1) 4(1) 5(1) v assms(6-9) True
      by (simp add: transfer_def Let_def tree_try_def actor_of_def deductFunds_def transfer_err_def)
    ultimately show ?thesis using 1(3) 2(3) 3(3) 4(3) 5(3) by simp
  next
    case False
    have "transfer env from to amt st = Some (transfer_err env f amt, st3)"
      using ne 1(1) LookupID_id [OF assms(5), of st1] 2(1) 3(1) v assms(6-9) False
      by (simp add: transfer_def Let_def tree_try_def actor_of_def deductFunds_def transfer_err_def)
    then show ?thesis using r3 False 1(3) 2(3) 3(3) by (simp add: moved_def)
  qed
qed

lemma charge_exact:
  assumes "0 \<le> gasUsed rt" "charge_ok c" "gasUsed rt + Total c \<le> gasAvailable rt" "gasAvailable rt < 2 ^ 59"
  shows "chargeGasSafe env c rt st = Some (Inr None, rt\<lparr>gasUsed := gasUsed rt + Total c\<rparr>, st)"
proof -
  have "in_int64 (gasAvailable rt - Total c)" "in_int64 (gasUsed rt + Total c)" using assms by (simp_all add: in_int64_def charge_ok_def)
  then show ?thesis using assms(3) by (simp add: chargeGasSafe_def)
qed

lemma Total_zero [simp]: "Total (newGasCharge n 0 0) = 0" "Total gasOnActorExec = 0"
  by (simp_all add: Total_def newGasCharge_def gasOnActorExec_def in_int64_def)

abbreviation invoke_gas :: "int \<Rightarrow> int" where
  "invoke_gas v \<equiv> Total (OnMethodInvocation pricelist0 v 0)"

abbreviation send_err :: "('h, 's, 'i) vm_env \<Rightarrow> Actor \<Rightarrow> int \<Rightarrow> actorError option" where
  "send_err env f v \<equiv> map_option (\<lambda>e. aerr_Wrap e ''failed to transfer funds'') (transfer_err env f v)"

lemma plain_send:
  assumes "vm_env_ok env ent" "vm_inv env ent st" "resolved (tree env) (snaps st) (From msg) fid" "Is_ID (tree env) fid" "Is_ID (tree env) (To msg)"
    and "fid \<noteq> To msg" "cur ent st fid = Some f" "cur ent st (To msg) = Some t" "Value msg = Some v" "0 < v" "Method msg = 0"
    and "charge_ok c" "Total c + invoke_gas v \<le> GasLimit msg" "GasLimit msg < 2 ^ 59"
  shows "\<exists>rt st'. send env msg None (Some c) st = Some (Inr ([], send_err env f v), Some rt, st') \<and>
    writes env ent st (moved (cur ent st) fid f (To msg) t v) st' \<and>
    caches_of (snaps st') = caches_of (snaps st) \<and> gasUsed rt = Total c + invoke_gas v"
proof -
  have id: "resolved (tree env) ss (To msg) (To msg)" for ss using assms(5) by (simp add: resolved_def)
  have nu: "To msg \<noteq> Undef (tree env)" using assms(5) vm_env_okD(4) [OF assms(1)] by auto
  have e: "send env = send_step env (send_fuel env (MaxCallDepth + 1))"
    unfolding send_def by (metis add_Suc_right one_add_one plus_1_eq_Suc send_fuel.simps(2))
  obtain st1 where 1: "LookupID (tree env) st (From msg) = Some (Inr fid, st1)" "reads env ent st st1" "caches_of (snaps st1) = caches_of (snaps st)"
    using resolved_LookupID [OF assms(1-3)] by blast
  define rt where "rt = \<lparr>rt_msg = msg\<lparr>From := fid, To := To msg\<rparr>, origin = From msg, originNonce = msg_Nonce msg, height = blockHeight env,
                   gasAvailable = GasLimit msg, gasUsed = 0, depth = 0, numActorsCreated = 0, pricelist = pricelist0,
                   allowInternal = True, callerValidated = False\<rparr>"
  have m: "makeRuntime env msg None st = Some (Inr rt, st1)"
    using ResolveAddress_eq [OF 1(1)] ResolveAddress_eq [OF LookupID_id [OF assms(5)]]
    by (simp add: makeRuntime_def Let_def rt_def)
  obtain st2 where 2: "GetActor (tree env) st1 (To msg) = Some (actor_of (cur ent st1) (To msg), st2)" "reads env ent st1 st2"
      "caches_of (snaps st2) = caches_of (snaps st1)"
    using GetActor_full [OF assms(1) keeps_inv(2) [OF 1(2)] nu] id by metis
  have s2: "reads env ent st st2" "cur ent st1 = cur ent st" "cur ent st2 = cur ent st" "caches_of (snaps st2) = caches_of (snaps st)"
    using reads_trans [OF 1(2) 2(2)] 1 2 by (simp_all add: reads_def)
  have r2: "resolved (tree env) (snaps st2) (From msg) fid" unfolding resolved_caches [OF s2(4)] by (rule assms(3))
  obtain st3 where 3: "transfer env (From msg) (To msg) v st2 = Some (transfer_err env f v, st3)"
      "writes env ent st2 (moved (cur ent st) fid f (To msg) t v) st3"
      "caches_of (snaps st3) = caches_of (snaps st2)"
    using transfer_exact [OF assms(1) keeps_inv(2) [OF s2(1)] r2 assms(4-6), of f t v] s2(3) assms(7,8,10) by auto
  have g: "0 \<le> Total c" "0 \<le> invoke_gas v" using assms(12) charge_ok_prices(3) [of v 0] by (simp_all only: charge_ok_def)
  define rt2 where "rt2 = rt\<lparr>gasUsed := Total c + invoke_gas v\<rparr>"
  have c1: "chargeGasSafe env c rt s = Some (Inr None, rt\<lparr>gasUsed := Total c\<rparr>, s)" for s
    using charge_exact [of rt c env s] assms(12-14) g by (simp add: rt_def)
  have c0: "chargeGasSafe env (newGasCharge n 0 0) (rt\<lparr>gasUsed := u\<rparr>) s = Some (Inr None, rt\<lparr>gasUsed := u\<rparr>, s)"
    if "0 \<le> u" "u \<le> GasLimit msg" for n s u
    using charge_exact [of "rt\<lparr>gasUsed := u\<rparr>" "newGasCharge n 0 0" env s] that assms(14) by (simp add: rt_def)
  have c2: "chargeGasSafe env (OnMethodInvocation pricelist0 v 0) (rt\<lparr>gasUsed := Total c\<rparr>) s = Some (Inr None, rt2, s)" for s
    using charge_exact [of "rt\<lparr>gasUsed := Total c\<rparr>" "OnMethodInvocation pricelist0 v 0" env s] assms(13,14) g charge_ok_prices(3) [of v 0]
    by (simp add: rt_def rt2_def)
  have inner: "invoke_method env N msg t (rt\<lparr>gasUsed := Total c\<rparr>) st2 = Some (Inr ([], send_err env f v), rt2, st3)" for N
    using assms(9-11) c2 3(1) c0 [of "Total c + invoke_gas v" "''OnMethodInvocationDone''" st3] g assms(13)
    by (cases "transfer_err env f v") (simp_all add: invoke_method_def rt_bind_def rt_get_def deferred_def on_tree_def rt_return_def rt_def rt2_def)
  have "send_body env N msg (Some c) rt st1 = Some (Inr ([], send_err env f v), rt2, st3)" for N
    using c1 c0 [of "Total c" "''OnGetActor''" st1] g assms(13) 2(1) s2(2) assms(8) inner
    by (simp add: send_body_def find_receiver_def rt_bind_def on_tree_def rt_return_def actor_of_def)
  then have "send env msg None (Some c) st = Some (Inr ([], send_err env f v), Some rt2, st3)" unfolding e using m by (simp add: send_step_def)
  moreover have "writes env ent st (moved (cur ent st) fid f (To msg) t v) st3"
    using writes_trans [OF reads_writes [OF s2(1)] 3(2)] .
  ultimately show ?thesis using 3(3) s2(4) by (simp add: rt2_def)
qed


lemma transferFromGasHolder_exact:
  assumes "vm_env_ok env ent" "vm_inv env ent st" "a \<noteq> Undef (tree env)" "resolved (tree env) (snaps st) a b" "cur ent st b \<noteq> None"
    and "0 \<le> amt" "amt \<le> Balance h"
  shows "\<exists>h' st'. transferFromGasHolder env st a h amt = Some (Inr h', st') \<and> Balance h' = Balance h - amt \<and>
    writes env ent st (credit (cur ent st) b amt) st' \<and> caches_of (snaps st') = caches_of (snaps st)"
proof (cases "amt = 0")
  case True
  then show ?thesis using reads_writes [OF reads_refl [OF assms(2)]] by (simp add: transferFromGasHolder_def)
next
  case False
  obtain x where x: "cur ent st b = Some x" using assms(5) by blast
  obtain st1 where 1: "GetActor (tree env) st a = Some (Inr x, st1)" "reads env ent st st1" "caches_of (snaps st1) = caches_of (snaps st)"
    using GetActor_full [OF assms(1-3)] assms(4) x by (auto simp: actor_of_def)
  have r: "resolved (tree env) (snaps st1) a b" unfolding resolved_caches [OF 1(3)] by (rule assms(4))
  have v: "cur ent st1 = cur ent st" using 1(2) by (simp add: reads_def)
  have b: "0 \<le> Balance (depositFunds x amt)" using vm_inv_cur(1) [OF assms(2)] x assms(6) by (simp add: bal_ok_def depositFunds_def)
  obtain st2 where 2: "SetActor (tree env) st1 a (depositFunds x amt) = Some (Inr (), st2)"
      "writes env ent st1 ((cur ent st)(b \<mapsto> depositFunds x amt)) st2" "caches_of (snaps st2) = caches_of (snaps st1)"
    using SetActor_resolved [OF assms(1) keeps_inv(2) [OF 1(2)] r b] v by auto
  have "credit (cur ent st) b amt = (cur ent st)(b \<mapsto> depositFunds x amt)" using x by (simp add: credit_def depositFunds_def)
  moreover have "transferFromGasHolder env st a h amt = Some (Inr (h\<lparr>Balance := Balance h - amt\<rparr>), st2)"
    using False assms(6,7) 1(1) 2(1) by (simp add: transferFromGasHolder_def MutateActor_def deductFunds_def)
  ultimately show ?thesis using writes_trans [OF reads_writes [OF 1(2)] 2(2)] 2(3) 1(3) by simp
qed

lemma credit_None [simp]: "credit v b amt c = None \<longleftrightarrow> v c = None"
  by (auto simp: credit_def split: option.splits)

lemma settle_exact:
  assumes "vm_env_ok env ent" "vm_inv env ent st" "From msg \<noteq> Undef (tree env)" "resolved (tree env) (snaps st) (From msg) fid"
    and "cur ent st (BurntFundsActorAddr env) \<noteq> None" "cur ent st (RewardAddress env) \<noteq> None" "cur ent st fid \<noteq> None"
    and "0 \<le> BaseFeeBurn out" "0 \<le> MinerTip out" "0 \<le> OverEstimationBurn out" "0 \<le> Refund out"
    and "BaseFeeBurn out + OverEstimationBurn out + MinerTip out + Refund out = Balance h"
  shows "\<exists>st'. settle env msg h out st = Some (Inr (), st') \<and> writes env ent st (pay_fees env out fid (cur ent st)) st'"
proof -
  note e = vm_env_okD [OF assms(1)]
  have ids: "BurntFundsActorAddr env \<noteq> Undef (tree env)" "RewardAddress env \<noteq> Undef (tree env)" using e(4,8,9) by auto
  have id: "resolved (tree env) ss a a" if "Is_ID (tree env) a" for ss a using that by (simp add: resolved_def)
  note tr = transferFromGasHolder_exact [OF assms(1)]
  obtain h1 st1 where 1: "transferFromGasHolder env st (BurntFundsActorAddr env) h (BaseFeeBurn out) = Some (Inr h1, st1)"
      "Balance h1 = Balance h - BaseFeeBurn out" "writes env ent st (credit (cur ent st) (BurntFundsActorAddr env) (BaseFeeBurn out)) st1"
      "caches_of (snaps st1) = caches_of (snaps st)"
    using tr [OF assms(2) ids(1) id [OF e(8)] assms(5,8), of h] assms(9-12) by auto
  note c1 = writes_cur [OF 1(3)]
  obtain h2 st2 where 2: "transferFromGasHolder env st1 (RewardAddress env) h1 (MinerTip out) = Some (Inr h2, st2)"
      "Balance h2 = Balance h1 - MinerTip out" "writes env ent st1 (credit (cur ent st1) (RewardAddress env) (MinerTip out)) st2"
      "caches_of (snaps st2) = caches_of (snaps st1)"
    using tr [OF c1(2) ids(2) id [OF e(9)] _ assms(9), of h1] assms(6,10-12) 1(2) c1(1) by auto
  note c2 = writes_cur [OF 2(3)]
  obtain h3 st3 where 3: "transferFromGasHolder env st2 (BurntFundsActorAddr env) h2 (OverEstimationBurn out) = Some (Inr h3, st3)"
      "Balance h3 = Balance h2 - OverEstimationBurn out"
      "writes env ent st2 (credit (cur ent st2) (BurntFundsActorAddr env) (OverEstimationBurn out)) st3"
      "caches_of (snaps st3) = caches_of (snaps st2)"
    using tr [OF c2(2) ids(1) id [OF e(8)] _ assms(10), of h2] assms(5,11,12) 1(2) 2(2) c1(1) c2(1) by auto
  note c3 = writes_cur [OF 3(3)]
  have r3: "resolved (tree env) (snaps st3) (From msg) fid"
    using assms(4) unfolding resolved_caches [OF 3(4)] resolved_caches [OF 2(4)] resolved_caches [OF 1(4)] .
  obtain h4 st4 where 4: "transferFromGasHolder env st3 (From msg) h3 (Refund out) = Some (Inr h4, st4)"
      "Balance h4 = Balance h3 - Refund out" "writes env ent st3 (credit (cur ent st3) fid (Refund out)) st4"
    using tr [OF c3(2) assms(3) r3 _ assms(11), of h3] assms(7,12) 1(2) 2(2) 3(2) c1(1) c2(1) c3(1) by auto
  have "settle env msg h out st = Some (Inr (), st4)"
    using 1(1,2) 2(1,2) 3(1,2) 4(1,2) assms(12) by (simp add: settle_def Let_def tree_try_def)
  then show ?thesis
    using writes_trans [OF writes_trans [OF writes_trans [OF 1(3) 2(3)] 3(3)] 4(3)] c1(1) c2(1) c3(1) by (simp add: pay_fees_def)
qed


lemma resolved_ID:
  assumes "vm_inv env ent st" "resolved (tree env) (snaps st) a b"
  shows "Is_ID (tree env) b"
proof (cases "Is_ID (tree env) a")
  case False
  have "cached (snaps st) a = Some b" using assms(2) False by (simp add: resolved_def)
  then have "\<exists>l \<in> set (layers (snaps st)). fmlookup (resolveCache l) a = Some b" using search_layers_mem [of "rev (layers (snaps st))"] by (simp add: cached_def)
  then show ?thesis using assms(1) by (auto simp: vm_inv_def caches_ok_def)
qed (use assms(2) in \<open>simp add: resolved_def\<close>)




text \<open>The receipt and the state of a transfer, and the fees in it.\<close>

definition transfer_gas :: "int \<Rightarrow> int \<Rightarrow> int" where
  "transfer_gas len v = Total (msg_gas len) + invoke_gas v"

definition transfer_fees :: "('h, 's, 'i) vm_env \<Rightarrow> Message \<Rightarrow> int \<Rightarrow> int \<Rightarrow> GasOutputs" where
  "transfer_fees env msg len v =
    ComputeGasOutputs (transfer_gas len v) (GasLimit msg) (baseFee env) (the (GasFeeCap msg)) (the (GasPremium msg)) True"

definition transfer_receipt :: "('h, 's, 'i) vm_env \<Rightarrow> Message \<Rightarrow> int \<Rightarrow> Actor \<Rightarrow> int \<Rightarrow> ApplyRet" where
  "transfer_receipt env msg len a v = \<lparr>ExitCode = (if v \<le> Balance a - max_fee msg then 0 else xcode env SysErrInsufficientFunds),
     Return_bytes = [], GasUsed = transfer_gas len v, ActorErr = send_err env (charged msg a) v, GasCosts = Some (transfer_fees env msg len v)\<rparr>"

lemma transfer_undone:
  assumes "vm_env_ok env ent" "vm_inv env ent st" "0 \<le> v" "writes env ent (Snapshot st) (moved (cur ent st) fid f to t v) st1"
    and "caches_of (snaps st1) = caches_of (snaps (Snapshot st))"
  shows "\<exists>st2. (if RetCode (send_err env f v) \<noteq> 0 then Revert st1 else Some st1) = Some st2 \<and>
    writes env ent (Snapshot st) (moved (cur ent st) fid f to t v) st2 \<and> caches_of (snaps st2) = caches_of (snaps (Snapshot st))"
proof (cases "v \<le> Balance f")
  case True
  then show ?thesis using assms by (simp add: transfer_err_def RetCode_def)
next
  case False
  have "keeps env ent (Snapshot st) st1"
    using assms(4) False Snapshot_inv(2) [OF assms(2)] by (simp add: keeps_def writes_def moved_def)
  then obtain st2 where r: "Revert st1 = Some st2" "keeps env ent (Snapshot st) st2" "cur ent st2 = cur ent st" "Store st2 = Store st1"
      "map resolveCache (layers (snaps st2)) = map resolveCache (layers (snaps (Snapshot st)))"
    using revert_keeps [OF assms(2)] by blast
  have ne: "tviews ent st2 = cur ent st2 # tl (tviews ent st2)" using tviews_ne [of ent st2] by simp
  have "writes env ent (Snapshot st) (cur ent st) st2"
    using r(2,4) assms(4) ne unfolding r(3) by (simp add: keeps_def writes_def)
  moreover have "RetCode (send_err env f v) \<noteq> 0"
    using False vm_env_okD(6) [OF assms(1)] by (simp add: transfer_err_def RetCode_def aerr_Wrap_def Newf_def)
  ultimately show ?thesis using r(1,5) False by (simp add: moved_def caches_of_def)
qed

lemma plain_message:
  assumes "vm_env_ok env ent" "vm_inv env ent st" "admitted env ent msg len st fid a" "fees_ok env msg" "0 \<le> len" "len < 2 ^ 50"
    and "Is_ID (tree env) (To msg)" "To msg \<noteq> fid" "cur ent st (To msg) = Some t" "Method msg = 0" "SubmitWindowedPoSt env \<noteq> 0"
    and "Value msg = Some v" "0 < v" "transfer_gas len v \<le> GasLimit msg"
    and "cur ent st (BurntFundsActorAddr env) \<noteq> None" "cur ent st (RewardAddress env) \<noteq> None"
  shows "\<exists>st'. ApplyMessage env msg len st = Some (Inr (Inr (transfer_receipt env msg len a v)), st') \<and>
    cur ent st' = pay_fees env (transfer_fees env msg len v) fid
      (moved ((cur ent st)(fid \<mapsto> charged msg a)) fid (charged msg a) (To msg) t v) \<and> tl (tviews ent st') = tl (tviews ent st)"
proof -
  have f: "0 \<le> the (GasFeeCap msg)" "GasLimit msg < 2 ^ 59" "0 \<le> baseFee env" "0 \<le> the (GasPremium msg)" using assms(4) by (simp_all add: fees_ok_def)
  have a: "cur ent st fid = Some a" "From msg \<noteq> Undef (tree env)" using assms(3) by (simp_all add: admitted_def)
  have "\<not> idle env ent msg len st" using assms(3) f(1) unfolding idle_def by blast
  then have "charged_run env ent msg len st" using ApplyMessage_cases [OF assms(1,2)] by blast
  then obtain fid' a' st1 where c: "admitted env ent msg len st fid' a'"
      "ApplyMessage env msg len st = execute_message env msg (msg_gas len) (depositFunds zero_actor (max_fee msg)) st1"
      "writes env ent st ((cur ent st)(fid' \<mapsto> charged msg a')) st1" "resolved (tree env) (snaps st1) (From msg) fid'"
    unfolding charged_run_def by blast
  have [simp]: "fid' = fid" "a' = a" using c(1) assms(3) by (auto simp: admitted_def)
  note c3 = writes_cur [OF c(3)] and s = Snapshot_inv [OF writes_cur(2) [OF c(3)]]
  have rs: "resolved (tree env) (snaps (Snapshot st1)) (From msg) fid" using c(4) unfolding resolved_Snapshot by simp
  have ID: "Is_ID (tree env) fid" using resolved_ID [OF c3(2)] c(4) by simp
  let ?h = "depositFunds zero_actor (max_fee msg)" and ?f = "charged msg a"
  define w where "w = moved (cur ent st1) fid ?f (To msg) t v"
  define out where "out = transfer_fees env msg len v"
  have mc: "charge_ok (msg_gas len)" using charge_ok_sizes(3) [OF assms(5,6)] .
  then have g0: "0 \<le> transfer_gas len v" using charge_ok_prices(3) [of v 0] unfolding charge_ok_def transfer_gas_def by linarith
  obtain rt st2 where 2: "send env msg None (Some (msg_gas len)) (Snapshot st1) = Some (Inr ([], send_err env ?f v), Some rt, st2)"
      "writes env ent (Snapshot st1) w st2" "caches_of (snaps st2) = caches_of (snaps (Snapshot st1))" "gasUsed rt = transfer_gas len v"
    using plain_send [OF assms(1) s(1) rs ID assms(7) not_sym [OF assms(8)], of ?f t v "msg_gas len"] assms(8-10,12-14) f(2) mc s(2) c3(1)
    by (auto simp: w_def transfer_gas_def)
  obtain st3 where 3: "(if RetCode (send_err env ?f v) \<noteq> 0 then Revert st2 else Some st2) = Some st3"
      "writes env ent (Snapshot st1) w st3" "caches_of (snaps st3) = caches_of (snaps (Snapshot st1))"
    using transfer_undone [OF assms(1) c3(2) less_imp_le [OF assms(13)] 2(2) [unfolded w_def] 2(3)] unfolding w_def by blast
  have r3: "resolved (tree env) (snaps st3) (From msg) fid" unfolding resolved_caches [OF 3(3)] by (rule rs)
  have o: "0 \<le> BaseFeeBurn out" "0 \<le> MinerTip out" "0 \<le> OverEstimationBurn out" "0 \<le> Refund out"
      "BaseFeeBurn out + OverEstimationBurn out + MinerTip out + Refund out = Balance ?h"
    using gas_outputs_split [OF g0 assms(14) f(2,3,1,4), of True] unfolding out_def transfer_fees_def Let_def
    by (simp_all add: depositFunds_def zero_actor_def)
  have p: "cur ent st3 (BurntFundsActorAddr env) \<noteq> None" "cur ent st3 (RewardAddress env) \<noteq> None" "cur ent st3 fid \<noteq> None"
    using writes_cur(1) [OF 3(2)] assms(15,16) c3(1) by (auto simp: w_def moved_def)
  obtain st4 where 4: "settle env msg ?h out st3 = Some (Inr (), st4)" "writes env ent st3 (pay_fees env out fid w) st4"
    using settle_exact [OF assms(1) writes_cur(2) [OF 3(2)] a(2) r3 p o] writes_cur(1) [OF 3(2)] by auto
  have fat: "\<not> IsFatal (send_err env ?f v)" "RetCode (send_err env ?f v) = (if v \<le> Balance a - max_fee msg then 0 else xcode env SysErrInsufficientFunds)"
    using vm_env_okD(6) [OF assms(1)] by (auto simp: IsFatal_def RetCode_def transfer_err_def aerr_Wrap_def Newf_def charged_def)
  have "ShouldBurn env msg (RetCode (send_err env ?f v)) st3 = Some (Inr True, st3)" using assms(10,11) by (simp add: ShouldBurn_def)
  then have "finish_message env msg ?h ([], send_err env ?f v) rt st2 = Some (Inr (Inr (transfer_receipt env msg len a v)), st4)"
    using 3(1) 4(1) 2(4) g0 fat unfolding finish_message_def Let_def out_def transfer_fees_def transfer_receipt_def by simp
  moreover have "stays env ent (Snapshot st1) st4" using writes_trans [OF 3(2) 4(2)] by (simp add: writes_def stays_def)
  then obtain st5 where 5: "ClearSnapshot st4 = Some st5" "stays env ent st1 st5" "cur ent st5 = cur ent st4"
    using clear_stays [OF c3(2)] by blast
  ultimately have "ApplyMessage env msg len st = Some (Inr (Inr (transfer_receipt env msg len a v)), st5)"
    unfolding c(2) using 2(1) by (simp add: execute_message_def)
  moreover have "cur ent st5 = pay_fees env out fid w" using 5(3) writes_cur(1) [OF 4(2)] by simp
  moreover have "tl (tviews ent st5) = tl (tviews ent st)" using 5(2) c(3) by (simp add: stays_def writes_def)
  ultimately show ?thesis unfolding out_def w_def using c3(1) by auto
qed


section \<open>A sample chain\<close>

text \<open>
  Two accounts, the actor that holds burnt funds and the reward actor. The account code has a constructor (1), a
  method that stores a block (2) and one that aborts (3).
\<close>

definition sample_vm_env :: "(view, address \<rightharpoonup> address, address \<rightharpoonup> address) vm_env" where
  "sample_vm_env = \<lparr>tree = sample_tree_env\<lparr>ResolveAddress := (\<lambda>i a. Inr (case i a of Some b \<Rightarrow> if take 2 b = ''t0'' then Some b else None | None \<Rightarrow> None))\<rparr>,
     Protocol = (\<lambda>a. if take 2 a = ''t0'' then ProtoID else ProtoBLS),
     xcode = (\<lambda>n. case n of SysErrSenderInvalid \<Rightarrow> 1 | SysErrSenderStateInvalid \<Rightarrow> 2 | SysErrInvalidMethod \<Rightarrow> 3 | SysErrReserved1 \<Rightarrow> 4
        | SysErrInvalidReceiver \<Rightarrow> 5 | SysErrInsufficientFunds \<Rightarrow> 6 | SysErrOutOfGas \<Rightarrow> 7 | SysErrForbidden \<Rightarrow> 8 | SysErrorIllegalActor \<Rightarrow> 9
        | SysErrorIllegalArgument \<Rightarrow> 10 | ErrIllegalArgument \<Rightarrow> 16 | ErrIllegalState \<Rightarrow> 20 | ErrSerialization \<Rightarrow> 21),
     ZeroAddress = ''t3zero'', SystemActorAddr = ''t00'', BurntFundsActorAddr = ''t099'', RewardAddress = ''t02'',
     AccountActorCodeID = ''account'', StorageMinerActorCodeID = ''miner'', EmptyObjectCid = ''empty'', Constructor = 1, SubmitWindowedPoSt = 5,
     MarshalAddress = (\<lambda>_. Some []), address_NewActorAddress = (\<lambda>_. Some ''t2new''), account_PubkeyAddress = (\<lambda>_ _. None),
     GetBlock = (\<lambda>_ _. Inr []), PutBlock = (\<lambda>s _. Some (s, ''block'')),
     areg = [''account'' \<mapsto> \<lparr>methods = [None, Some (\<lambda>_. Some (Return RetEmpty [])), Some (\<lambda>_. Some (Do OpValidateImmediateCallerAcceptAny (\<lambda>_.
        Do (OpStorePut (Some [])) (\<lambda>_. Return RetEmpty [])))), Some (\<lambda>_. Some (Abort 16 ''refused''))], actor_version = 3, IsSingletonActor = False\<rparr>],
     blockHeight = 10, baseFee = 2, ntwkVersion = (\<lambda>_. 3), circSupplyCalc = (\<lambda>_ _. Some 1000), randomness = (\<lambda>_ _ _ _. Some []),
     syscalls = (\<lambda>_ _. \<lparr>sys_actors = [], sys_blocks = 0, sys_answer = Some (Some [])\<rparr>)\<rparr>"

definition sample_account :: "int \<Rightarrow> Actor" where
  "sample_account b = \<lparr>Code = ''account'', Head = ''empty'', Nonce = 0, Balance = b\<rparr>"

definition sample_chain :: "(view, address \<rightharpoonup> address) StateTree" where
  "sample_chain = sample_tree\<lparr>root := [''t01'' \<mapsto> init_actor, ''t02'' \<mapsto> sample_account 500, ''t099'' \<mapsto> sample_account 0,
     ''t0100'' \<mapsto> sample_account 20000000, ''t0101'' \<mapsto> sample_account 70]\<rparr>"

definition sample_message :: "int \<Rightarrow> u64 \<Rightarrow> Message" where
  "sample_message v m = \<lparr>To = ''t0101'', From = ''t0100'', msg_Nonce = 0, Value = Some v, GasLimit = 1000000, GasFeeCap = Some 3, GasPremium = Some 1,
     Method = m, Params = []\<rparr>"

lemma sample_vm_env_ok: "vm_env_ok sample_vm_env id"
  unfolding vm_env_ok_def sample_vm_env_def sample_tree_env_def
  by (auto simp: hamt_ok_def init_ok_def resolves_to_ids_def split: exitname.splits option.splits if_splits)

lemma sample_chain_views: "tviews id sample_chain = [root sample_chain, root sample_chain]"
  by (simp add: tviews_def views_def sample_chain_def sample_tree_def newStateSnaps_def addLayer_def newStateSnapLayer_def apply_layer_def fun_eq_iff)

lemma sample_chain_inv: "vm_inv sample_vm_env id sample_chain"
proof -
  have "finite (dom (root sample_chain))" by (simp add: sample_chain_def)
  moreover have "tree_ok sample_chain"
    using snaps_ok_new by (auto simp: tree_ok_def sample_chain_def sample_tree_def newStateSnaps_def addLayer_def)
  moreover have "caches_ok (tree sample_vm_env) (snaps sample_chain)"
    by (simp add: caches_ok_def sample_chain_def sample_tree_def newStateSnaps_def addLayer_def newStateSnapLayer_def)
  moreover have "bal_ok (root sample_chain)" by (auto simp: bal_ok_def sample_chain_def sample_account_def init_actor_def split: if_splits)
  ultimately show ?thesis by (simp add: vm_inv_def sample_chain_views)
qed

lemma sample_prices: "Total (msg_gas 100) = 215663" "0 < v \<Longrightarrow> invoke_gas v = 216405"
  by (simp_all add: Total_def newGasCharge_def in_int64_def OnChainMessage_def OnMethodInvocation_def pricelist0_def Let_def)


lemma sample_readable: "init_readable sample_vm_env id sample_chain"
proof -
  let ?T = "tree sample_vm_env"
  have v: "cur id sample_chain ''t01'' = Some init_actor" by (simp add: sample_chain_views) (simp add: sample_chain_def)
  have T: "InitAddress ?T = ''t01''" "init_Load ?T s init_actor = Inr s" "\<not> isl (ResolveAddress ?T s a)" for s a
    by (simp_all add: init_Load_def init_actor_def sample_vm_env_def sample_tree_env_def)
  have "Is_ErrActorNotFound e" if "init_resolve ?T s (cur id sample_chain) a = Inl e" for s a e
    using that v T(1,2) T(3) [of s a] unfolding init_resolve_def by (cases "ResolveAddress ?T s a") (auto split: option.splits)
  then show ?thesis by (simp add: init_readable_def)
qed

lemma sample_fees: "fees_ok sample_vm_env (sample_message v m)"
  by (simp add: fees_ok_def sample_message_def sample_vm_env_def)

lemma sample_sane: "sane_code sample_vm_env"
  by (auto simp: sane_code_def sample_vm_env_def nth_Cons' short_def marshalled_def split: if_splits)

lemma sample_root: "cur id sample_chain ''t0101'' = Some (sample_account 70)"
  "cur id sample_chain ''t099'' = Some (sample_account 0)" "cur id sample_chain ''t02'' = Some (sample_account 500)"
  by (simp_all add: sample_chain_views) (simp_all add: sample_chain_def)

lemma sample_addresses: "To (sample_message v m) = ''t0101''" "Is_ID (tree sample_vm_env) ''t0101''" "BurntFundsActorAddr sample_vm_env = ''t099''"
  "RewardAddress sample_vm_env = ''t02''" "SubmitWindowedPoSt sample_vm_env = 5"
  by (simp_all add: sample_message_def sample_vm_env_def sample_tree_env_def)

lemma sample_ids: "Is_ID (tree sample_vm_env) ''t0100''" "Undef (tree sample_vm_env) = []"
  by (simp_all add: sample_vm_env_def sample_tree_env_def)

lemma sample_message_simps: "Method (sample_message v m) = m" "Value (sample_message v m) = Some v"
  "GasLimit (sample_message v m) = 1000000"
  by (simp_all add: sample_message_def)

lemma sample_sender: "cur id sample_chain ''t0100'' = Some (sample_account 20000000)"
  by (simp add: sample_chain_views) (simp add: sample_chain_def)

lemma sample_admitted: "admitted sample_vm_env id (sample_message v m) 100 sample_chain ''t0100'' (sample_account 20000000)"
proof -
  have "\<exists>st'. LookupID (tree sample_vm_env) sample_chain ''t0100'' = Some (Inr ''t0100'', st')"
    using LookupID_id [of "tree sample_vm_env" "''t0100''" sample_chain] sample_ids by blast
  moreover have "sender_ok sample_vm_env (sample_message v m) (sample_account 20000000)"
    by (simp add: sender_ok_def sample_message_def sample_account_def sample_vm_env_def)
  moreover have "checkMessage (sample_message v m) = None" "From (sample_message v m) = ''t0100''"
    by (simp_all add: checkMessage_def sample_message_def)
  moreover have "Total (msg_gas 100) \<le> GasLimit (sample_message v m)"
    unfolding sample_prices(1) sample_message_simps by simp
  ultimately show ?thesis unfolding admitted_def using sample_sender sample_ids by simp
qed

lemma sample_gas: "transfer_gas 100 30 = 432068" "0 < v \<Longrightarrow> transfer_gas 100 v \<le> GasLimit (sample_message v m)"
  by (simp_all add: transfer_gas_def sample_prices sample_message_simps)

lemma credit_other: "c \<noteq> b \<Longrightarrow> credit v b amt c = v c"
  by (simp add: credit_def split: option.splits)

lemma sample_transfer:
  assumes "0 < v"
  shows "\<exists>st'. ApplyMessage sample_vm_env (sample_message v 0) 100 sample_chain =
    Some (Inr (Inr (transfer_receipt sample_vm_env (sample_message v 0) 100 (sample_account 20000000) v)), st')"
  using plain_message [OF sample_vm_env_ok sample_chain_inv sample_admitted sample_fees, of v 0 "sample_account 70" v]
    assms sample_root sample_gas(2) [of v 0] by (auto simp: sample_addresses sample_message_simps)

section \<open>Properties\<close>

text \<open>
  C2. Applying a message is safe for any actor code whose methods end by themselves (a method is a finite program over
  the operations of the runtime), however the methods fail and however deep their messages nest: the virtual machine
  returns a receipt or an error, the state tree stays well-formed with no negative balance, and the snapshots the
  caller had are untouched. It does not panic when the init actor can be read. The bound \<open>MaxCallDepth\<close> keeps the
  nesting finite: a recursion of at least \<open>MaxCallDepth + 2\<close> levels always gives a result, and the same one.
\<close>

theorem message_application_safe:
  assumes "vm_env_ok env ent" "vm_inv env ent st"
  shows "(\<exists>r st'. ApplyMessage env msg len st = Some (r, st') \<and> vm_inv env ent st' \<and> tl (tviews ent st') = tl (tviews ent st) \<and>
      (init_readable env ent st \<longrightarrow> \<not> isl r)) \<and>
    (\<forall>n gc. MaxCallDepth + 2 \<le> n \<longrightarrow>
      send_fuel env n msg None gc st \<noteq> None \<and> send_fuel env n msg None gc st = send env msg None gc st)"
proof (intro conjI allI impI)
  show "\<exists>r st'. ApplyMessage env msg len st = Some (r, st') \<and> vm_inv env ent st' \<and> tl (tviews ent st') = tl (tviews ent st) \<and>
      (init_readable env ent st \<longrightarrow> \<not> isl r)"
    using ApplyMessage_ok [OF assms, of False len msg] by blast
  fix n gc assume n: "MaxCallDepth + 2 \<le> n"
  have "send env msg None gc st \<noteq> None" using send_ok [OF assms, of False gc msg] by auto
  then show "send_fuel env n msg None gc st = send env msg None gc st" "send_fuel env n msg None gc st \<noteq> None"
    using send_fuel_mono [OF n, of env] unfolding send_below_def send_def by metis+
qed

theorem message_application_safe_witness:
  "(\<exists>r st'. ApplyMessage sample_vm_env (sample_message 30 2) 100 sample_chain = Some (r, st') \<and> vm_inv sample_vm_env id st' \<and> \<not> isl r) \<and>
   send_fuel sample_vm_env 5000 (sample_message 30 2) None None sample_chain \<noteq> None"
proof -
  have "MaxCallDepth + 2 \<le> 5000" by (simp add: MaxCallDepth_def)
  then show ?thesis
    using message_application_safe [OF sample_vm_env_ok sample_chain_inv, of "sample_message 30 2" 100] sample_readable by blast
qed

text \<open>
  C3. No message creates tokens: after a message, with fees (\<open>ApplyMessage\<close>) or without (\<open>ApplyImplicitMessage\<close>), the
  sum of all balances in the tree is not larger than before and no balance is negative, for any actor code.
\<close>

theorem tokens_not_created:
  assumes "vm_env_ok env ent" "vm_inv env ent st"
  shows "(\<exists>r st'. ApplyMessage env msg len st = Some (r, st') \<and> total_of (cur ent st') \<le> total_of (cur ent st) \<and> bal_ok (cur ent st')) \<and>
    (\<exists>r st'. ApplyImplicitMessage env msg st = Some (r, st') \<and> total_of (cur ent st') \<le> total_of (cur ent st) \<and> bal_ok (cur ent st'))"
proof
  show "\<exists>r st'. ApplyMessage env msg len st = Some (r, st') \<and> total_of (cur ent st') \<le> total_of (cur ent st) \<and> bal_ok (cur ent st')"
    using ApplyMessage_ok [OF assms, of False len msg] vm_inv_cur(1) by blast
  obtain r sub st' where s: "send env msg None None st = Some (r, sub, st')" "keeps env ent st st'"
    using send_ok [OF assms, of False None msg] by blast
  have "\<exists>q. ApplyImplicitMessage env msg st = Some (q, st')"
    using s(1) by (cases r) (auto simp: ApplyImplicitMessage_def split: prod.splits)
  then show "\<exists>r st'. ApplyImplicitMessage env msg st = Some (r, st') \<and> total_of (cur ent st') \<le> total_of (cur ent st) \<and> bal_ok (cur ent st')"
    using s(2) vm_inv_cur(1) by (auto simp: keeps_def)
qed

theorem tokens_not_created_witness:
  "\<exists>r st'. ApplyMessage sample_vm_env (sample_message 30 2) 100 sample_chain = Some (r, st') \<and> total_of (cur id st') \<le> total_of (root sample_chain)"
  using tokens_not_created [OF sample_vm_env_ok sample_chain_inv, of "sample_message 30 2" 100] unfolding sample_chain_views by auto

text \<open>
  C4. A message that fails leaves nothing behind but its fees: when the sender could pay for the message and the
  receipt has a non-zero exit code, the tree is the one before the message with the sender's nonce increased, the
  maximal fee taken and the fees of the receipt paid out, whatever the message and the ones it sent had done.
\<close>

theorem failed_message_pays_only:
  assumes "vm_env_ok env ent" "vm_inv env ent st" "admitted env ent msg len st fid a" "0 \<le> the (GasFeeCap msg)"
    and "ApplyMessage env msg len st = Some (Inr (Inr ret), st')" "ExitCode ret \<noteq> 0"
  shows "cur ent st' = pay_fees env (the (GasCosts ret)) fid ((cur ent st)(fid \<mapsto> charged msg a)) \<and> executed env msg ret"
  using ApplyMessage_ok [OF assms(1,2), of False len msg] assms(3-6) by auto

theorem failed_message_pays_only_witness:
  "\<exists>ret st'. ApplyMessage sample_vm_env (sample_message 18000000 0) 100 sample_chain = Some (Inr (Inr ret), st') \<and> ExitCode ret = 6 \<and>
    cur id st' ''t0101'' = Some (sample_account 70)"
proof -
  let ?m = "sample_message 18000000 0" and ?r = "transfer_receipt sample_vm_env (sample_message 18000000 0) 100 (sample_account 20000000) 18000000"
  obtain st' where a: "ApplyMessage sample_vm_env ?m 100 sample_chain = Some (Inr (Inr ?r), st')"
    using sample_transfer [of 18000000] by auto
  have e: "ExitCode ?r = 6"
    by (simp add: transfer_receipt_def sample_message_def sample_account_def sample_vm_env_def)
  have f: "0 \<le> the (GasFeeCap ?m)" by (simp add: sample_message_def)
  have "cur id st' = pay_fees sample_vm_env (the (GasCosts ?r)) ''t0100'' ((cur id sample_chain)(''t0100'' \<mapsto> charged ?m (sample_account 20000000)))"
    using failed_message_pays_only [OF sample_vm_env_ok sample_chain_inv sample_admitted f a] e by simp
  then have "cur id st' ''t0101'' = Some (sample_account 70)"
    using sample_root by (simp add: pay_fees_def credit_other sample_addresses)
  then show ?thesis using a e by blast
qed

text \<open>
  C8. Gas stays within its limit: with actor code that does not delete actors and charges sensible amounts, and fees
  that are not negative, a receipt has gas used between 0 and the gas limit, and when the machine has paid out all
  fees the gas holder is empty, so it never reports that its gas handling is wrong.
\<close>

theorem gas_within_limit:
  assumes "vm_env_ok env ent" "vm_inv env ent st" "sane_code env" "fees_ok env msg" "0 \<le> len" "len < 2 ^ 50"
  shows "\<exists>r st'. ApplyMessage env msg len st = Some (r, st') \<and> r \<noteq> Inr (Inl ''gas handling math is wrong'') \<and>
    (\<forall>ret. r = Inr (Inr ret) \<longrightarrow> 0 \<le> GasUsed ret \<and> GasUsed ret \<le> GasLimit msg)"
  using ApplyMessage_ok [OF assms(1,2), of True len msg] assms(3,4) charge_ok_sizes(3) [OF assms(5,6)] by auto

theorem gas_within_limit_witness:
  "\<exists>r st'. ApplyMessage sample_vm_env (sample_message 30 2) 100 sample_chain = Some (r, st') \<and>
    (\<forall>ret. r = Inr (Inr ret) \<longrightarrow> 0 \<le> GasUsed ret \<and> GasUsed ret \<le> 1000000)"
  using gas_within_limit [OF sample_vm_env_ok sample_chain_inv sample_sane sample_fees, of 100 30 2] by (auto simp: sample_message_def)

text \<open>
  C9. A plain transfer (method 0 with a positive value to an existing actor other than the sender, given by its ID
  address, with enough gas) moves exactly its value and nothing else but
  the fees: the receipt has exit code 0 and the gas of the message and the transfer, the sender has paid the value and
  the receiver got it. When the sender cannot pay the value besides the maximal fee, the exit code is that of
  insufficient funds and no value moves.
\<close>

theorem plain_transfer:
  assumes "vm_env_ok env ent" "vm_inv env ent st" "admitted env ent msg len st fid a" "fees_ok env msg" "0 \<le> len" "len < 2 ^ 50"
    and "Is_ID (tree env) (To msg)" "To msg \<noteq> fid" "cur ent st (To msg) = Some t" "Method msg = 0" "SubmitWindowedPoSt env \<noteq> 0"
    and "Value msg = Some v" "0 < v" "transfer_gas len v \<le> GasLimit msg"
    and "cur ent st (BurntFundsActorAddr env) \<noteq> None" "cur ent st (RewardAddress env) \<noteq> None"
  shows "\<exists>st'. ApplyMessage env msg len st = Some (Inr (Inr (transfer_receipt env msg len a v)), st') \<and>
    cur ent st' = pay_fees env (transfer_fees env msg len v) fid
      (moved ((cur ent st)(fid \<mapsto> charged msg a)) fid (charged msg a) (To msg) t v) \<and> tl (tviews ent st') = tl (tviews ent st)"
  using assms by (rule plain_message)

theorem plain_transfer_witness:
  "\<exists>ret st'. ApplyMessage sample_vm_env (sample_message 30 0) 100 sample_chain = Some (Inr (Inr ret), st') \<and>
    ExitCode ret = 0 \<and> GasUsed ret = 432068 \<and> cur id st' ''t0101'' = Some (sample_account 100)"
proof -
  obtain st' where a: "ApplyMessage sample_vm_env (sample_message 30 0) 100 sample_chain =
        Some (Inr (Inr (transfer_receipt sample_vm_env (sample_message 30 0) 100 (sample_account 20000000) 30)), st')"
      "cur id st' = pay_fees sample_vm_env (transfer_fees sample_vm_env (sample_message 30 0) 100 30) ''t0100''
        (moved ((cur id sample_chain)(''t0100'' \<mapsto> charged (sample_message 30 0) (sample_account 20000000))) ''t0100''
          (charged (sample_message 30 0) (sample_account 20000000)) ''t0101'' (sample_account 70) 30)"
    using plain_transfer [OF sample_vm_env_ok sample_chain_inv sample_admitted sample_fees, of 30 0 "sample_account 70" 30]
      sample_root sample_gas(2) [of 30 0] by (auto simp: sample_addresses sample_message_simps)
  have "cur id st' ''t0101'' = Some (sample_account 100)"
    unfolding a(2) by (simp add: pay_fees_def credit_other sample_addresses moved_def)
      (simp add: charged_def sample_account_def sample_message_def)
  then show ?thesis using a(1) by (auto simp: transfer_receipt_def sample_account_def sample_message_def sample_gas)
qed

end
