(* ===== verification/Spec2Isabelle.thy ===== *)
theory Spec2Isabelle
  imports Sealing_Samples Sealing_Layout Chain_Gas Fr32_Streams VM_Safety
begin

text \<open>
  Verification of parts of go-epik, a storage node in Go derived from Lotus. The development models the
  sealing pipeline of a storage miner, the bit padding of sector data, and on the chain side the price of
  messages, the state tree and the virtual machine that applies messages. Names of definitions are the names of
  the Go functions; paths below are relative to \<^verbatim>\<open>src/\<close>.

  \<^bold>\<open>How the parts interact.\<close> A deal handed to the sealing component is assigned to an open sector and
  written into it (deal input). The life of a sector is a state machine: \<open>plan\<close> consumes events and
  selects the handler of the new state, the handler calls the node and the sealer and sends the next event.
  The bytes of a piece reach the sector file through the Fr32 padding writer and are read back through the
  unpadding reader. On the chain side the virtual machine applies messages: it runs actor code, which may send
  further messages, on the state tree, whose snapshots undo what a failed message did, and splits the fee of
  the sender by the gas outputs at the base fee of the tipset.

  \<^bold>\<open>Conventions\<close> (theory \<open>Prelude\<close>). \<open>uint64\<close> is \<open>64 word\<close>; \<open>int64\<close> arithmetic that can overflow is wrapped with
  \<open>wrap64\<close>; token amounts are integers. A run-time panic is \<open>None\<close> or a constructor of its own, an error is the
  left side of a sum. Code outside the repository (the node API and the sealer, \<open>abi\<close> sizes, HAMT and block
  store, actor code, \<open>io.Reader\<close> and \<open>io.Writer\<close>, the scheduler of goroutines, the order of map iterations and of equal
  elements after \<^verbatim>\<open>sort.Slice\<close>) is a parameter; what the properties need of it is a named hypothesis, and each witness instantiates it with a concrete function.
  The locales \<open>event_machine\<close> (invariants of event-driven components) and \<open>simulation\<close> (an implementation answers
  as its specification) are interpreted for the sectors, the deal input and the state tree; \<open>chunked\<close> of
  \<open>Fr32_Parallel\<close> for padding and for unpadding.

  \<^bold>\<open>Sealing\<close>, \<^verbatim>\<open>extern/storage-sealing\<close>.
  \<^item> \<open>Sealing_Types\<close>: \<^verbatim>\<open>sector_state.go\<close>, \<^verbatim>\<open>types.go\<close>; \<open>Sealing_Events\<close>: \<^verbatim>\<open>fsm_events.go\<close>, every event with its effect;
    \<open>Sealing_Stats\<close>: \<^verbatim>\<open>stats.go\<close>; \<open>Sealing_FSM\<close>: \<^verbatim>\<open>fsm.go\<close>, every planner, \<open>plan\<close> and the event log;
    \<open>Sealing_Fillers\<close>: \<^verbatim>\<open>utils.go\<close>; \<open>Sector_Padding\<close>: padding and piece lists of \<^verbatim>\<open>ffiwrapper/sealer_cgo.go\<close>.
  \<^item> \<open>Sealing_Checks\<close>: \<^verbatim>\<open>checks.go\<close>, \<^verbatim>\<open>currentdealinfo.go\<close> and the record \<open>world\<close> of answers of the node and the sealer;
    \<open>Sealing_Handlers\<close>, \<open>Sealing_Recovery\<close>: the handlers of \<^verbatim>\<open>states_sealing.go\<close>, \<^verbatim>\<open>states_failed.go\<close>,
    \<^verbatim>\<open>states_proving.go\<close>; \<open>Sealing_Input\<close>: \<^verbatim>\<open>input.go\<close>, \<^verbatim>\<open>garbage.go\<close>; \<open>Sealing_Dispatch\<close>: which handler runs in which
    state and which events it may send.
  \<^item> \<open>Sealing_Invariant\<close>, \<open>Sealing_System\<close>, \<open>Sealing_Safety\<close>: sectors as a machine of external events and events of
    the handlers. Which states are never reached, what every reachable sector has, the one way in which a handler
    can panic, their events are accepted (with two exceptions), a sector is finalized only when it is on chain,
    a removed sector does not come back. \<open>Sealing_Progress\<close>: sealing reaches \<open>Proving\<close> in a helpful world.
    \<open>Sealing_Samples\<close>, \<open>Sample_World\<close>: a concrete run and world for the witnesses.
  \<^item> \<open>Sealing_Matching\<close>, \<open>Sealing_Admission\<close>, \<open>Sealing_Layout\<close>: the deal input as a machine. The configuration and the
    counts of sectors may change between any two reads (\<open>limits\<close>). No waiting deal fits into an open sector, an
    admitted deal is kept unless the limits are reached while it arrives, and if that never happens deals are assigned
    once and found when they are written; pieces stay aligned, a matched deal can be written, packing fills a
    sector exactly.

  \<^bold>\<open>Fr32\<close>, \<^verbatim>\<open>extern/sector-storage/fr32\<close>. \<open>Fr32\<close>: the byte loops \<open>pad\<close> and \<open>unpad\<close>, proved to insert two zero bits
  after every 254 bits and to invert each other; \<open>Fr32_Parallel\<close>: \<open>mt\<close>, \<open>Pad\<close>, \<open>Unpad\<close>, equal to the loops for every
  schedule of the threads; \<open>Fr32_Streams\<close>: \<open>subPieces\<close>, the padding writer and the unpadding reader, with the
  round trip through both. The loop of \<open>Write\<close> is a partial function; that it ends is part of the properties.

  \<^bold>\<open>Gas\<close>, theory \<open>Chain_Gas\<close>: \<^verbatim>\<open>chain/vm/burn.go\<close> and \<^verbatim>\<open>chain/store/basefee.go\<close>. Fees add up to what the sender put
  up, the base fee moves by at most an eighth and counts every message once. The bounds on gas limits
  (\<open>2 ^ 59\<close>, \<open>2 ^ 63\<close>) exclude overflows of \<open>int64\<close>; block gas limits are far below.

  \<^bold>\<open>State tree\<close>, \<^verbatim>\<open>chain/state/statetree.go\<close>. \<open>State_Snaps\<close>: the snapshot layers and the address cache, whose
  shortcut equals a search of all layers; \<open>State_Tree\<close>: the operations of the tree; \<open>State_Refine\<close>: the tree
  implements a stack of maps, reverting restores, flushing writes the current map, registered addresses
  resolve. \<open>LookupID\<close> calls itself once, through the init actor; the recursion depth 2 is proved to be enough.

  \<^bold>\<open>Virtual machine\<close>, \<^verbatim>\<open>chain/vm\<close> and \<^verbatim>\<open>chain/actors/aerrors\<close>. Code outside the repository is the record \<open>vm_env\<close>.
  \<^item> \<open>VM_Runtime\<close>: actor errors, \<^verbatim>\<open>gas.go\<close> and \<^verbatim>\<open>gas_v0.go\<close>, the operations of \<^verbatim>\<open>runtime.go\<close>, and the transfers of \<^verbatim>\<open>vm.go\<close>.
    An operation maps a runtime and a tree to an answer or a panic, a runtime and a tree; \<open>None\<close> is a panic of the
    snapshot stack. A method of an actor is any finite program (\<open>prog\<close>) over these operations: a method that
    never ends by itself, without nested messages, is not represented. System calls are a parameter that says which
    actors and blocks a call reads (reading blocks costs gas) and what it answers, or that it panics.
  \<^item> \<open>VM_Apply\<close>: \<^verbatim>\<open>invoker.go\<close>, \<^verbatim>\<open>mkactor.go\<close>, \<open>send\<close>, \<open>ApplyImplicitMessage\<close> and \<open>ApplyMessage\<close> of \<^verbatim>\<open>vm.go\<close>. \<open>send\<close> and actor
    methods call each other; the recursion has depth \<open>MaxCallDepth + 2\<close>, which is enough because \<open>makeRuntime\<close> refuses
    deeper calls: it is never used up, and more levels give the same results (\<open>VM_Depth\<close>), as the first property states.
  \<^item> \<open>VM_Invariant\<close>: the invariant of the tree and rules for the operations; \<open>VM_Calls\<close>: every operation, every program
    and \<open>send\<close> keep it, by induction over programs and depth; \<open>VM_Messages\<close>: charging the sender and settling the fees;
    \<open>VM_Safety\<close>: applying a message gives a result, creates no tokens, changes only the fees when it fails and keeps to the gas
    limit; plain transfers move exactly their value.

  \<^bold>\<open>Not modelled.\<close> The remaining packages: network protocols, key-value stores and file I/O, proofs and signatures
  (library calls), flushing and copying of blocks by the virtual machine, its traces, floating-point heuristics of the message pool, generated
  serialisation code, the command line and the JSON-RPC layer. The HAMT of the state tree is one whose store does not
  fail on reads and writes (\<open>hamt_ok\<close>). Logging, metrics, tracing and contexts are left
  out of the modelled functions; time is a parameter.
\<close>

end
